(* ===== verification/Prelude.thy ===== *)
theory Prelude
  imports Main
begin

text \<open>
  Shared base of the development: the result type of a modelled C++ operation, the few
  combinators the operations are composed with, a weakest-precondition calculus over them,
  and the theorem collections \<open>op_defs\<close> and \<open>wp_simps\<close> that the component theories fill.

  A C++ member function of the library is a function from the process state to an outcome:
  it returns a value, or it leaves the current stack for good through \<open>siglongjmp\<close>
  (\<open>Jump\<close>, with the \<open>sigjmp_buf\<close> it jumped to), or it ends the process through
  \<open>exit\<close> (\<open>Exit\<close>, with the exit code), or it has undefined behaviour (\<open>Fault\<close>).
\<close>

datatype ub =
    Null_deref           \<comment> \<open>member access through a null pointer\<close>
  | Use_after_free       \<comment> \<open>access to a deleted object\<close>
  | Double_free          \<comment> \<open>\<open>delete\<close> of an object that is not live\<close>
  | Empty_front          \<comment> \<open>\<open>front()\<close> or \<open>pop_front()\<close> on an empty deque\<close>
  | Signed_overflow      \<comment> \<open>signed \<open>int\<close> arithmetic out of range\<close>
  | Stale_context        \<comment> \<open>\<open>siglongjmp\<close> into a function that has returned\<close>
  | Null_call            \<comment> \<open>jump to the null address\<close>

datatype ('a, 'j, 's) outcome =
    Ret 'a 's
  | Jump 'j 's
  | Exit int 's
  | Fault ub

type_synonym ('a, 'j, 's) oper = "'s \<Rightarrow> ('a, 'j, 's) outcome"

named_theorems op_defs "definitions of the operations, for symbolic execution"
named_theorems wp_simps "weakest preconditions of the operations"

subsection \<open>Combinators\<close>

definition ret :: "'a \<Rightarrow> ('a, 'j, 's) oper" where
  "ret x s = Ret x s"

definition bind_op :: "('a, 'j, 's) oper \<Rightarrow> ('a \<Rightarrow> ('b, 'j, 's) oper) \<Rightarrow> ('b, 'j, 's) oper" where
  "bind_op m f s =
     (case m s of
        Ret x s' \<Rightarrow> f x s'
      | Jump j s' \<Rightarrow> Jump j s'
      | Exit n s' \<Rightarrow> Exit n s'
      | Fault u \<Rightarrow> Fault u)"

definition seq_op :: "('a, 'j, 's) oper \<Rightarrow> ('b, 'j, 's) oper \<Rightarrow> ('b, 'j, 's) oper" where
  "seq_op m n = bind_op m (\<lambda>_. n)"

definition gets :: "('s \<Rightarrow> 'a) \<Rightarrow> ('a, 'j, 's) oper" where
  "gets f s = Ret (f s) s"

definition modify :: "('s \<Rightarrow> 's) \<Rightarrow> (unit, 'j, 's) oper" where
  "modify f s = Ret () (f s)"

definition fault :: "ub \<Rightarrow> ('a, 'j, 's) oper" where
  "fault u s = Fault u"

definition exit_with :: "int \<Rightarrow> ('a, 'j, 's) oper" where
  "exit_with n s = Exit n s"

text \<open>A range-based \<open>for\<close> loop over the elements of a container.\<close>

fun for_each :: "'x list \<Rightarrow> ('x \<Rightarrow> (unit, 'j, 's) oper) \<Rightarrow> (unit, 'j, 's) oper" where
  "for_each [] body = ret ()"
| "for_each (x # xs) body = seq_op (body x) (for_each xs body)"

lemmas comb_defs = ret_def bind_op_def seq_op_def gets_def modify_def fault_def exit_with_def

lemma bind_op_assoc:
  "bind_op (bind_op m f) g = bind_op m (\<lambda>x. bind_op (f x) g)"
  by (rule ext) (simp add: bind_op_def split: outcome.splits)

lemma bind_op_ret: "bind_op m ret = m"
  by (rule ext) (simp add: bind_op_def ret_def split: outcome.splits)

subsection \<open>Weakest preconditions\<close>

text \<open>
  \<open>wp R J E F m s\<close>: run from \<open>s\<close>, the operation \<open>m\<close> ends in a state that satisfies
  \<open>R\<close> if it returns, \<open>J\<close> if it jumps, \<open>E\<close> if it exits, and if it faults, the fault
  satisfies \<open>F\<close>.
\<close>

definition wp :: "('a \<Rightarrow> 's \<Rightarrow> bool) \<Rightarrow> ('j \<Rightarrow> 's \<Rightarrow> bool) \<Rightarrow> (int \<Rightarrow> 's \<Rightarrow> bool) \<Rightarrow> (ub \<Rightarrow> bool) \<Rightarrow>
    ('a, 'j, 's) oper \<Rightarrow> 's \<Rightarrow> bool" where
  "wp R J E F m s =
     (case m s of
        Ret x s' \<Rightarrow> R x s'
      | Jump j s' \<Rightarrow> J j s'
      | Exit n s' \<Rightarrow> E n s'
      | Fault u \<Rightarrow> F u)"

text \<open>
  The equations leave the state argument out, so that they also rewrite under the binder of a
  continuation.
\<close>

lemma wp_ret [simp]: "wp R J E F (ret x) = R x"
  by (simp add: fun_eq_iff wp_def ret_def)

lemma wp_gets [simp]: "wp R J E F (gets f) = (\<lambda>s. R (f s) s)"
  by (simp add: fun_eq_iff wp_def gets_def)

lemma wp_modify [simp]: "wp R J E F (modify f) = (\<lambda>s. R () (f s))"
  by (simp add: fun_eq_iff wp_def modify_def)

lemma wp_fault [simp]: "wp R J E F (fault u) = (\<lambda>_. F u)"
  by (simp add: fun_eq_iff wp_def fault_def)

lemma wp_exit_with [simp]: "wp R J E F (exit_with n) = E n"
  by (simp add: fun_eq_iff wp_def exit_with_def)

lemma wp_bind_op [simp]:
  "wp R J E F (bind_op m f) = wp (\<lambda>x. wp R J E F (f x)) J E F m"
  by (simp add: fun_eq_iff wp_def bind_op_def split: outcome.splits)

lemma wp_seq_op [simp]:
  "wp R J E F (seq_op m n) = wp (\<lambda>_. wp R J E F n) J E F m"
  by (simp add: seq_op_def)

lemma wp_if:
  "wp R J E F (if b then m else n) s = (if b then wp R J E F m s else wp R J E F n s)"
  by simp

lemma wp_mono:
  assumes "wp R J E F m s"
    and "\<And>x s'. R x s' \<Longrightarrow> R' x s'" and "\<And>j s'. J j s' \<Longrightarrow> J' j s'"
    and "\<And>n s'. E n s' \<Longrightarrow> E' n s'" and "\<And>u. F u \<Longrightarrow> F' u"
  shows "wp R' J' E' F' m s"
  using assms by (auto simp: wp_def split: outcome.splits)

lemma wp_conj:
  assumes "wp R J E F m s" and "wp R' J' E' F' m s"
  shows "wp (\<lambda>x s. R x s \<and> R' x s) (\<lambda>j s. J j s \<and> J' j s) (\<lambda>n s. E n s \<and> E' n s)
    (\<lambda>u. F u \<and> F' u) m s"
  using assms by (auto simp: wp_def split: outcome.splits)

lemma wp_RetD: "wp R J E F m s \<Longrightarrow> m s = Ret x s' \<Longrightarrow> R x s'"
  by (simp add: wp_def)

lemma wp_JumpD: "wp R J E F m s \<Longrightarrow> m s = Jump j s' \<Longrightarrow> J j s'"
  by (simp add: wp_def)

lemma wp_ExitD: "wp R J E F m s \<Longrightarrow> m s = Exit n s' \<Longrightarrow> E n s'"
  by (simp add: wp_def)

lemma wp_FaultD: "wp R J E F m s \<Longrightarrow> m s = Fault u \<Longrightarrow> F u"
  by (simp add: wp_def)

text \<open>The loop rule: an invariant over the elements still to visit.\<close>

lemma wp_for_each:
  assumes "I xs s"
    and "\<And>y ys t. I (y # ys) t \<Longrightarrow> wp (\<lambda>_. I ys) J E F (body y) t"
  shows "wp (\<lambda>_. I []) J E F (for_each xs body) s"
  using assms(1)
proof (induction xs arbitrary: s)
  case Nil
  then show ?case by simp
next
  case (Cons y ys)
  have "wp (\<lambda>_. I ys) J E F (body y) s"
    using Cons.prems by (rule assms(2))
  then have "wp (\<lambda>_. wp (\<lambda>_. I []) J E F (for_each ys body)) J E F (body y) s"
    by (rule wp_mono) (auto intro: Cons.IH)
  then show ?case by simp
qed

subsection \<open>Lists\<close>

lemma filter_neq_append [simp]:
  "x \<notin> set ys \<Longrightarrow> filter (\<lambda>y. y \<noteq> x) ys = ys"
  by (induction ys) auto

lemma distinct_filter_neq: "distinct xs \<Longrightarrow> distinct (filter (\<lambda>y. y \<noteq> x) xs)"
  by simp

end
