(* ===== verification/CInt.thy ===== *)
theory CInt
  imports Prelude "HOL-Library.Word" "HOL-Library.Signed_Division"
begin

text \<open>
  The C integer types the library uses, on the LP64 platform its x86-64 branch is built for:
  \<open>int\<close> has 32 bits, \<open>size_t\<close> has 64. A value of type \<open>int\<close> is an \<^typ>\<open>int\<close> in
  range, a value of type \<open>size_t\<close> is a \<^typ>\<open>nat\<close> below \<open>2 ^ 64\<close>; every conversion
  and every operation whose result can leave the range is one of the functions below. The
  lemmas at the end show that the conversions are those of the word library.
\<close>

definition INT_MAX :: int where "INT_MAX = 2 ^ 31 - 1"

definition INT_MIN :: int where "INT_MIN = - (2 ^ 31)"

definition in_int :: "int \<Rightarrow> bool" where
  "in_int i \<longleftrightarrow> INT_MIN \<le> i \<and> i \<le> INT_MAX"

text \<open>Conversion \<open>int\<close> to \<open>size_t\<close>: modulo \<open>2 ^ 64\<close>, so \<open>-1\<close> becomes \<open>2 ^ 64 - 1\<close>.\<close>

definition size_t_of_int :: "int \<Rightarrow> nat" where
  "size_t_of_int i = nat (i mod 2 ^ 64)"

text \<open>The cast \<open>(int) n\<close> of a \<open>size_t\<close>: the low 32 bits, read in two's complement.\<close>

definition int_of_size_t :: "nat \<Rightarrow> int" where
  "int_of_size_t n = (let m = int n mod 2 ^ 32 in if m < 2 ^ 31 then m else m - 2 ^ 32)"

text \<open>Unsigned addition wraps; signed arithmetic out of range is undefined behaviour.\<close>

definition size_add :: "nat \<Rightarrow> nat \<Rightarrow> nat" where
  "size_add a b = (a + b) mod 2 ^ 64"

definition int_check :: "int \<Rightarrow> (int, 'j, 's) oper" where
  "int_check i = (if in_int i then ret i else fault Signed_overflow)"

lemma wp_int_check [simp]:
  "wp R J E F (int_check i) s = (if in_int i then R i s else F Signed_overflow)"
  by (simp add: int_check_def)

lemmas int_limits = INT_MAX_def INT_MIN_def

lemma size_t_of_int_nonneg:
  "0 \<le> i \<Longrightarrow> i \<le> INT_MAX \<Longrightarrow> size_t_of_int i = nat i"
  by (simp add: size_t_of_int_def int_limits)

lemma size_t_of_int_neg:
  "INT_MIN \<le> i \<Longrightarrow> i < 0 \<Longrightarrow> 2 ^ 63 \<le> size_t_of_int i"
proof -
  assume "INT_MIN \<le> i" and "i < 0"
  then have "i mod 2 ^ 64 = i + 2 ^ 64"
    by (intro mod_pos_pos_trivial [of "i + 2 ^ 64" "2 ^ 64", simplified mod_add_self2])
      (auto simp: int_limits)
  with \<open>INT_MIN \<le> i\<close> show ?thesis
    by (simp add: size_t_of_int_def int_limits)
qed

lemma int_of_size_t_small: "n < 2 ^ 31 \<Longrightarrow> int_of_size_t n = int n"
  by (simp add: int_of_size_t_def Let_def)

lemma in_int_of_size_t: "in_int (int_of_size_t n)"
proof -
  have "0 \<le> int n mod 2 ^ 32" "int n mod 2 ^ 32 < 2 ^ 32"
    by simp_all
  then show ?thesis
    unfolding int_of_size_t_def in_int_def int_limits Let_def
    by auto
qed

lemma size_add_small: "a + b < 2 ^ 64 \<Longrightarrow> size_add a b = a + b"
  by (simp add: size_add_def)

text \<open>The same conversions, by the word library.\<close>

lemma size_t_of_int_word: "size_t_of_int i = unat (word_of_int i :: 64 word)"
  by (simp add: size_t_of_int_def unsigned_of_int take_bit_eq_mod)

lemma bit_31_of_int: "bit (k :: int) 31 \<longleftrightarrow> 2 ^ 31 \<le> k mod 2 ^ 32"
proof -
  define m where "m = k mod 2 ^ 32"
  have m: "0 \<le> m" "m < 2 ^ 32" by (simp_all add: m_def)
  have "bit k 31 \<longleftrightarrow> bit (take_bit 32 k) 31"
    by (simp add: bit_take_bit_iff)
  also have "\<dots> \<longleftrightarrow> odd (m div 2 ^ 31)"
    by (simp only: m_def take_bit_eq_mod bit_iff_odd)
  also have "\<dots> \<longleftrightarrow> 2 ^ 31 \<le> m"
  proof (cases "2 ^ 31 \<le> m")
    case True
    have "m = (m - 2 ^ 31) + 2 ^ 31" by simp
    moreover have "(m - 2 ^ 31) div 2 ^ 31 = 0"
      using True m by (intro div_pos_pos_trivial) auto
    ultimately have "m div 2 ^ 31 = 1"
      by (metis add.commute add_0 div_add_self2 zero_neq_numeral power_not_zero)
    with True show ?thesis by simp
  next
    case False
    then have "m div 2 ^ 31 = 0" using m by (intro div_pos_pos_trivial) auto
    with False show ?thesis by simp
  qed
  finally show ?thesis by (simp only: m_def)
qed

lemma int_of_size_t_word: "int_of_size_t n = sint (word_of_nat n :: 32 word)"
proof -
  have "sint (word_of_nat n :: 32 word) = signed_take_bit 31 (int n)"
    by (simp add: signed_of_nat)
  also have "\<dots> = take_bit 32 (int n) - 2 ^ 32 * of_bool (bit (int n) 31)"
    by (simp add: signed_take_bit_eq_take_bit_minus)
  also have "\<dots> = int_of_size_t n"
    unfolding bit_31_of_int take_bit_eq_mod int_of_size_t_def Let_def by auto
  finally show ?thesis ..
qed

end
