(* ===== verification/Platform.thy ===== *)
theory Platform
  imports CInt
begin

unbundle bit_operations_syntax

text \<open>
  What the library uses of the operating system and the C library: the signal mask, the
  disposition of \<open>SIGVTALRM\<close>, the virtual interval timer, the standard error stream. Their
  state is the record \<open>os_state\<close>. What they answer is not determined by the program: the record
  \<open>platform\<close> is a parameter of the model, with the result of every system call (a function of
  everything that happened before), the addresses \<open>new char[STACK_SIZE]\<close> returns, the
  pointer-guard word of the C library and the decoding \<open>siglongjmp\<close> applies to a stored
  address. Each call is recorded in \<open>events\<close>, the most recent first.
\<close>

type_synonym addr = "64 word"

datatype signal = SIGVTALRM | Other_signal nat

type_synonym sigset = "signal set"

datatype how = SIG_BLOCK | SIG_UNBLOCK

text \<open>\<open>callback_handler\<close> of \<open>uthreads.cpp\<close> is the only handler the library installs.\<close>

datatype sig_handler = SIG_DFL | Callback_handler

record timeval =
  tv_sec :: int
  tv_usec :: int

record itimerval =
  it_interval :: timeval
  it_value :: timeval

datatype syscall =
    Sigaction signal sig_handler
  | Setitimer_virtual itimerval
  | Sigprocmask how sigset

datatype event = Sys syscall int | Stderr string

record platform =
  sys_ret :: "event list \<Rightarrow> syscall \<Rightarrow> int"
  new_char :: "nat \<Rightarrow> addr"
  pointer_guard :: addr
  demangle :: "addr \<Rightarrow> addr"

record os_state =
  sig_mask :: sigset
  disposition :: sig_handler
  itimer :: itimerval
  events :: "event list"

definition zero_timer :: itimerval where
  "zero_timer = \<lparr>it_interval = \<lparr>tv_sec = 0, tv_usec = 0\<rparr>, it_value = \<lparr>tv_sec = 0, tv_usec = 0\<rparr>\<rparr>"

subsection \<open>System calls\<close>

definition do_syscall :: "platform \<Rightarrow> syscall \<Rightarrow> (int, 'j, 'z os_state_scheme) oper" where
  "do_syscall K c s =
     (let r = sys_ret K (events s) c in Ret r (s\<lparr>events := Sys c r # events s\<rparr>))"

definition change_mask :: "how \<Rightarrow> sigset \<Rightarrow> sigset \<Rightarrow> sigset" where
  "change_mask h S M = (case h of SIG_BLOCK \<Rightarrow> M \<union> S | SIG_UNBLOCK \<Rightarrow> M - S)"

definition sigprocmask :: "platform \<Rightarrow> how \<Rightarrow> sigset \<Rightarrow> (int, 'j, 'z os_state_scheme) oper" where
  "sigprocmask K h S =
     bind_op (do_syscall K (Sigprocmask h S)) (\<lambda>r.
     if r = - 1 then ret r
     else seq_op (modify (\<lambda>s. s\<lparr>sig_mask := change_mask h S (sig_mask s)\<rparr>)) (ret r))"

definition setitimer :: "platform \<Rightarrow> itimerval \<Rightarrow> (int, 'j, 'z os_state_scheme) oper" where
  "setitimer K t =
     bind_op (do_syscall K (Setitimer_virtual t)) (\<lambda>r.
     if r = - 1 then ret r
     else seq_op (modify (\<lambda>s. s\<lparr>itimer := t\<rparr>)) (ret r))"

definition sigaction :: "platform \<Rightarrow> signal \<Rightarrow> sig_handler \<Rightarrow> (int, 'j, 'z os_state_scheme) oper" where
  "sigaction K n h =
     bind_op (do_syscall K (Sigaction n h)) (\<lambda>r.
     if r = - 1 then ret r
     else seq_op (modify (\<lambda>s. if n = SIGVTALRM then s\<lparr>disposition := h\<rparr> else s)) (ret r))"

definition stderr_put :: "string \<Rightarrow> (unit, 'j, 'z os_state_scheme) oper" where
  "stderr_put txt = modify (\<lambda>s. s\<lparr>events := Stderr txt # events s\<rparr>)"

text \<open>\<open>fprintf\<close> with a format whose only directive is \<open>%s\<close>.\<close>

fun format_s :: "string \<Rightarrow> string \<Rightarrow> string" where
  "format_s [] a = []"
| "format_s (c # fmt) a =
     (if c = CHR ''%'' then
        (case fmt of [] \<Rightarrow> [c] | d # fmt' \<Rightarrow> if d = CHR ''s'' then a @ format_s fmt' a else c # format_s fmt a)
      else c # format_s fmt a)"

subsection \<open>The documented behaviour of the platform\<close>

text \<open>No system call reports an error.\<close>

definition sys_ok :: "platform \<Rightarrow> bool" where
  "sys_ok K \<longleftrightarrow> (\<forall>es c. sys_ret K es c \<noteq> - 1)"

text \<open>Preconditions: the call may fail, and then nothing but the record of it changes.\<close>

abbreviation logged :: "'z os_state_scheme \<Rightarrow> syscall \<Rightarrow> int \<Rightarrow> 'z os_state_scheme" where
  "logged s c r \<equiv> s\<lparr>events := Sys c r # events s\<rparr>"

lemma wp_do_syscall [wp_simps]:
  "wp R J E F (do_syscall K c) s =
     R (sys_ret K (events s) c) (logged s c (sys_ret K (events s) c))"
  by (simp add: wp_def do_syscall_def Let_def)

lemma wp_stderr_put [wp_simps]:
  "wp R J E F (stderr_put txt) s = R () (s\<lparr>events := Stderr txt # events s\<rparr>)"
  by (simp add: stderr_put_def)

lemma wp_sigprocmask [wp_simps]:
  "wp R J E F (sigprocmask K h S) s =
     (let r = sys_ret K (events s) (Sigprocmask h S); s' = logged s (Sigprocmask h S) r
      in if r = - 1 then R r s' else R r (s'\<lparr>sig_mask := change_mask h S (sig_mask s)\<rparr>))"
  by (simp add: sigprocmask_def wp_simps Let_def)

lemma wp_setitimer [wp_simps]:
  "wp R J E F (setitimer K t) s =
     (let r = sys_ret K (events s) (Setitimer_virtual t); s' = logged s (Setitimer_virtual t) r
      in if r = - 1 then R r s' else R r (s'\<lparr>itimer := t\<rparr>))"
  by (simp add: setitimer_def wp_simps Let_def)

end
