(* ===== verification/Handle.thy ===== *)
theory Handle
  imports Platform
begin

text \<open>
  \<open>Handle.h\<close> and \<open>Handle.cpp\<close>: the two error reports and the forced exit. A library error is
  printed and answered with \<open>FAILURE_ERROR\<close>; a system-call error is printed and ends the process.
\<close>

definition LIBRARY_ERROR :: string where
  "LIBRARY_ERROR = ''thread library error: %s'' @ [CHR 0x0A]"

definition SYSTEM_CALL_ERROR :: string where
  "SYSTEM_CALL_ERROR = ''system error: %s'' @ [CHR 0x0A]"

definition EXIT_CODE_FAILURE :: int where "EXIT_CODE_FAILURE = 1"

definition FAILURE_ERROR :: int where "FAILURE_ERROR = - 1"

definition EXIT_FORCED :: int where "EXIT_FORCED = 0"

definition handleErrorLibrary :: "string \<Rightarrow> (int, 'j, 'z os_state_scheme) oper" where
  "handleErrorLibrary errorMsg =
     seq_op (stderr_put (format_s LIBRARY_ERROR errorMsg)) (ret FAILURE_ERROR)"

definition handleErrorSystemCall :: "string \<Rightarrow> ('a, 'j, 'z os_state_scheme) oper" where
  "handleErrorSystemCall errorMsg =
     seq_op (stderr_put (format_s SYSTEM_CALL_ERROR errorMsg)) (exit_with EXIT_CODE_FAILURE)"

definition handleForcedExit :: "('a, 'j, 'z os_state_scheme) oper" where
  "handleForcedExit = exit_with EXIT_FORCED"

lemmas handle_consts = EXIT_CODE_FAILURE_def FAILURE_ERROR_def EXIT_FORCED_def

lemma wp_handleErrorLibrary [wp_simps]:
  "wp R J E F (handleErrorLibrary m) s =
     R (- 1) (s\<lparr>events := Stderr (format_s LIBRARY_ERROR m) # events s\<rparr>)"
  by (simp add: handleErrorLibrary_def wp_simps handle_consts)

lemma wp_handleErrorSystemCall [wp_simps]:
  "wp R J E F (handleErrorSystemCall m) s =
     E 1 (s\<lparr>events := Stderr (format_s SYSTEM_CALL_ERROR m) # events s\<rparr>)"
  by (simp add: handleErrorSystemCall_def wp_simps handle_consts)

lemma wp_handleForcedExit [wp_simps]:
  "wp R J E F handleForcedExit s = E 0 s"
  by (simp add: handleForcedExit_def handle_consts)

text \<open>
  A library error prints the message after the prefix \<open>thread library error: \<close> on a line of
  its own on the standard error stream, changes nothing else of the process, and its value is the
  \<open>-1\<close> every API function returns on failure; this is what callers (and the tests) look for.
\<close>

lemma library_error_report:
  "handleErrorLibrary m s =
     Ret (- 1) (s\<lparr>events := Stderr (''thread library error: '' @ m @ [CHR 0x0A]) # events s\<rparr>)"
  by (simp add: handleErrorLibrary_def LIBRARY_ERROR_def stderr_put_def comb_defs handle_consts)

end
