(* ===== verification/Thread.thy ===== *)
theory Thread
  imports Handle
begin

text \<open>
  \<open>Thread.h\<close> and \<open>Thread.cpp\<close>: the thread object, its constructor, and the address
  translation that makes a hand-written stack pointer and program counter acceptable to
  \<open>siglongjmp\<close>. The x86-64 branch of the file is the one used in the rest of the development;
  the 32-bit translation is modelled beside it.

  A \<open>sigjmp_buf\<close> is the register array and the saved signal mask. A slot of the array is either
  what \<open>sigsetjmp\<close> saved at one of the calls of \<open>sigsetjmp\<close> in the sources (the call site
  stands for the continuation after that call), or an address the program wrote into the slot.
\<close>

definition MAX_THREAD_NUM :: int where "MAX_THREAD_NUM = 100"

definition STACK_SIZE :: nat where "STACK_SIZE = 4096"

definition SECOND :: int where "SECOND = 1000000"

datatype State = RUNNNING | BLOCKED | READY

datatype call_site =
    In_Thread_ctor
  | In_change_thread
  | In_block_thread
  | In_sleep_running_thread

datatype slot = Saved call_site | Stored addr

record sigjmp_buf =
  jmpbuf :: "slot list"
  saved_mask :: sigset

record Thread =
  state :: State
  stack :: addr
  env :: sigjmp_buf
  quantum_t :: nat

subsection \<open>Address translation\<close>

definition JB_SP :: nat where "JB_SP = 6"

definition JB_PC :: nat where "JB_PC = 7"

text \<open>\<open>xor %fs:0x30, ret; rol $0x11, ret\<close>: the word at \<open>%fs:0x30\<close> is the pointer guard.\<close>

definition translate_address :: "addr \<Rightarrow> addr \<Rightarrow> addr" where
  "translate_address guard a = word_rotl 0x11 (a XOR guard)"

text \<open>The branch for 32-bit Intel: \<open>xor %gs:0x18, ret; rol $0x9, ret\<close>.\<close>

definition translate_address32 :: "32 word \<Rightarrow> 32 word \<Rightarrow> 32 word" where
  "translate_address32 guard a = word_rotl 0x9 (a XOR guard)"

subsection \<open>Saving and restoring a context\<close>

text \<open>
  \<open>sigsetjmp(env, 1)\<close> saves the eight registers of the x86-64 buffer and the signal mask.
  \<open>siglongjmp(env, 1)\<close> restores the saved mask and leaves the current stack.
\<close>

definition sigsetjmp :: "call_site \<Rightarrow> sigset \<Rightarrow> sigjmp_buf" where
  "sigsetjmp site M = \<lparr>jmpbuf = replicate 8 (Saved site), saved_mask = M\<rparr>"

definition siglongjmp :: "sigjmp_buf \<Rightarrow> ('a, sigjmp_buf, 'z os_state_scheme) oper" where
  "siglongjmp e s = Jump e (s\<lparr>sig_mask := saved_mask e\<rparr>)"

lemma wp_siglongjmp [wp_simps]:
  "wp R J E F (siglongjmp e) s = J e (s\<lparr>sig_mask := saved_mask e\<rparr>)"
  by (simp add: wp_def siglongjmp_def)

subsection \<open>The constructor\<close>

text \<open>
  \<open>n\<close> is the number of the thread object among all that were ever created; the platform says
  where \<open>new char[STACK_SIZE]\<close> put its stack. \<open>M\<close> is the signal mask of the caller.
\<close>

definition Thread_ctor ::
    "platform \<Rightarrow> nat \<Rightarrow> sigset \<Rightarrow> State \<Rightarrow> nat \<Rightarrow> bool \<Rightarrow> addr \<Rightarrow> Thread" where
  "Thread_ctor K n M st quantum allocate_stack entry_point =
     (let stk = (if allocate_stack then new_char K n else 0);
          sp = stk + word_of_nat STACK_SIZE - 8;
          e0 = sigsetjmp In_Thread_ctor M;
          e1 = e0\<lparr>jmpbuf := (jmpbuf e0)[JB_SP := Stored (translate_address (pointer_guard K) sp)]\<rparr>;
          e2 = e1\<lparr>jmpbuf := (jmpbuf e1)[JB_PC := Stored (translate_address (pointer_guard K) entry_point)]\<rparr>;
          e3 = e2\<lparr>saved_mask := {}\<rparr>
      in \<lparr>state = st, stack = stk, env = e3, quantum_t = quantum\<rparr>)"

text \<open>The C library decodes what it finds in the two slots with the inverse of the translation.\<close>

definition mangling_ok :: "platform \<Rightarrow> bool" where
  "mangling_ok K \<longleftrightarrow> (\<forall>a. demangle K (translate_address (pointer_guard K) a) = a)"

text \<open>
  What \<open>operator new[]\<close> promises about a block of \<open>STACK_SIZE\<close> characters: it is not null, it
  lies inside the address space, and it is aligned for every type (16 bytes on x86-64).
\<close>

definition stack_block_ok :: "platform \<Rightarrow> nat \<Rightarrow> bool" where
  "stack_block_ok K n \<longleftrightarrow>
     new_char K n \<noteq> 0 \<and> unat (new_char K n) + STACK_SIZE \<le> 2 ^ 64 \<and> 16 dvd unat (new_char K n)"

lemma Thread_ctor_simps [simp]:
  "state (Thread_ctor K n M st q al ep) = st"
  "quantum_t (Thread_ctor K n M st q al ep) = q"
  "stack (Thread_ctor K n M st q al ep) = (if al then new_char K n else 0)"
  "saved_mask (env (Thread_ctor K n M st q al ep)) = {}"
  "length (jmpbuf (env (Thread_ctor K n M st q al ep))) = 8"
  "jmpbuf (env (Thread_ctor K n M st q al ep)) ! JB_PC =
     Stored (translate_address (pointer_guard K) ep)"
  "jmpbuf (env (Thread_ctor K n M st q al ep)) ! JB_SP =
     Stored (translate_address (pointer_guard K)
       ((if al then new_char K n else 0) + word_of_nat STACK_SIZE - 8))"
  by (simp_all add: Thread_ctor_def sigsetjmp_def JB_SP_def JB_PC_def Let_def)

lemma sigsetjmp_simps [simp]:
  "saved_mask (sigsetjmp site M) = M"
  "length (jmpbuf (sigsetjmp site M)) = 8"
  "jmpbuf (sigsetjmp site M) ! JB_PC = Saved site"
  "jmpbuf (sigsetjmp site M) ! JB_SP = Saved site"
  by (simp_all add: sigsetjmp_def JB_SP_def JB_PC_def)

subsection \<open>A concrete platform\<close>

text \<open>
  Every system call succeeds, the stacks are consecutive blocks, and the decoding is the one of
  the C library: rotate right, then exclusive-or with the guard.
\<close>

definition glibc_demangle :: "addr \<Rightarrow> addr \<Rightarrow> addr" where
  "glibc_demangle guard w = word_rotr 0x11 w XOR guard"

definition good_platform :: platform where
  "good_platform =
     \<lparr>sys_ret = \<lambda>_ _. 0, new_char = \<lambda>n. word_of_nat (65536 + 4096 * n),
      pointer_guard = 0x0123456789ABCDEF, demangle = glibc_demangle 0x0123456789ABCDEF\<rparr>"

lemma glibc_demangle_translate: "glibc_demangle g (translate_address g a) = a"
  by (simp add: glibc_demangle_def translate_address_def xor.assoc)

lemma sys_ok_good_platform: "sys_ok good_platform"
  by (simp add: sys_ok_def good_platform_def)

lemma mangling_ok_good_platform: "mangling_ok good_platform"
  by (simp add: mangling_ok_def good_platform_def glibc_demangle_translate)

text \<open>
  The address translation of both branches is a bijection: rotating back and removing the
  guard recovers the address, and translating what was recovered gives the stored word back, so
  no two addresses are stored as the same word and none is lost.
\<close>

lemma translate_address_bij:
  "word_rotr 0x11 (translate_address g a) XOR g = a \<and>
   translate_address g (word_rotr 0x11 w XOR g) = w \<and>
   word_rotr 0x9 (translate_address32 g' a') XOR g' = a' \<and>
   translate_address32 g' (word_rotr 0x9 w' XOR g') = w'"
  by (simp add: translate_address_def translate_address32_def xor.assoc)

text \<open>
  C31. The stack pointer a new thread is given: decoded by the C library, the \<open>JB_SP\<close> slot is the
  last eight-byte word of the thread's own block of \<open>STACK_SIZE\<close> characters, so the stack grows
  downwards inside the block. It is 8 modulo 16: not itself 16-byte aligned, but 8 below a 16-byte
  boundary, as the calling convention of x86-64 has it at the entry of a function. The \<open>JB_PC\<close> slot
  decodes to the entry point, and the mask the thread starts with is empty.
\<close>

theorem fresh_context:
  assumes "mangling_ok K" and "stack_block_ok K n"
  shows "\<exists>w v. let e = env (Thread_ctor K n M st q True ep); sp = demangle K w in
     jmpbuf e ! JB_SP = Stored w \<and> jmpbuf e ! JB_PC = Stored v \<and> demangle K v = ep \<and>
     saved_mask e = {} \<and>
     unat (new_char K n) \<le> unat sp \<and> unat sp + 8 = unat (new_char K n) + STACK_SIZE \<and>
     unat sp mod 16 = 8"
proof -
  let ?b = "new_char K n"
  let ?sp = "?b + word_of_nat STACK_SIZE - 8"
  have b: "unat ?b + 4096 \<le> 2 ^ 64" "16 dvd unat ?b"
    using assms(2) by (simp_all add: stack_block_ok_def STACK_SIZE_def)
  have "?sp = ?b + 4088" by (simp add: STACK_SIZE_def)
  moreover have "unat (?b + 4088) = unat ?b + 4088"
    using b(1) by (subst unat_add_lem [THEN iffD1]) simp_all
  ultimately have sp: "unat ?sp = unat ?b + 4088" by (simp only:)
  then have "unat ?sp + 8 = unat ?b + STACK_SIZE" by (simp add: STACK_SIZE_def)
  moreover have "unat ?sp mod 16 = 8" using b(2) unfolding sp by (auto elim!: dvdE)
  ultimately show ?thesis
    using assms(1) sp by (auto simp: mangling_ok_def Let_def)
qed

theorem fresh_context_witness:
  "mangling_ok good_platform \<and> stack_block_ok good_platform 1 \<and>
   (\<exists>w v. let e = env (Thread_ctor good_platform 1 {SIGVTALRM} READY 0 True 0x400);
        sp = demangle good_platform w in
     jmpbuf e ! JB_SP = Stored w \<and> jmpbuf e ! JB_PC = Stored v \<and> demangle good_platform v = 0x400 \<and>
     saved_mask e = {} \<and>
     unat (new_char good_platform 1) \<le> unat sp \<and>
     unat sp + 8 = unat (new_char good_platform 1) + STACK_SIZE \<and> unat sp mod 16 = 8)"
proof -
  have s: "stack_block_ok good_platform 1"
    by (simp add: stack_block_ok_def good_platform_def STACK_SIZE_def)
  show ?thesis
    using fresh_context [OF mangling_ok_good_platform s] mangling_ok_good_platform s by blast
qed

end
