(* ===== verification/StdMap.thy ===== *)
theory StdMap
  imports Prelude
begin

text \<open>
  The associative containers of the C++ standard library as the scheduler uses them.
  A \<open>std::map\<close> is a list of key/value pairs in strictly ascending order of the keys, which
  is the order a range-based \<open>for\<close> loop over it visits. The scheduler relies on the laws of
  the locale \<open>ordered_map\<close> only; the interpretation \<open>std\<close> discharges them for the lists.
\<close>

type_synonym ('k, 'v) std_map = "('k \<times> 'v) list"

text \<open>\<open>m.find(k)\<close>, \<open>m[k] = v\<close> and \<open>m.erase(k)\<close>.\<close>

fun map_find :: "('k, 'v) std_map \<Rightarrow> 'k \<Rightarrow> 'v option" where
  "map_find [] k = None"
| "map_find ((k', v) # m) k = (if k = k' then Some v else map_find m k)"

fun map_assign :: "('k :: linorder) \<Rightarrow> 'v \<Rightarrow> ('k, 'v) std_map \<Rightarrow> ('k, 'v) std_map" where
  "map_assign k v [] = [(k, v)]"
| "map_assign k v ((k', v') # m) =
     (if k < k' then (k, v) # (k', v') # m
      else if k = k' then (k, v) # m
      else (k', v') # map_assign k v m)"

fun map_erase :: "'k \<Rightarrow> ('k, 'v) std_map \<Rightarrow> ('k, 'v) std_map" where
  "map_erase k [] = []"
| "map_erase k ((k', v) # m) = (if k = k' then m else (k', v) # map_erase k m)"

text \<open>The representation invariant.\<close>

definition map_ok :: "('k :: linorder, 'v) std_map \<Rightarrow> bool" where
  "map_ok m \<longleftrightarrow> sorted_wrt (<) (map fst m)"

subsection \<open>The interface\<close>

locale ordered_map =
  fixes empty :: "'m"
    and find :: "'m \<Rightarrow> ('k :: linorder) \<Rightarrow> 'v option"
    and assign :: "'k \<Rightarrow> 'v \<Rightarrow> 'm \<Rightarrow> 'm"
    and erase :: "'k \<Rightarrow> 'm \<Rightarrow> 'm"
    and entries :: "'m \<Rightarrow> ('k \<times> 'v) list"
    and ok :: "'m \<Rightarrow> bool"
  assumes ok_empty: "ok empty"
    and ok_assign: "ok m \<Longrightarrow> ok (assign k v m)"
    and ok_erase: "ok m \<Longrightarrow> ok (erase k m)"
    and find_empty: "find empty = (\<lambda>_. None)"
    and find_assign: "ok m \<Longrightarrow> find (assign k v m) = (find m)(k \<mapsto> v)"
    and find_erase: "ok m \<Longrightarrow> find (erase k m) = (find m)(k := None)"
    and entries_sorted: "ok m \<Longrightarrow> sorted_wrt (<) (map fst (entries m))"
    and entries_find: "ok m \<Longrightarrow> (k, v) \<in> set (entries m) \<longleftrightarrow> find m k = Some v"
begin

lemma dom_assign: "ok m \<Longrightarrow> dom (find (assign k v m)) = insert k (dom (find m))"
  by (simp add: find_assign)

lemma dom_erase: "ok m \<Longrightarrow> dom (find (erase k m)) = dom (find m) - {k}"
  by (simp add: find_erase)

lemma keys_entries: "ok m \<Longrightarrow> fst ` set (entries m) = dom (find m)"
proof (rule set_eqI)
  fix k
  assume "ok m"
  have "k \<in> fst ` set (entries m) \<longleftrightarrow> (\<exists>v. (k, v) \<in> set (entries m))" by force
  also have "\<dots> \<longleftrightarrow> k \<in> dom (find m)"
    using \<open>ok m\<close> by (simp add: entries_find dom_def)
  finally show "k \<in> fst ` set (entries m) \<longleftrightarrow> k \<in> dom (find m)" .
qed

lemma distinct_keys: "ok m \<Longrightarrow> distinct (map fst (entries m))"
  using entries_sorted strict_sorted_iff by blast

lemma finite_dom: "ok m \<Longrightarrow> finite (dom (find m))"
  using keys_entries by (metis finite_imageI finite_set)

lemma length_entries: "ok m \<Longrightarrow> length (entries m) = card (dom (find m))"
  by (metis distinct_keys keys_entries distinct_card length_map set_map)

lemma erase_all:
  assumes "ok m"
  shows "ok (fold erase ks m)"
    and "find (fold erase ks m) = (\<lambda>k. if k \<in> set ks then None else find m k)"
  using assms
  by (induction ks arbitrary: m) (auto simp: find_erase ok_erase fun_eq_iff)

end

subsection \<open>The sorted lists provide it\<close>

lemma map_find_mem: "map_find m k = Some v \<Longrightarrow> (k, v) \<in> set m"
  by (induction m k rule: map_find.induct) (auto split: if_splits)

lemma map_find_notin: "k \<notin> fst ` set m \<Longrightarrow> map_find m k = None"
  by (induction m k rule: map_find.induct) auto

lemma map_find_set:
  fixes m :: "('k :: linorder, 'v) std_map"
  assumes "sorted_wrt (<) (map fst m)"
  shows "(k, v) \<in> set m \<longleftrightarrow> map_find m k = Some v"
  using assms
proof (induction m k rule: map_find.induct)
  case (1 k)
  then show ?case by simp
next
  case (2 k' v' m k)
  then have "\<And>w. (k', w) \<notin> set m" by force
  with 2 show ?case by auto
qed

lemma set_keys_assign: "fst ` set (map_assign k v m) = insert k (fst ` set m)"
  by (induction k v m rule: map_assign.induct) auto

lemma sorted_map_assign:
  "sorted_wrt (<) (map fst m) \<Longrightarrow> sorted_wrt (<) (map fst (map_assign k v m))"
proof (induction k v m rule: map_assign.induct)
  case (1 k v)
  then show ?case by simp
next
  case (2 k v k' v' m)
  have "\<forall>x \<in> fst ` set (map_assign k v m). k' < x" if "k' < k"
    using that "2.prems" by (auto simp: set_keys_assign simp del: image_iff)
  with 2 show ?case by (auto dest: less_trans)
qed

lemma map_find_assign: "map_find (map_assign k v m) = (map_find m)(k \<mapsto> v)"
  by (induction k v m rule: map_assign.induct) (auto simp: fun_eq_iff)

lemma set_map_erase: "set (map_erase k m) \<subseteq> set m"
  by (induction k m rule: map_erase.induct) auto

lemma sorted_map_erase:
  fixes m :: "('k :: linorder, 'v) std_map"
  shows "sorted_wrt (<) (map fst m) \<Longrightarrow> sorted_wrt (<) (map fst (map_erase k m))"
  by (induction k m rule: map_erase.induct) (use set_map_erase in fastforce)+

lemma map_find_erase:
  fixes m :: "('k :: linorder, 'v) std_map"
  shows "sorted_wrt (<) (map fst m) \<Longrightarrow> map_find (map_erase k m) = (map_find m)(k := None)"
proof (induction k m rule: map_erase.induct)
  case (1 k)
  then show ?case by auto
next
  case (2 k k' v m)
  then have "k' \<notin> fst ` set m" by force
  then have "map_find m k' = None" by (rule map_find_notin)
  with 2 show ?case by (auto simp: fun_eq_iff)
qed

interpretation std: ordered_map "[]" map_find map_assign map_erase "\<lambda>m. m" map_ok
  by unfold_locales
    (auto simp: map_ok_def sorted_map_assign sorted_map_erase map_find_assign map_find_erase
      map_find_set)

text \<open>
  Erasing a list of keys one after the other filters the entries. The scheduler collects the
  keys first and erases them afterwards; the filter is what a single pass would compute.
\<close>

lemma map_erase_filter:
  "map_ok m \<Longrightarrow> map_erase k m = filter (\<lambda>e. fst e \<noteq> k) m"
proof (induction k m rule: map_erase.induct)
  case (1 k)
  then show ?case by simp
next
  case (2 k k' v m)
  then have "\<forall>e \<in> set m. k' < fst e" by (auto simp: map_ok_def)
  then have "filter (\<lambda>e. fst e \<noteq> k') m = m"
    by (intro filter_True) auto
  with 2 show ?case by (auto simp: map_ok_def)
qed

lemma map_ok_filter: "map_ok m \<Longrightarrow> map_ok (filter P m)"
  by (induction m) (auto simp: map_ok_def)

lemma fold_map_erase_filter:
  "map_ok m \<Longrightarrow> fold map_erase ks m = filter (\<lambda>e. fst e \<notin> set ks) m"
  by (induction ks arbitrary: m)
    (auto simp: map_erase_filter map_ok_filter filter_filter intro!: filter_cong)

lemma map_find_filter:
  "map_ok m \<Longrightarrow> map_find (filter P m) k =
     (case map_find m k of None \<Rightarrow> None | Some v \<Rightarrow> if P (k, v) then Some v else None)"
proof (induction m)
  case Nil
  then show ?case by simp
next
  case (Cons e m)
  obtain k' v' where e: "e = (k', v')" by force
  have ok: "map_ok m" and notin: "k' \<notin> fst ` set m"
    using Cons.prems by (force simp: map_ok_def e)+
  from notin have "map_find m k' = None" by (rule map_find_notin)
  with Cons.IH [OF ok] show ?case by (auto simp: e)
qed

lemma map_ok_Nil [simp]: "map_ok []"
  by (rule std.ok_empty)

lemmas std_map_laws = std.ok_assign std.ok_erase std.find_assign std.find_erase

end
