(* ===== verification/Scheduler.thy ===== *)
theory Scheduler
  imports Thread StdMap
begin

text \<open>
  \<open>Scheduler.h\<close> and \<open>Scheduler.cpp\<close>: the state of the scheduler and every member function, one
  definition each, in the order of the source file. Thread objects live in a heap (a map from object numbers to objects), because the
  scheduler keeps pointers to them: \<open>new\<close> makes an object, \<open>delete\<close> removes it, and an access to
  an object that is not there is a fault.

  \<open>sigsetjmp\<close> returns twice. A function that calls it (through
  \<open>save_current_execution_context\<close>) is therefore split at the call: \<open>f\<close> runs up to the call and
  goes on with \<open>f_after 0\<close>; a later \<open>siglongjmp\<close> to the saved buffer goes on with \<open>f_after 1\<close>
  (theory \<open>Machine\<close>).
\<close>

type_synonym tid = nat

record Scheduler =
  timer :: itimerval
  sig_set :: sigset
  total_quantums :: int
  sched_quantum_usecs :: int
  callback :: sig_handler
  running_thread_tid :: tid
  threads :: "(tid, nat) std_map"
  ready_threads :: "tid list"
  blocked_threads :: "tid set"
  sleeping_threads :: "(tid, nat) std_map"

record process = os_state +
  heap :: "nat \<Rightarrow> Thread option"
  next_obj :: nat
  scheduler :: "Scheduler option"

type_synonym 'a sop = "('a, sigjmp_buf, process) oper"

subsection \<open>Access to the scheduler object and to thread objects\<close>

text \<open>The member functions are called on the global pointer, null before \<open>uthread_init\<close>.\<close>

definition this :: "Scheduler sop" where
  "this s = (case scheduler s of None \<Rightarrow> Fault Null_deref | Some sc \<Rightarrow> Ret sc s)"

definition set_this :: "(Scheduler \<Rightarrow> Scheduler) \<Rightarrow> unit sop" where
  "set_this f = bind_op this (\<lambda>sc. modify (\<lambda>s. s\<lparr>scheduler := Some (f sc)\<rparr>))"

definition load :: "nat \<Rightarrow> Thread sop" where
  "load l s = (case heap s l of None \<Rightarrow> Fault Use_after_free | Some th \<Rightarrow> Ret th s)"

definition update_obj :: "nat \<Rightarrow> (Thread \<Rightarrow> Thread) \<Rightarrow> unit sop" where
  "update_obj l f = bind_op (load l) (\<lambda>th. modify (\<lambda>s. s\<lparr>heap := (heap s)(l \<mapsto> f th)\<rparr>))"

definition new_Thread :: "platform \<Rightarrow> State \<Rightarrow> nat \<Rightarrow> bool \<Rightarrow> addr \<Rightarrow> nat sop" where
  "new_Thread K st quantum allocate_stack entry_point s =
     Ret (next_obj s)
       (s\<lparr>heap := (heap s)(next_obj s \<mapsto>
            Thread_ctor K (next_obj s) (sig_mask s) st quantum allocate_stack entry_point),
          next_obj := Suc (next_obj s)\<rparr>)"

text \<open>\<open>delete thread\<close>: the destructor frees the stack, then the object goes.\<close>

definition delete_Thread :: "nat \<Rightarrow> unit sop" where
  "delete_Thread l s =
     (case heap s l of None \<Rightarrow> Fault Double_free | Some _ \<Rightarrow> Ret () (s\<lparr>heap := (heap s)(l := None)\<rparr>))"

text \<open>\<open>*this->threads[i]\<close>: a key that is missing would be entered with a null pointer.\<close>

definition get_thread :: "tid \<Rightarrow> nat sop" where
  "get_thread i =
     bind_op this (\<lambda>sc.
     case map_find (threads sc) i of None \<Rightarrow> fault Null_deref | Some l \<Rightarrow> ret l)"

definition check_thread :: "tid \<Rightarrow> bool sop" where
  "check_thread i = bind_op this (\<lambda>sc. ret (map_find (threads sc) i \<noteq> None))"

subsection \<open>Signals and timer\<close>

definition block_signals :: "platform \<Rightarrow> int sop" where
  "block_signals K =
     bind_op this (\<lambda>sc.
     bind_op (sigprocmask K SIG_BLOCK (sig_set sc)) (\<lambda>r.
     seq_op (if r = FAILURE_ERROR then handleErrorSystemCall ''Signal Block failed'' else ret ())
            (ret 0)))"

definition unblock_signals :: "platform \<Rightarrow> int sop" where
  "unblock_signals K =
     bind_op this (\<lambda>sc.
     bind_op (sigprocmask K SIG_UNBLOCK (sig_set sc)) (\<lambda>r.
     seq_op (if r = FAILURE_ERROR then handleErrorSystemCall ''Signal Unblock failed'' else ret ())
            (ret 0)))"

definition reset_time :: "platform \<Rightarrow> unit sop" where
  "reset_time K =
     bind_op this (\<lambda>sc.
     bind_op (setitimer K (timer sc)) (\<lambda>r.
     if r = FAILURE_ERROR then handleErrorSystemCall ''TIMER ERROR'' else ret ()))"

subsection \<open>Saving the running context\<close>

definition save_after :: "platform \<Rightarrow> int \<Rightarrow> int sop" where
  "save_after K r =
     (if r = 1 then seq_op (unblock_signals K) (ret 1) else ret 0)"

definition save_current_execution_context :: "platform \<Rightarrow> call_site \<Rightarrow> int sop" where
  "save_current_execution_context K site =
     bind_op this (\<lambda>sc.
     bind_op (get_thread (running_thread_tid sc)) (\<lambda>l.
     bind_op (gets sig_mask) (\<lambda>M.
     seq_op (update_obj l (\<lambda>th. th\<lparr>env := sigsetjmp site M\<rparr>))
            (save_after K 0))))"

subsection \<open>The queues\<close>

definition ready_thread :: "tid \<Rightarrow> unit sop" where
  "ready_thread tid =
     bind_op (get_thread tid) (\<lambda>l.
     seq_op (update_obj l (\<lambda>th. th\<lparr>state := READY\<rparr>)) (
     bind_op this (\<lambda>sc.
     if map_find (sleeping_threads sc) tid = None
     then set_this (\<lambda>sc. sc\<lparr>ready_threads := ready_threads sc @ [tid]\<rparr>)
     else ret ())))"

text \<open>
  The loop of \<open>_handle_sleep_threads\<close> over the sleeping threads. \<open>(int) num_quantums - 1\<close> is
  an \<open>int\<close> computation. \<open>awake\<close> is the local deque of the keys to erase.
\<close>

fun collect_awake :: "(tid \<times> nat) list \<Rightarrow> tid list \<Rightarrow> tid list sop" where
  "collect_awake [] awake = ret awake"
| "collect_awake ((tid, num_quantums) # sleepers) awake =
     bind_op (get_thread tid) (\<lambda>l.
     bind_op (int_check (int_of_size_t num_quantums - 1)) (\<lambda>d.
     bind_op this (\<lambda>sc.
     if d \<le> total_quantums sc
     then bind_op (load l) (\<lambda>th.
          seq_op (if state th = READY
                  then set_this (\<lambda>sc. sc\<lparr>ready_threads := ready_threads sc @ [tid]\<rparr>)
                  else ret ())
                 (collect_awake sleepers (awake @ [tid])))
     else collect_awake sleepers awake)))"

definition handle_sleep_threads :: "unit sop" where
  "handle_sleep_threads =
     bind_op this (\<lambda>sc.
     bind_op (collect_awake (sleeping_threads sc) []) (\<lambda>awake.
     for_each awake (\<lambda>tid.
       set_this (\<lambda>sc. sc\<lparr>sleeping_threads := map_erase tid (sleeping_threads sc)\<rparr>))))"

subsection \<open>Dispatching\<close>

definition run_next_thread :: "unit sop" where
  "run_next_thread =
     bind_op this (\<lambda>sc.
     bind_op (int_check (total_quantums sc + 1)) (\<lambda>t.
     seq_op (set_this (\<lambda>sc. sc\<lparr>total_quantums := t\<rparr>)) (
     case ready_threads sc of
       [] \<Rightarrow> fault Empty_front
     | next # rest \<Rightarrow>
       seq_op (set_this (\<lambda>sc. sc\<lparr>running_thread_tid := next\<rparr>)) (
       seq_op (set_this (\<lambda>sc. sc\<lparr>ready_threads := rest\<rparr>)) (
       bind_op (get_thread next) (\<lambda>l.
       seq_op (update_obj l (\<lambda>th. th\<lparr>state := RUNNNING\<rparr>)) (
       seq_op (update_obj l (\<lambda>th. th\<lparr>quantum_t := size_add (quantum_t th) 1\<rparr>)) (
       bind_op (load l) (\<lambda>th. siglongjmp (env th))))))))))"

definition change_thread_after :: "platform \<Rightarrow> int \<Rightarrow> unit sop" where
  "change_thread_after K r =
     (if r = 1 then ret ()
      else seq_op handle_sleep_threads (
           bind_op this (\<lambda>sc.
           seq_op (ready_thread (running_thread_tid sc)) (
           seq_op run_next_thread (
           seq_op (unblock_signals K) (ret ()))))))"

definition change_thread :: "platform \<Rightarrow> signal \<Rightarrow> unit sop" where
  "change_thread K signal =
     seq_op (block_signals K) (
     bind_op this (\<lambda>sc.
     bind_op (setitimer K (timer sc)) (\<lambda>r.
     seq_op (if r = FAILURE_ERROR then handleErrorSystemCall ''TIMER ERROR'' else ret ()) (
     bind_op (save_current_execution_context K In_change_thread) (change_thread_after K)))))"

subsection \<open>Construction\<close>

definition Scheduler_ctor :: "int \<Rightarrow> sig_handler \<Rightarrow> Scheduler" where
  "Scheduler_ctor usecs handler =
     \<lparr>timer = zero_timer, sig_set = {}, total_quantums = 0, sched_quantum_usecs = usecs,
      callback = handler, running_thread_tid = 0, threads = [], ready_threads = [],
      blocked_threads = {}, sleeping_threads = []\<rparr>"

definition set_thread :: "tid \<Rightarrow> nat \<Rightarrow> int sop" where
  "set_thread i l =
     bind_op this (\<lambda>sc.
     if int (length (threads sc)) > MAX_THREAD_NUM
     then handleErrorLibrary ''Maximum number of threads delimited''
     else seq_op (set_this (\<lambda>sc. sc\<lparr>threads := map_assign i l (threads sc)\<rparr>)) (ret 0))"

text \<open>The interval: whole seconds and remaining microseconds, by C division.\<close>

definition quantum_timer :: "int \<Rightarrow> itimerval" where
  "quantum_timer usecs =
     \<lparr>it_interval = \<lparr>tv_sec = usecs sdiv SECOND, tv_usec = usecs smod SECOND\<rparr>,
      it_value = \<lparr>tv_sec = usecs sdiv SECOND, tv_usec = usecs smod SECOND\<rparr>\<rparr>"

text \<open>
  The timer interval is the quantum: for a number of microseconds that is not negative, the
  seconds and microseconds given to \<open>setitimer\<close> add up to it, the microseconds are in the range
  \<open>setitimer\<close> accepts, first expiry and interval agree, and the value that disarms the timer comes
  out exactly for 0.
\<close>

lemma quantum_timer_exact:
  assumes "0 \<le> usecs"
  shows "it_interval (quantum_timer usecs) = it_value (quantum_timer usecs) \<and>
    tv_sec (it_value (quantum_timer usecs)) * 1000000 + tv_usec (it_value (quantum_timer usecs)) = usecs \<and>
    0 \<le> tv_sec (it_value (quantum_timer usecs)) \<and>
    0 \<le> tv_usec (it_value (quantum_timer usecs)) \<and> tv_usec (it_value (quantum_timer usecs)) < 1000000 \<and>
    (quantum_timer usecs = zero_timer) = (usecs = 0)"
proof -
  have d: "usecs sdiv 1000000 = usecs div 1000000" "usecs smod 1000000 = usecs mod 1000000"
    using assms by (simp_all add: signed_divide_int_def signed_modulo_int_def sgn_if)
  show ?thesis
    using assms by (auto simp: quantum_timer_def SECOND_def d zero_timer_def)
qed

lemma quantum_timer_exact_witness:
  "tv_sec (it_value (quantum_timer 2500000)) * 1000000 + tv_usec (it_value (quantum_timer 2500000)) = 2500000 \<and>
   tv_usec (it_value (quantum_timer 2500000)) < 1000000"
  using quantum_timer_exact [of 2500000] by simp

definition init_scheduler :: "platform \<Rightarrow> int sop" where
  "init_scheduler K =
     bind_op this (\<lambda>sc.
     bind_op (sigaction K SIGVTALRM (callback sc)) (\<lambda>r.
     if r = FAILURE_ERROR
     then seq_op (stderr_put (''Sigaction error.'' @ [CHR 0x0A])) (ret (- 1))
     else
       bind_op (new_Thread K RUNNNING 1 False 0) (\<lambda>l.
       bind_op (set_thread 0 l) (\<lambda>r.
       if r = FAILURE_ERROR then ret FAILURE_ERROR
       else
         seq_op (set_this (\<lambda>sc. sc\<lparr>sig_set := {}\<rparr>)) (
         seq_op (set_this (\<lambda>sc. sc\<lparr>sig_set := insert SIGVTALRM (sig_set sc)\<rparr>)) (
         bind_op this (\<lambda>sc.
         bind_op (int_check (total_quantums sc + 1)) (\<lambda>t.
         seq_op (set_this (\<lambda>sc. sc\<lparr>total_quantums := t\<rparr>)) (
         seq_op (set_this (\<lambda>sc. sc\<lparr>timer := quantum_timer (sched_quantum_usecs sc)\<rparr>)) (
         seq_op (reset_time K) (ret 0)))))))))))"

subsection \<open>Thread creation and removal\<close>

text \<open>
  The loop of \<open>add_new_thread\<close> from \<open>tid = i\<close> upwards, over the tids below \<open>MAX_THREAD_NUM\<close>;
  the first argument is the number of tids left to try.
\<close>

fun add_new_thread_from ::
    "nat \<Rightarrow> platform \<Rightarrow> State \<Rightarrow> nat \<Rightarrow> bool \<Rightarrow> addr \<Rightarrow> int \<Rightarrow> int sop" where
  "add_new_thread_from 0 K st quantum allocate_stack entry_point tid s = ret (- 1) s"
| "add_new_thread_from (Suc n) K st quantum allocate_stack entry_point tid s =
     bind_op (check_thread (size_t_of_int tid)) (\<lambda>found.
     if \<not> found
     then
       bind_op (new_Thread K st quantum allocate_stack entry_point) (\<lambda>l.
       seq_op (set_thread (size_t_of_int tid) l) (
       seq_op (if st = READY
               then set_this (\<lambda>sc. sc\<lparr>ready_threads := ready_threads sc @ [size_t_of_int tid]\<rparr>)
               else ret ())
              (ret tid)))
     else add_new_thread_from n K st quantum allocate_stack entry_point (tid + 1)) s"

definition add_new_thread :: "platform \<Rightarrow> State \<Rightarrow> nat \<Rightarrow> bool \<Rightarrow> addr \<Rightarrow> int sop" where
  "add_new_thread K st quantum allocate_stack entry_point =
     add_new_thread_from (nat MAX_THREAD_NUM) K st quantum allocate_stack entry_point 0"

text \<open>
  The loop of \<open>remove_thread_from_ready\<close>: the index goes up even when an element was erased,
  and the size is read again in every round.
\<close>

function remove_from_deque :: "tid \<Rightarrow> nat \<Rightarrow> tid list \<Rightarrow> tid list" where
  "remove_from_deque tid i q =
     (if i < length q
      then remove_from_deque tid (Suc i) (if q ! i = tid then take i q @ drop (Suc i) q else q)
      else q)"
  by pat_completeness auto
termination
  by (relation "measure (\<lambda>(tid, i, q). length q - i)") auto

declare remove_from_deque.simps [simp del]

definition remove_thread_from_ready :: "tid \<Rightarrow> unit sop" where
  "remove_thread_from_ready tid =
     set_this (\<lambda>sc. sc\<lparr>ready_threads := remove_from_deque tid 0 (ready_threads sc)\<rparr>)"

definition remove_thread :: "platform \<Rightarrow> tid \<Rightarrow> int sop" where
  "remove_thread K tid =
     bind_op (check_thread tid) (\<lambda>found.
     if \<not> found then handleErrorLibrary ''No thread with Id to remove''
     else
       bind_op (get_thread tid) (\<lambda>l.
       seq_op (set_this (\<lambda>sc. sc\<lparr>threads := map_erase tid (threads sc)\<rparr>)) (
       bind_op (load l) (\<lambda>th.
       seq_op (case state th of
                 READY \<Rightarrow> remove_thread_from_ready tid
               | RUNNNING \<Rightarrow>
                   seq_op (reset_time K) (seq_op handle_sleep_threads run_next_thread)
               | BLOCKED \<Rightarrow>
                   set_this (\<lambda>sc. sc\<lparr>blocked_threads := blocked_threads sc - {tid}\<rparr>)) (
       bind_op this (\<lambda>sc.
       seq_op (if map_find (sleeping_threads sc) tid \<noteq> None
               then set_this (\<lambda>sc. sc\<lparr>sleeping_threads := map_erase tid (sleeping_threads sc)\<rparr>)
               else ret ())
              (ret 0)))))))"

subsection \<open>Blocking, resuming, sleeping\<close>

definition block_thread_after :: "platform \<Rightarrow> int \<Rightarrow> unit sop" where
  "block_thread_after K r =
     (if r = 1 then ret ()
      else seq_op (reset_time K) (seq_op handle_sleep_threads run_next_thread))"

definition block_thread :: "platform \<Rightarrow> tid \<Rightarrow> unit sop" where
  "block_thread K tid =
     bind_op (get_thread tid) (\<lambda>l.
     bind_op (load l) (\<lambda>th.
     case state th of
       READY \<Rightarrow>
         seq_op (set_this (\<lambda>sc. sc\<lparr>blocked_threads := insert tid (blocked_threads sc)\<rparr>)) (
         seq_op (update_obj l (\<lambda>th. th\<lparr>state := BLOCKED\<rparr>))
                (remove_thread_from_ready tid))
     | RUNNNING \<Rightarrow>
         seq_op (set_this (\<lambda>sc. sc\<lparr>blocked_threads := insert tid (blocked_threads sc)\<rparr>)) (
         seq_op (update_obj l (\<lambda>th. th\<lparr>state := BLOCKED\<rparr>)) (
         bind_op (save_current_execution_context K In_block_thread) (block_thread_after K)))
     | BLOCKED \<Rightarrow> ret ()))"

definition unblock_thread :: "tid \<Rightarrow> unit sop" where
  "unblock_thread tid =
     bind_op (get_thread tid) (\<lambda>l.
     bind_op (load l) (\<lambda>th.
     case state th of
       BLOCKED \<Rightarrow>
         seq_op (ready_thread tid)
                (set_this (\<lambda>sc. sc\<lparr>blocked_threads := blocked_threads sc - {tid}\<rparr>))
     | _ \<Rightarrow> ret ()))"

definition get_total_quantums :: "int sop" where
  "get_total_quantums = bind_op this (\<lambda>sc. ret (total_quantums sc))"

definition get_running_thread_tid :: "int sop" where
  "get_running_thread_tid = bind_op this (\<lambda>sc. ret (int_of_size_t (running_thread_tid sc)))"

definition sleep_after :: "platform \<Rightarrow> tid \<Rightarrow> int \<Rightarrow> unit sop" where
  "sleep_after K tid r =
     (if r = 1 then ret ()
      else bind_op (get_thread tid) (\<lambda>l.
           seq_op (update_obj l (\<lambda>th. th\<lparr>state := READY\<rparr>)) (
           seq_op (reset_time K) (
           seq_op handle_sleep_threads run_next_thread))))"

definition sleep_running_thread :: "platform \<Rightarrow> nat \<Rightarrow> unit sop" where
  "sleep_running_thread K num_quantums =
     bind_op get_running_thread_tid (\<lambda>r.
     let tid = size_t_of_int r in
     bind_op this (\<lambda>sc.
     seq_op (set_this (\<lambda>sc. sc\<lparr>sleeping_threads :=
               map_assign tid
                 (size_add (size_add (size_t_of_int (total_quantums sc)) num_quantums) 1)
                 (sleeping_threads sc)\<rparr>)) (
     bind_op (save_current_execution_context K In_sleep_running_thread) (sleep_after K tid))))"

definition remove_all :: "unit sop" where
  "remove_all =
     bind_op this (\<lambda>sc.
     seq_op (for_each (threads sc) (\<lambda>(i, l). delete_Thread l))
            (set_this (\<lambda>sc. sc\<lparr>threads := []\<rparr>)))"

end
