(* ===== verification/Uthreads.thy ===== *)
theory Uthreads
  imports Scheduler
begin

text \<open>
  \<open>uthreads.cpp\<close>: the API functions, in the order of the file. A parameter of type \<open>int\<close> that
  is handed to a scheduler function taking \<open>size_t\<close> is converted (\<open>size_t_of_int\<close>). Where a
  function calls a member function that may leave through \<open>siglongjmp\<close>, the rest of its body is
  a definition of its own, because the return through \<open>sigsetjmp\<close> enters it again.
\<close>

definition callback_handler :: "platform \<Rightarrow> signal \<Rightarrow> unit sop" where
  "callback_handler K signal = change_thread K signal"

definition uthread_init :: "platform \<Rightarrow> int \<Rightarrow> int sop" where
  "uthread_init K quantum_usecs =
     (if quantum_usecs < 0 then handleErrorLibrary ''non-positive quantum_usecs''
      else seq_op (modify (\<lambda>s. s\<lparr>scheduler := Some (Scheduler_ctor quantum_usecs Callback_handler)\<rparr>))
                  (init_scheduler K))"

definition uthread_spawn :: "platform \<Rightarrow> addr \<Rightarrow> int sop" where
  "uthread_spawn K entry_point =
     seq_op (block_signals K) (
     if entry_point = 0 then handleErrorLibrary ''Null entry_point''
     else
       bind_op (add_new_thread K READY 0 True entry_point) (\<lambda>tid.
       seq_op (if tid = FAILURE_ERROR
               then handleErrorLibrary ''Maximum number of threads delimited''
               else ret 0) (
       seq_op (unblock_signals K) (ret tid))))"

definition uthread_terminate :: "platform \<Rightarrow> int \<Rightarrow> int sop" where
  "uthread_terminate K tid =
     seq_op (block_signals K) (
     seq_op (if tid = 0 then seq_op remove_all handleForcedExit else ret ()) (
     bind_op (remove_thread K (size_t_of_int tid)) (\<lambda>r.
     if r = FAILURE_ERROR then seq_op (unblock_signals K) (ret FAILURE_ERROR)
     else seq_op (unblock_signals K) (ret 0))))"

definition uthread_block_after :: "platform \<Rightarrow> int sop" where
  "uthread_block_after K = seq_op (unblock_signals K) (ret 0)"

definition uthread_block :: "platform \<Rightarrow> int \<Rightarrow> int sop" where
  "uthread_block K tid =
     seq_op (block_signals K) (
     bind_op (check_thread (size_t_of_int tid)) (\<lambda>found.
     if \<not> found \<or> tid = 0
     then seq_op (unblock_signals K) (handleErrorLibrary ''The id is invalid'')
     else seq_op (block_thread K (size_t_of_int tid)) (uthread_block_after K)))"

definition uthread_resume :: "platform \<Rightarrow> int \<Rightarrow> int sop" where
  "uthread_resume K tid =
     seq_op (block_signals K) (
     bind_op (check_thread (size_t_of_int tid)) (\<lambda>found.
     if \<not> found
     then seq_op (unblock_signals K) (handleErrorLibrary ''The id is invalid'')
     else seq_op (unblock_thread (size_t_of_int tid)) (
          seq_op (unblock_signals K) (ret 0))))"

definition uthread_get_tid :: "int sop" where
  "uthread_get_tid = get_running_thread_tid"

definition uthread_sleep_after :: "platform \<Rightarrow> int sop" where
  "uthread_sleep_after K = seq_op (unblock_signals K) (ret 0)"

definition uthread_sleep :: "platform \<Rightarrow> int \<Rightarrow> int sop" where
  "uthread_sleep K num_quantums =
     seq_op (block_signals K) (
     if num_quantums \<le> 0 then handleErrorLibrary ''non-positive quantum error''
     else
       bind_op uthread_get_tid (\<lambda>tid.
       if tid = 0
       then seq_op (unblock_signals K)
              (handleErrorLibrary ''The main thread can't go on sleep state'')
       else seq_op (sleep_running_thread K (size_t_of_int num_quantums)) (uthread_sleep_after K)))"

definition uthread_get_total_quantums :: "platform \<Rightarrow> int sop" where
  "uthread_get_total_quantums K =
     seq_op (block_signals K) (
     bind_op get_total_quantums (\<lambda>total.
     seq_op (unblock_signals K) (ret total)))"

definition uthread_get_quantums :: "platform \<Rightarrow> int \<Rightarrow> int sop" where
  "uthread_get_quantums K tid =
     seq_op (block_signals K) (
     bind_op (check_thread (size_t_of_int tid)) (\<lambda>found.
     if \<not> found
     then seq_op (unblock_signals K) (handleErrorLibrary ''no thread with ID tid exists'')
     else
       bind_op (get_thread (size_t_of_int tid)) (\<lambda>l.
       bind_op (load l) (\<lambda>th.
       let quantum_thread = int_of_size_t (quantum_t th) in
       seq_op (unblock_signals K) (ret quantum_thread)))))"

subsection \<open>Running a thread program against the library\<close>

text \<open>
  What the running thread can do: call an API function with any arguments, or be interrupted by
  the virtual timer.
\<close>

datatype api =
    Spawn addr
  | Terminate int
  | Block int
  | Resume int
  | Sleep int
  | Get_tid
  | Get_total_quantums
  | Get_quantums int

datatype action = Call api | Tick

text \<open>
  What happens next in the thread that runs after the action: its API call returned a value, it
  goes on where the timer interrupted it, or it starts at its entry point.
\<close>

datatype answer = Returned int | Continued | Started addr

fun run_api :: "platform \<Rightarrow> api \<Rightarrow> int sop" where
  "run_api K (Spawn ep) = uthread_spawn K ep"
| "run_api K (Terminate tid) = uthread_terminate K tid"
| "run_api K (Block tid) = uthread_block K tid"
| "run_api K (Resume tid) = uthread_resume K tid"
| "run_api K (Sleep n) = uthread_sleep K n"
| "run_api K Get_tid = uthread_get_tid"
| "run_api K Get_total_quantums = uthread_get_total_quantums K"
| "run_api K (Get_quantums tid) = uthread_get_quantums K tid"

text \<open>
  Delivery of \<open>SIGVTALRM\<close>: while the signal is blocked it stays pending and nothing happens;
  otherwise the default action would end the process (there is no exit code, \<open>-1\<close> stands for
  it), and an installed handler runs with the signal added to the mask, which is restored when
  the handler returns.
\<close>

definition deliver_timer :: "platform \<Rightarrow> unit sop" where
  "deliver_timer K =
     bind_op (gets sig_mask) (\<lambda>M.
     if SIGVTALRM \<in> M then ret ()
     else
       bind_op (gets disposition) (\<lambda>h.
       case h of
         SIG_DFL \<Rightarrow> exit_with (- 1)
       | Callback_handler \<Rightarrow>
           seq_op (modify (\<lambda>s. s\<lparr>sig_mask := insert SIGVTALRM M\<rparr>)) (
           seq_op (callback_handler K SIGVTALRM)
                  (modify (\<lambda>s. s\<lparr>sig_mask := M\<rparr>)))))"

text \<open>
  Where a \<open>siglongjmp\<close> goes. The \<open>JB_PC\<close> slot tells: an address the constructor stored is
  decoded and called; a slot saved by \<open>sigsetjmp\<close> makes that \<open>sigsetjmp\<close> return 1, and the
  functions on the saved stack return one after the other, up to the API function or, for the
  timer, the return from the signal handler, which restores the mask of the interrupted code.
\<close>

definition resume_context :: "platform \<Rightarrow> sigjmp_buf \<Rightarrow> answer sop" where
  "resume_context K e =
     (case jmpbuf e ! JB_PC of
        Stored w \<Rightarrow>
          (let pc = demangle K w in if pc = 0 then fault Null_call else ret (Started pc))
      | Saved site \<Rightarrow>
          (case site of
             In_Thread_ctor \<Rightarrow> fault Stale_context
           | In_change_thread \<Rightarrow>
               bind_op (save_after K 1) (\<lambda>r.
               seq_op (change_thread_after K r) (
               seq_op (modify (\<lambda>s. s\<lparr>sig_mask := saved_mask e - {SIGVTALRM}\<rparr>)) (ret Continued)))
           | In_block_thread \<Rightarrow>
               bind_op (save_after K 1) (\<lambda>r.
               seq_op (block_thread_after K r) (
               bind_op (uthread_block_after K) (\<lambda>v. ret (Returned v))))
           | In_sleep_running_thread \<Rightarrow>
               bind_op (save_after K 1) (\<lambda>r.
               seq_op (sleep_after K 0 r) (
               bind_op (uthread_sleep_after K) (\<lambda>v. ret (Returned v))))))"

text \<open>One action of the running thread, with the context switch it leads to.\<close>

definition run_action :: "platform \<Rightarrow> action \<Rightarrow> answer sop" where
  "run_action K act =
     (case act of
        Call f \<Rightarrow> bind_op (run_api K f) (\<lambda>v. ret (Returned v))
      | Tick \<Rightarrow> seq_op (deliver_timer K) (ret Continued))"

definition exec :: "platform \<Rightarrow> action \<Rightarrow> answer sop" where
  "exec K act s =
     (case run_action K act s of
        Jump e s' \<Rightarrow> resume_context K e s'
      | r \<Rightarrow> r)"

fun exec_list :: "platform \<Rightarrow> action list \<Rightarrow> (answer list) sop" where
  "exec_list K [] = ret []"
| "exec_list K (a # as) =
     bind_op (exec K a) (\<lambda>v. bind_op (exec_list K as) (\<lambda>vs. ret (v # vs)))"

text \<open>
  The process before \<open>uthread_init\<close>, and the same after something was printed on standard error
  (by earlier calls of \<open>uthread_init\<close> that were rejected).
\<close>

definition boot :: process where
  "boot = \<lparr>sig_mask = {}, disposition = SIG_DFL, itimer = zero_timer, events = [],
     heap = (\<lambda>_. None), next_obj = 0, scheduler = None\<rparr>"

definition printed :: "string list \<Rightarrow> process" where
  "printed msgs = boot\<lparr>events := map Stderr msgs\<rparr>"

lemma printed_Nil [simp]: "printed [] = boot"
  by (simp add: printed_def boot_def)

end
