(* ===== verification/Contract.thy ===== *)
theory Contract
  imports Uthreads
begin

text \<open>
  The contract of the library, as \<open>uthreads.h\<close> documents it, on a state without pointers,
  system calls or saved registers: which threads exist and in which state, the queue of READY
  threads, who sleeps until when, who runs, how many quantums have started. Every API function and
  the timer are functions on this state. Theory \<open>Refinement\<close> shows that the C++ code implements
  them; here is what they do and the invariant they keep.

  Two traits of the code are visible in the contract because callers can observe them. A sleeping
  thread is kept READY beside the queue (the header says BLOCKED). And \<open>a_masked\<close> tells whether
  the timer signal is blocked while user code runs, which the error paths of two functions leave on.
\<close>

text \<open>Where a thread that is not running goes on when it is dispatched.\<close>

datatype point =
    Entry addr    \<comment> \<open>not started: it will be called at this address\<close>
  | Preempted     \<comment> \<open>interrupted by the timer\<close>
  | In_call       \<comment> \<open>inside \<open>uthread_block\<close> or \<open>uthread_sleep\<close>, which will return 0\<close>
  | Nowhere       \<comment> \<open>no context to go on with\<close>

record athread =
  a_state :: State
  a_quantums :: nat
  a_point :: point

record lib =
  a_threads :: "tid \<Rightarrow> athread option"
  a_ready :: "tid list"
  a_blocked :: "tid set"
  a_sleeping :: "(tid, nat) std_map"
  a_running :: tid
  a_total :: int
  a_masked :: bool

definition a_status :: "lib \<Rightarrow> tid \<Rightarrow> State option" where
  "a_status a t = map_option a_state (a_threads a t)"

definition a_update :: "tid \<Rightarrow> (athread \<Rightarrow> athread) \<Rightarrow> lib \<Rightarrow> lib" where
  "a_update t f a = a\<lparr>a_threads := (a_threads a)(t := map_option f (a_threads a t))\<rparr>"

subsection \<open>Scheduling decisions\<close>

text \<open>
  The stored number of a sleeper is one more than the number of quantums that must have started
  for it to wake. \<open>due\<close> is the comparison the code makes, cast to \<open>int\<close> included.
\<close>

definition due :: "nat \<Rightarrow> int \<Rightarrow> bool" where
  "due v tot \<longleftrightarrow> int_of_size_t v - 1 \<le> tot"

definition a_wake :: "lib \<Rightarrow> lib" where
  "a_wake a = a\<lparr>
     a_ready := a_ready a @ map fst (filter
       (\<lambda>e. due (snd e) (a_total a) \<and> a_status a (fst e) = Some READY) (a_sleeping a)),
     a_sleeping := filter (\<lambda>e. \<not> due (snd e) (a_total a)) (a_sleeping a)\<rparr>"

definition a_enqueue :: "tid \<Rightarrow> lib \<Rightarrow> lib" where
  "a_enqueue t a = a_update t (\<lambda>th. th\<lparr>a_state := READY\<rparr>)
     (if map_find (a_sleeping a) t = None then a\<lparr>a_ready := a_ready a @ [t]\<rparr> else a)"

definition a_dispatch :: "lib \<Rightarrow> lib" where
  "a_dispatch a = a_update (hd (a_ready a))
     (\<lambda>th. th\<lparr>a_state := RUNNNING, a_quantums := size_add (a_quantums th) 1\<rparr>)
     (a\<lparr>a_total := a_total a + 1, a_running := hd (a_ready a), a_ready := tl (a_ready a)\<rparr>)"

fun answer_at :: "point \<Rightarrow> answer" where
  "answer_at (Entry pc) = Started pc"
| "answer_at Preempted = Continued"
| "answer_at In_call = Returned 0"
| "answer_at Nowhere = Continued"

definition a_point_of :: "lib \<Rightarrow> tid \<Rightarrow> point" where
  "a_point_of a t = (case a_threads a t of None \<Rightarrow> Nowhere | Some th \<Rightarrow> a_point th)"

text \<open>The dispatched thread goes on with the timer signal unblocked.\<close>

definition a_goes_on :: "lib \<Rightarrow> answer \<times> lib" where
  "a_goes_on a = (answer_at (a_point_of a (a_running a)), a\<lparr>a_masked := False\<rparr>)"

definition a_switch :: "lib \<Rightarrow> answer \<times> lib" where
  "a_switch a = a_goes_on (a_dispatch (a_wake a))"

definition a_leave :: "State \<Rightarrow> point \<Rightarrow> lib \<Rightarrow> lib" where
  "a_leave st p a = a_update (a_running a) (\<lambda>th. th\<lparr>a_state := st, a_point := p\<rparr>) a"

subsection \<open>The timer and the API functions\<close>

definition a_tick :: "lib \<Rightarrow> answer \<times> lib" where
  "a_tick a =
     (if a_masked a then (Continued, a)
      else a_goes_on (a_dispatch (a_enqueue (a_running a)
             (a_wake (a_update (a_running a) (\<lambda>th. th\<lparr>a_point := Preempted\<rparr>) a)))))"

definition a_return :: "int \<Rightarrow> lib \<Rightarrow> answer \<times> lib" where
  "a_return v a = (Returned v, a\<lparr>a_masked := False\<rparr>)"

definition free_tid :: "lib \<Rightarrow> tid option" where
  "free_tid a = List.find (\<lambda>t. a_threads a t = None) [0..<nat MAX_THREAD_NUM]"

definition a_spawn :: "addr \<Rightarrow> lib \<Rightarrow> answer \<times> lib" where
  "a_spawn ep a =
     (if ep = 0 then (Returned (- 1), a\<lparr>a_masked := True\<rparr>)
      else case free_tid a of
        None \<Rightarrow> a_return (- 1) a
      | Some t \<Rightarrow> a_return (int t)
          (a\<lparr>a_threads := (a_threads a)(t \<mapsto> \<lparr>a_state = READY, a_quantums = 0, a_point = Entry ep\<rparr>),
             a_ready := a_ready a @ [t]\<rparr>))"

definition a_forget :: "tid \<Rightarrow> lib \<Rightarrow> lib" where
  "a_forget t a = a\<lparr>
     a_threads := (a_threads a)(t := None),
     a_ready := filter (\<lambda>u. u \<noteq> t) (a_ready a),
     a_blocked := a_blocked a - {t},
     a_sleeping := map_erase t (a_sleeping a)\<rparr>"

definition a_terminate :: "int \<Rightarrow> lib \<Rightarrow> answer \<times> lib" where
  "a_terminate tid a =
     (let t = size_t_of_int tid in
      case a_status a t of
        None \<Rightarrow> a_return (- 1) a
      | Some RUNNNING \<Rightarrow> a_switch (a\<lparr>a_threads := (a_threads a)(t := None)\<rparr>)
      | Some _ \<Rightarrow> a_return 0 (a_forget t a))"

definition a_block :: "int \<Rightarrow> lib \<Rightarrow> answer \<times> lib" where
  "a_block tid a =
     (let t = size_t_of_int tid in
      if tid = 0 then a_return (- 1) a
      else case a_status a t of
        None \<Rightarrow> a_return (- 1) a
      | Some BLOCKED \<Rightarrow> a_return 0 a
      | Some READY \<Rightarrow> a_return 0 (a_update t (\<lambda>th. th\<lparr>a_state := BLOCKED\<rparr>)
          (a\<lparr>a_ready := filter (\<lambda>u. u \<noteq> t) (a_ready a), a_blocked := insert t (a_blocked a)\<rparr>))
      | Some RUNNNING \<Rightarrow> a_switch (a_leave BLOCKED In_call (a\<lparr>a_blocked := insert t (a_blocked a)\<rparr>)))"

definition a_resume :: "int \<Rightarrow> lib \<Rightarrow> answer \<times> lib" where
  "a_resume tid a =
     (let t = size_t_of_int tid in
      case a_status a t of
        None \<Rightarrow> a_return (- 1) a
      | Some BLOCKED \<Rightarrow> a_return 0 ((a_enqueue t a)\<lparr>a_blocked := a_blocked a - {t}\<rparr>)
      | Some _ \<Rightarrow> a_return 0 a)"

definition wake_value :: "int \<Rightarrow> int \<Rightarrow> nat" where
  "wake_value tot n = size_add (size_add (size_t_of_int tot) (size_t_of_int n)) 1"

definition a_to_sleep :: "int \<Rightarrow> lib \<Rightarrow> lib" where
  "a_to_sleep n a = a_leave READY In_call
     (a\<lparr>a_sleeping := map_assign (a_running a) (wake_value (a_total a) n) (a_sleeping a)\<rparr>)"

definition a_sleep :: "int \<Rightarrow> lib \<Rightarrow> answer \<times> lib" where
  "a_sleep n a =
     (if n \<le> 0 then (Returned (- 1), a\<lparr>a_masked := True\<rparr>)
      else if a_running a = 0 then a_return (- 1) a
      else a_switch (a_to_sleep n a))"

definition a_get_quantums :: "int \<Rightarrow> lib \<Rightarrow> answer \<times> lib" where
  "a_get_quantums tid a =
     (case a_threads a (size_t_of_int tid) of
        None \<Rightarrow> a_return (- 1) a
      | Some th \<Rightarrow> a_return (int_of_size_t (a_quantums th)) a)"

text \<open>Every action but the termination of the main thread, which ends the process.\<close>

fun a_exec :: "action \<Rightarrow> lib \<Rightarrow> answer \<times> lib" where
  "a_exec Tick a = a_tick a"
| "a_exec (Call (Spawn ep)) a = a_spawn ep a"
| "a_exec (Call (Terminate tid)) a = a_terminate tid a"
| "a_exec (Call (Block tid)) a = a_block tid a"
| "a_exec (Call (Resume tid)) a = a_resume tid a"
| "a_exec (Call (Sleep n)) a = a_sleep n a"
| "a_exec (Call Get_tid) a = (Returned (int (a_running a)), a)"
| "a_exec (Call Get_total_quantums) a = a_return (a_total a) a"
| "a_exec (Call (Get_quantums tid)) a = a_get_quantums tid a"

subsection \<open>The invariant\<close>

definition resumable :: "point \<Rightarrow> bool" where
  "resumable p \<longleftrightarrow> p \<noteq> Nowhere \<and> p \<noteq> Entry 0"

text \<open>
  \<open>a_core r\<close> is the invariant with \<open>r\<close> the thread in state RUNNING, if there is one: between
  the moment the running thread gives up the processor and the dispatch there is none.
\<close>

definition a_core :: "tid option \<Rightarrow> lib \<Rightarrow> bool" where
  "a_core r a \<longleftrightarrow>
     (\<forall>t. a_status a t = Some RUNNNING \<longleftrightarrow> r = Some t) \<and>
     distinct (a_ready a) \<and>
     (\<forall>t. t \<in> set (a_ready a) \<longleftrightarrow> a_status a t = Some READY \<and> map_find (a_sleeping a) t = None) \<and>
     a_blocked a = {t. a_status a t = Some BLOCKED} \<and>
     map_ok (a_sleeping a) \<and>
     (\<forall>t. map_find (a_sleeping a) t \<noteq> None \<longrightarrow>
        t \<noteq> 0 \<and> (a_status a t = Some READY \<or> a_status a t = Some BLOCKED)) \<and>
     (a_status a 0 = Some READY \<or> a_status a 0 = Some RUNNNING) \<and>
     (\<forall>t. a_status a t \<noteq> None \<longrightarrow> int t < MAX_THREAD_NUM) \<and>
     1 \<le> a_total a \<and> a_total a \<le> INT_MAX \<and>
     (\<forall>t th. a_threads a t = Some th \<longrightarrow> a_state th \<noteq> RUNNNING \<longrightarrow> resumable (a_point th))"

lemma a_coreI:
  assumes "\<And>t. a_status a t = Some RUNNNING \<longleftrightarrow> r = Some t"
    and "distinct (a_ready a)"
    and "\<And>t. t \<in> set (a_ready a) \<longleftrightarrow> a_status a t = Some READY \<and> map_find (a_sleeping a) t = None"
    and "a_blocked a = {t. a_status a t = Some BLOCKED}"
    and "map_ok (a_sleeping a)"
    and "\<And>t v. map_find (a_sleeping a) t = Some v \<Longrightarrow>
      t \<noteq> 0 \<and> (a_status a t = Some READY \<or> a_status a t = Some BLOCKED)"
    and "a_status a 0 = Some READY \<or> a_status a 0 = Some RUNNNING"
    and "\<And>t. a_status a t \<noteq> None \<Longrightarrow> int t < MAX_THREAD_NUM"
    and "1 \<le> a_total a" and "a_total a \<le> INT_MAX"
    and "\<And>t th. a_threads a t = Some th \<Longrightarrow> a_state th \<noteq> RUNNNING \<Longrightarrow> resumable (a_point th)"
  shows "a_core r a"
  unfolding a_core_def using assms by blast

lemma a_coreD:
  assumes "a_core r a"
  shows a_core_run: "\<And>t. a_status a t = Some RUNNNING \<longleftrightarrow> r = Some t"
    and a_core_distinct: "distinct (a_ready a)"
    and a_core_ready: "\<And>t. t \<in> set (a_ready a) \<longleftrightarrow>
      a_status a t = Some READY \<and> map_find (a_sleeping a) t = None"
    and a_core_blocked: "a_blocked a = {t. a_status a t = Some BLOCKED}"
    and a_core_map_ok: "map_ok (a_sleeping a)"
    and a_core_sleep: "\<And>t v. map_find (a_sleeping a) t = Some v \<Longrightarrow>
      t \<noteq> 0 \<and> (a_status a t = Some READY \<or> a_status a t = Some BLOCKED)"
    and a_core_main: "a_status a 0 = Some READY \<or> a_status a 0 = Some RUNNNING"
    and a_core_tid: "\<And>t. a_status a t \<noteq> None \<Longrightarrow> int t < MAX_THREAD_NUM"
    and a_core_total: "1 \<le> a_total a" "a_total a \<le> INT_MAX"
    and a_core_resumable: "\<And>t th. a_threads a t = Some th \<Longrightarrow> a_state th \<noteq> RUNNNING \<Longrightarrow>
      resumable (a_point th)"
  using assms unfolding a_core_def by blast+

definition a_inv :: "lib \<Rightarrow> bool" where
  "a_inv a \<longleftrightarrow> a_core (Some (a_running a)) a"

text \<open>The arguments of the API functions are values of type \<open>int\<close>.\<close>

fun well_typed :: "action \<Rightarrow> bool" where
  "well_typed (Call (Terminate tid)) = in_int tid"
| "well_typed (Call (Block tid)) = in_int tid"
| "well_typed (Call (Resume tid)) = in_int tid"
| "well_typed (Call (Sleep n)) = in_int n"
| "well_typed (Call (Get_quantums tid)) = in_int tid"
| "well_typed _ = True"

text \<open>No \<open>int\<close> computation of the next scheduling decision overflows.\<close>

definition arith_ok :: "lib \<Rightarrow> bool" where
  "arith_ok a \<longleftrightarrow> in_int (a_total a + 1) \<and>
     (\<forall>e \<in> set (a_sleeping a). in_int (int_of_size_t (snd e) - 1))"

end
