(* ===== verification/ContractInv.thy ===== *)
theory ContractInv
  imports Contract
begin

text \<open>
  Every operation of the contract keeps its invariant. The lemmas follow the two phases of a
  scheduling decision: \<open>a_core (Some t)\<close> while \<open>t\<close> runs, \<open>a_core None\<close> between the moment it
  gives up the processor and the dispatch of the next thread.
\<close>

named_theorems a_defs "the operations on the contract state"

lemmas [a_defs] = a_update_def a_status_def a_enqueue_def a_dispatch_def a_leave_def a_forget_def

lemma a_status_simps [simp]:
  "a_status (a\<lparr>a_ready := q\<rparr>) t = a_status a t"
  "a_status (a\<lparr>a_blocked := B\<rparr>) t = a_status a t"
  "a_status (a\<lparr>a_sleeping := S\<rparr>) t = a_status a t"
  "a_status (a\<lparr>a_masked := b\<rparr>) t = a_status a t"
  "a_status (a\<lparr>a_total := n\<rparr>) t = a_status a t"
  "a_status (a\<lparr>a_running := u\<rparr>) t = a_status a t"
  by (simp_all add: a_status_def)

lemma a_core_masked [simp]: "a_core r (a\<lparr>a_masked := b\<rparr>) = a_core r a"
  by (simp add: a_core_def)

lemma a_wake_simps [simp]:
  "a_status (a_wake a) t = a_status a t"
  "a_threads (a_wake a) = a_threads a"
  "a_blocked (a_wake a) = a_blocked a"
  "a_running (a_wake a) = a_running a"
  "a_total (a_wake a) = a_total a"
  "a_masked (a_wake a) = a_masked a"
  by (simp_all add: a_wake_def a_status_def)

lemma arith_ok_wake: "arith_ok a \<Longrightarrow> arith_ok (a_wake a)"
  by (auto simp: arith_ok_def a_wake_def)

lemma map_find_wake:
  "map_ok (a_sleeping a) \<Longrightarrow> map_find (a_sleeping (a_wake a)) t =
     (case map_find (a_sleeping a) t of None \<Rightarrow> None
      | Some v \<Rightarrow> if due v (a_total a) then None else Some v)"
  by (simp add: a_wake_def map_find_filter split: option.splits)

lemma set_woken:
  assumes "map_ok (a_sleeping a)"
  shows "t \<in> fst ` set (filter (\<lambda>e. due (snd e) (a_total a) \<and> a_status a (fst e) = Some READY) (a_sleeping a))
    \<longleftrightarrow> (\<exists>v. map_find (a_sleeping a) t = Some v \<and> due v (a_total a)) \<and> a_status a t = Some READY"
  using std.entries_find [OF assms] by force

lemma a_core_wake:
  assumes "a_core r a"
  shows "a_core r (a_wake a)"
proof -
  let ?w = "filter (\<lambda>e. due (snd e) (a_total a) \<and> a_status a (fst e) = Some READY) (a_sleeping a)"
  note c = a_coreD [OF assms]
  note find = map_find_wake [OF c(5)]
  have ready: "a_ready (a_wake a) = a_ready a @ map fst ?w"
    by (simp add: a_wake_def)
  have w: "t \<in> set (map fst ?w) \<longleftrightarrow>
      (\<exists>v. map_find (a_sleeping a) t = Some v \<and> due v (a_total a)) \<and> a_status a t = Some READY" for t
    using set_woken [OF c(5), of t] by (simp only: set_map)
  show ?thesis
  proof (rule a_coreI)
    have "distinct (map fst ?w)"
      using std.distinct_keys [OF c(5)] by (rule distinct_map_filter)
    moreover have "set (a_ready a) \<inter> set (map fst ?w) = {}"
      unfolding disjoint_iff w c(3) by simp
    ultimately show "distinct (a_ready (a_wake a))"
      unfolding ready distinct_append using c(2) by blast
    show "t \<in> set (a_ready (a_wake a)) \<longleftrightarrow>
        a_status (a_wake a) t = Some READY \<and> map_find (a_sleeping (a_wake a)) t = None" for t
      unfolding ready set_append Un_iff w c(3) find by (auto split: option.splits)
    show "map_ok (a_sleeping (a_wake a))"
      using c(5) by (simp add: a_wake_def map_ok_filter)
    show "t \<noteq> 0 \<and> (a_status (a_wake a) t = Some READY \<or> a_status (a_wake a) t = Some BLOCKED)"
      if "map_find (a_sleeping (a_wake a)) t = Some v" for t v
      using that c(6) [of t] by (auto simp: find split: option.splits if_splits)
  qed (use c in \<open>simp_all\<close>)
qed

subsection \<open>Giving up the processor\<close>

lemma a_core_running: "a_core (Some t) a \<Longrightarrow> a_status a t = Some RUNNNING"
  by (simp add: a_core_def)

text \<open>A running thread is in none of the other structures.\<close>

lemma running_apart:
  assumes "a_core (Some t) a"
  shows "t \<notin> set (a_ready a)" and "map_find (a_sleeping a) t = None" and "t \<notin> a_blocked a"
proof -
  note c = a_coreD [OF assms] and run = a_core_running [OF assms]
  show "t \<notin> set (a_ready a)" using c(3) run by simp
  show "t \<notin> a_blocked a" using c(4) run by simp
  show "map_find (a_sleeping a) t = None"
    using c(6) [of t] run by (cases "map_find (a_sleeping a) t") auto
qed

lemma a_core_point:
  assumes "a_core (Some t) a"
  shows "a_core (Some t) (a_update t (\<lambda>th. th\<lparr>a_point := p\<rparr>) a)"
proof -
  note c = a_coreD [OF assms]
  have st: "a_status (a_update t (\<lambda>th. th\<lparr>a_point := p\<rparr>) a) u = a_status a u" for u
    by (simp add: a_defs option.map_comp o_def)
  have run: "a_state th = RUNNNING" if "a_threads a t = Some th" for th
    using a_core_running [OF assms] that by (simp add: a_status_def)
  show ?thesis
    by (rule a_coreI; (simp only: st)?) (use c run in \<open>auto simp: a_update_def split: if_splits\<close>)
qed

text \<open>
  The shape shared by the four ways a running thread leaves: its own status changes, nobody
  else's does, and what is left of it can be dispatched again.
\<close>

lemma a_core_leave:
  assumes "a_core (Some t) a"
    and st: "\<And>u. a_status b u = (if u = t then x else a_status a u)"
    and ready: "a_ready b = a_ready a @ (if x = Some READY \<and> S = None then [t] else [])"
    and blocked: "a_blocked b = a_blocked a \<union> (if x = Some BLOCKED then {t} else {})"
    and sleeping: "map_ok (a_sleeping b)"
      "\<And>u. map_find (a_sleeping b) u = (if u = t then S else map_find (a_sleeping a) u)"
    and total: "a_total b = a_total a"
    and x: "x \<noteq> Some RUNNNING" "S \<noteq> None \<Longrightarrow> x \<noteq> None \<and> t \<noteq> 0" "t = 0 \<Longrightarrow> x = Some READY"
    and pt: "\<And>u th. u \<noteq> t \<Longrightarrow> a_threads b u = a_threads a u"
      "\<And>th. a_threads b t = Some th \<Longrightarrow> resumable (a_point th)"
  shows "a_core None b"
proof -
  note c = a_coreD [OF assms(1)] and run = a_core_running [OF assms(1)]
  note apart = running_apart [OF assms(1)]
  show ?thesis
  proof (rule a_coreI)
    show "a_status b u = Some RUNNNING \<longleftrightarrow> None = Some u" for u
      using c(1) [of u] x(1) by (auto simp: st)
    show "distinct (a_ready b)" using c(2) apart(1) by (auto simp: ready)
    show "u \<in> set (a_ready b) \<longleftrightarrow> a_status b u = Some READY \<and> map_find (a_sleeping b) u = None" for u
      using c(3) [of u] apart(1) by (auto simp: ready st sleeping(2))
    show "a_blocked b = {u. a_status b u = Some BLOCKED}"
      using c(4) apart(3) run by (auto simp: blocked st split: if_splits)
    show "u \<noteq> 0 \<and> (a_status b u = Some READY \<or> a_status b u = Some BLOCKED)"
      if "map_find (a_sleeping b) u = Some v" for u v
    proof (cases "u = t")
      case True
      with that x show ?thesis by (cases x; cases "the x") (auto simp: st sleeping(2))
    next
      case False
      with that c(6) [of u v] show ?thesis by (simp add: st sleeping(2))
    qed
    show "a_status b 0 = Some READY \<or> a_status b 0 = Some RUNNNING"
      using c(7) x(3) by (auto simp: st)
    show "int u < MAX_THREAD_NUM" if "a_status b u \<noteq> None" for u
      using that c(8) [of u] c(8) [of t] run by (auto simp: st split: if_splits)
    show "resumable (a_point th)" if "a_threads b u = Some th" "a_state th \<noteq> RUNNNING" for u th
      using that c(11) [of u th] pt by (cases "u = t") auto
  qed (use c sleeping(1) total in simp_all)
qed

lemma a_core_requeue:
  assumes "a_core (Some t) a" and "resumable (a_point_of a t)"
  shows "a_core None (a_enqueue t a)"
proof -
  note run = a_core_running [OF assms(1)] and sl = running_apart(2) [OF assms(1)]
  show ?thesis
    by (rule a_core_leave [OF assms(1), where x = "Some READY" and S = None])
      (use run sl assms(2) a_core_map_ok [OF assms(1)] in
        \<open>auto simp: a_defs a_point_of_def split: option.splits\<close>)
qed

lemma a_core_block_running:
  assumes "a_core (Some t) a" and "t \<noteq> 0" and "a_running a = t"
  shows "a_core None (a_leave BLOCKED In_call (a\<lparr>a_blocked := insert t (a_blocked a)\<rparr>))"
proof -
  note run = a_core_running [OF assms(1)] and sl = running_apart(2) [OF assms(1)]
  show ?thesis
    by (rule a_core_leave [OF assms(1), where x = "Some BLOCKED" and S = None])
      (use run sl assms a_core_map_ok [OF assms(1)] in \<open>auto simp: a_defs resumable_def\<close>)
qed

lemma a_core_to_sleep:
  assumes "a_core (Some t) a" and "t \<noteq> 0" and "a_running a = t"
  shows "a_core None (a_to_sleep n a)"
proof -
  note run = a_core_running [OF assms(1)] and ok = a_core_map_ok [OF assms(1)]
  show ?thesis
    by (rule a_core_leave [OF assms(1), where x = "Some READY" and S = "Some (wake_value (a_total a) n)"])
      (use run assms ok in
        \<open>auto simp: a_to_sleep_def a_defs resumable_def std.find_assign [OF ok] std.ok_assign\<close>)
qed

lemma a_core_terminate_running:
  assumes "a_core (Some t) a" and "t \<noteq> 0"
  shows "a_core None (a\<lparr>a_threads := (a_threads a)(t := None)\<rparr>)"
proof -
  note sl = running_apart(2) [OF assms(1)]
  show ?thesis
    by (rule a_core_leave [OF assms(1), where x = None and S = None])
      (use sl assms a_core_map_ok [OF assms(1)] in \<open>auto simp: a_defs\<close>)
qed

subsection \<open>Dispatching\<close>

text \<open>With nobody running, the main thread is in the queue: the queue is never empty then.\<close>

lemma ready_not_empty:
  assumes "a_core None a"
  shows "a_ready a \<noteq> []"
proof -
  note c = a_coreD [OF assms]
  have "a_status a 0 = Some READY" using c(1) [of 0] c(7) by simp
  moreover from this have "map_find (a_sleeping a) 0 = None"
    using c(6) [of 0] by (cases "map_find (a_sleeping a) 0") auto
  ultimately have "0 \<in> set (a_ready a)" by (simp add: c(3))
  then show ?thesis by auto
qed

lemma a_core_dispatch:
  assumes "a_core None a" and "a_total a < INT_MAX"
  shows "a_core (Some (hd (a_ready a))) (a_dispatch a)"
proof -
  obtain t q where q: "a_ready a = t # q"
    using ready_not_empty [OF assms(1)] by (cases "a_ready a") auto
  note c = a_coreD [OF assms(1)]
  have t: "a_status a t = Some READY" "map_find (a_sleeping a) t = None"
    using c(3) [of t] q by auto
  have st: "a_status (a_dispatch a) u = (if u = t then Some RUNNNING else a_status a u)" for u
    using t q by (auto simp: a_defs)
  have rest: "a_ready (a_dispatch a) = q" "a_blocked (a_dispatch a) = a_blocked a"
    "a_sleeping (a_dispatch a) = a_sleeping a" "a_total (a_dispatch a) = a_total a + 1"
    using q by (simp_all add: a_defs)
  show ?thesis
  proof (rule a_coreI; (simp only: st rest)?)
    show "(if u = t then Some RUNNNING else a_status a u) = Some RUNNNING \<longleftrightarrow> Some (hd (a_ready a)) = Some u" for u
      using c(1) [of u] q by auto
    show "distinct q" using c(2) q by simp
    show "u \<in> set q \<longleftrightarrow> (if u = t then Some RUNNNING else a_status a u) = Some READY \<and>
        map_find (a_sleeping a) u = None" for u
      using c(2) c(3) [of u] q by auto
    show "a_blocked a = {u. (if u = t then Some RUNNNING else a_status a u) = Some BLOCKED}"
      using c(4) t by auto
    show "u \<noteq> 0 \<and> ((if u = t then Some RUNNNING else a_status a u) = Some READY \<or>
        (if u = t then Some RUNNNING else a_status a u) = Some BLOCKED)"
      if "map_find (a_sleeping a) u = Some v" for u v
      using that t(2) c(6) [of u v] by auto
    show "(if 0 = t then Some RUNNNING else a_status a 0) = Some READY \<or>
        (if 0 = t then Some RUNNNING else a_status a 0) = Some RUNNNING"
      using c(7) by auto
    show "int u < MAX_THREAD_NUM" if "(if u = t then Some RUNNNING else a_status a u) \<noteq> None" for u
      using that c(8) [of u] t(1) by (auto split: if_splits)
    show "resumable (a_point th)"
      if "a_threads (a_dispatch a) u = Some th" "a_state th \<noteq> RUNNNING" for u th
      using that c(11) [of u th] q by (auto simp: a_defs split: if_splits)
  qed (use c assms(2) in auto)
qed

lemma a_dispatch_running [simp]: "a_running (a_dispatch a) = hd (a_ready a)"
  by (simp add: a_defs)

lemma a_inv_goes_on: "a_inv (snd (a_goes_on a)) = a_inv a"
  by (simp add: a_goes_on_def a_inv_def)

lemma a_inv_dispatch:
  "a_core None a \<Longrightarrow> a_total a < INT_MAX \<Longrightarrow> a_inv (a_dispatch a)"
  using a_core_dispatch by (simp add: a_inv_def)

lemma a_inv_switch:
  assumes "a_core None a" and "a_total a < INT_MAX"
  shows "a_inv (snd (a_switch a))"
  using a_inv_dispatch [OF a_core_wake [OF assms(1)]] assms(2)
  by (simp add: a_switch_def a_inv_goes_on)

lemma a_total_decision [simp]:
  "a_total (a_dispatch a) = a_total a + 1" "a_total (snd (a_goes_on a)) = a_total a"
  "a_total (snd (a_switch a)) = a_total a + 1"
  by (simp_all add: a_defs a_goes_on_def a_switch_def)

subsection \<open>Operations without a scheduling decision\<close>

lemma size_t_of_int_eq_0: "in_int i \<Longrightarrow> size_t_of_int i = 0 \<longleftrightarrow> i = 0"
proof (cases "0 \<le> i")
  case True
  then show "in_int i \<Longrightarrow> ?thesis" by (auto simp: in_int_def size_t_of_int_nonneg)
next
  case False
  then show "in_int i \<Longrightarrow> ?thesis"
    using size_t_of_int_neg [of i] by (auto simp: in_int_def)
qed

lemma free_tid_Some:
  assumes "free_tid a = Some t"
  shows "a_threads a t = None" and "int t < MAX_THREAD_NUM"
    and "\<And>u. u < t \<Longrightarrow> a_threads a u \<noteq> None"
proof -
  obtain i where i: "i < length [0..<nat MAX_THREAD_NUM]" "t = [0..<nat MAX_THREAD_NUM] ! i"
    "a_threads a ([0..<nat MAX_THREAD_NUM] ! i) = None"
    "\<forall>j<i. a_threads a ([0..<nat MAX_THREAD_NUM] ! j) \<noteq> None"
    using assms unfolding free_tid_def by (auto simp: find_Some_iff)
  then have "t = i" by simp
  with i show "a_threads a t = None" and "int t < MAX_THREAD_NUM"
    and "\<And>u. u < t \<Longrightarrow> a_threads a u \<noteq> None"
    by auto
qed

lemma free_tid_None:
  "free_tid a = None \<longleftrightarrow> (\<forall>t. int t < MAX_THREAD_NUM \<longrightarrow> a_threads a t \<noteq> None)"
  unfolding free_tid_def find_None_iff by (auto simp: MAX_THREAD_NUM_def)

lemma a_core_spawn:
  assumes "a_core r a" and "free_tid a = Some t" and "ep \<noteq> 0"
  shows "a_core r (a\<lparr>a_threads := (a_threads a)(t \<mapsto> \<lparr>a_state = READY, a_quantums = 0, a_point = Entry ep\<rparr>),
    a_ready := a_ready a @ [t]\<rparr>)" (is "a_core r ?b")
proof -
  note c = a_coreD [OF assms(1)] and f = free_tid_Some [OF assms(2)]
  have old: "a_status a t = None" using f by (simp add: a_status_def)
  then have sl: "map_find (a_sleeping a) t = None"
    using c(6) [of t] by (cases "map_find (a_sleeping a) t") auto
  have st: "a_status ?b u = (if u = t then Some READY else a_status a u)" for u
    by (simp add: a_status_def)
  show ?thesis
  proof (rule a_coreI; (simp only: st)?)
    show "(if u = t then Some READY else a_status a u) = Some RUNNNING \<longleftrightarrow> r = Some u" for u
      using c(1) [of u] old by auto
    show "distinct (a_ready ?b)" using c(2) c(3) [of t] old by simp
    show "u \<in> set (a_ready ?b) \<longleftrightarrow> (if u = t then Some READY else a_status a u) = Some READY \<and>
        map_find (a_sleeping ?b) u = None" for u
      using c(3) [of u] sl by auto
    show "a_blocked ?b = {u. (if u = t then Some READY else a_status a u) = Some BLOCKED}"
      using c(4) old by auto
    show "u \<noteq> 0 \<and> ((if u = t then Some READY else a_status a u) = Some READY \<or>
        (if u = t then Some READY else a_status a u) = Some BLOCKED)"
      if "map_find (a_sleeping ?b) u = Some v" for u v
      using that sl c(6) [of u v] by auto
    show "(if 0 = t then Some READY else a_status a 0) = Some READY \<or>
        (if 0 = t then Some READY else a_status a 0) = Some RUNNNING"
      using c(7) by auto
    show "int u < MAX_THREAD_NUM" if "(if u = t then Some READY else a_status a u) \<noteq> None" for u
      using that c(8) [of u] f(2) by (auto split: if_splits)
    show "resumable (a_point th)" if "a_threads ?b u = Some th" "a_state th \<noteq> RUNNNING" for u th
      using that c(11) [of u th] assms(3) by (auto simp: resumable_def split: if_splits)
  qed (use c in auto)
qed

lemma a_core_forget:
  assumes "a_core r a" and "t \<noteq> 0" and "a_status a t \<noteq> Some RUNNNING"
  shows "a_core r (a_forget t a)"
proof -
  note c = a_coreD [OF assms(1)]
  have st: "a_status (a_forget t a) u = (if u = t then None else a_status a u)" for u
    by (simp add: a_forget_def a_status_def)
  have find: "map_find (a_sleeping (a_forget t a)) u = (if u = t then None else map_find (a_sleeping a) u)" for u
    using std.find_erase [OF c(5), of t] by (simp add: a_forget_def)
  show ?thesis
  proof (rule a_coreI; (simp only: st find)?)
    show "(if u = t then None else a_status a u) = Some RUNNNING \<longleftrightarrow> r = Some u" for u
      using c(1) [of u] assms(3) by auto
    show "distinct (a_ready (a_forget t a))" using c(2) by (simp add: a_forget_def)
    show "u \<in> set (a_ready (a_forget t a)) \<longleftrightarrow> (if u = t then None else a_status a u) = Some READY \<and>
        (if u = t then None else map_find (a_sleeping a) u) = None" for u
      using c(3) [of u] by (auto simp: a_forget_def)
    show "a_blocked (a_forget t a) = {u. (if u = t then None else a_status a u) = Some BLOCKED}"
      using c(4) by (auto simp: a_forget_def)
    show "map_ok (a_sleeping (a_forget t a))"
      using c(5) by (simp add: a_forget_def std.ok_erase)
    show "u \<noteq> 0 \<and> ((if u = t then None else a_status a u) = Some READY \<or>
        (if u = t then None else a_status a u) = Some BLOCKED)"
      if "(if u = t then None else map_find (a_sleeping a) u) = Some v" for u v
      using that c(6) [of u v] by (auto split: if_splits)
    show "(if 0 = t then None else a_status a 0) = Some READY \<or>
        (if 0 = t then None else a_status a 0) = Some RUNNNING"
      using c(7) assms(2) by auto
    show "int u < MAX_THREAD_NUM" if "(if u = t then None else a_status a u) \<noteq> None" for u
      using that c(8) [of u] by (auto split: if_splits)
    show "resumable (a_point th)" if "a_threads (a_forget t a) u = Some th" "a_state th \<noteq> RUNNNING" for u th
      using that c(11) [of u th] by (auto simp: a_forget_def split: if_splits)
  qed (use c in \<open>auto simp: a_forget_def\<close>)
qed

text \<open>A waiting thread changes between READY and BLOCKED, and the queues follow.\<close>

lemma a_core_waiting:
  assumes "a_core r a" and "t \<noteq> 0" and "a_status a t = Some READY \<or> a_status a t = Some BLOCKED"
    and x: "x = READY \<or> x = BLOCKED"
    and b: "a_threads b = (a_threads a)(t := map_option (\<lambda>th. th\<lparr>a_state := x\<rparr>) (a_threads a t))"
      "distinct (a_ready b)"
      "set (a_ready b) = (if x = READY \<and> map_find (a_sleeping a) t = None
        then insert t (set (a_ready a)) else set (a_ready a) - {t})"
      "a_blocked b = (if x = BLOCKED then insert t (a_blocked a) else a_blocked a - {t})"
      "a_sleeping b = a_sleeping a" "a_total b = a_total a"
  shows "a_core r b"
proof -
  note c = a_coreD [OF assms(1)]
  have st: "a_status b u = (if u = t then Some x else a_status a u)" for u
    using assms(3) by (auto simp: b(1) a_status_def)
  show ?thesis
  proof (rule a_coreI; (simp only: st b(5,6))?)
    show "(if u = t then Some x else a_status a u) = Some RUNNNING \<longleftrightarrow> r = Some u" for u
      using c(1) [of u] assms(3) x by auto
    show "distinct (a_ready b)" by (rule b(2))
    show "u \<in> set (a_ready b) \<longleftrightarrow> (if u = t then Some x else a_status a u) = Some READY \<and>
        map_find (a_sleeping a) u = None" for u
      using c(3) [of u] x unfolding b(3) by (auto split: if_splits)
    show "a_blocked b = {u. (if u = t then Some x else a_status a u) = Some BLOCKED}"
      using c(4) x unfolding b(4) by (auto split: if_splits)
    show "u \<noteq> 0 \<and> ((if u = t then Some x else a_status a u) = Some READY \<or>
        (if u = t then Some x else a_status a u) = Some BLOCKED)"
      if "map_find (a_sleeping a) u = Some v" for u v
      using that x c(6) [of u v] by auto
    show "(if 0 = t then Some x else a_status a 0) = Some READY \<or>
        (if 0 = t then Some x else a_status a 0) = Some RUNNNING"
      using c(7) assms(2) by auto
    show "int u < MAX_THREAD_NUM" if "(if u = t then Some x else a_status a u) \<noteq> None" for u
      using that c(8) [of u] assms(3) by (auto split: if_splits)
    show "resumable (a_point th)" if th: "a_threads b u = Some th" "a_state th \<noteq> RUNNNING" for u th
    proof (cases "u = t")
      case True
      then obtain th0 where th0: "a_threads a t = Some th0" "th = th0\<lparr>a_state := x\<rparr>"
        using th(1) by (cases "a_threads a t") (auto simp: b(1))
      then have "a_state th0 \<noteq> RUNNNING" using assms(3) by (auto simp: a_status_def)
      with c(11) th0 show ?thesis by auto
    next
      case False
      with th c(11) [of u th] show ?thesis by (simp add: b(1))
    qed
  qed (use c in auto)
qed

lemma a_core_block_ready:
  assumes "a_core r a" and "t \<noteq> 0" and "a_status a t = Some READY"
  shows "a_core r (a_update t (\<lambda>th. th\<lparr>a_state := BLOCKED\<rparr>)
    (a\<lparr>a_ready := filter (\<lambda>u. u \<noteq> t) (a_ready a), a_blocked := insert t (a_blocked a)\<rparr>))"
  by (rule a_core_waiting [OF assms(1,2), where x = BLOCKED])
    (use assms a_core_distinct [OF assms(1)] in \<open>auto simp: a_update_def\<close>)

lemma a_core_resume:
  assumes "a_core r a" and "a_status a t = Some BLOCKED"
  shows "a_core r ((a_enqueue t a)\<lparr>a_blocked := a_blocked a - {t}\<rparr>)"
proof -
  note c = a_coreD [OF assms(1)]
  have "t \<noteq> 0"
  proof
    assume "t = 0"
    with c(7) assms(2) show False by simp
  qed
  moreover have "t \<notin> set (a_ready a)" using c(3) [of t] assms(2) by simp
  ultimately show ?thesis
    by (intro a_core_waiting [OF assms(1), where x = READY])
      (use assms c(2) in \<open>auto simp: a_enqueue_def a_update_def\<close>)
qed

subsection \<open>Every action keeps the invariant\<close>

lemma a_inv_running: "a_inv a \<Longrightarrow> a_status a t = Some RUNNNING \<longleftrightarrow> t = a_running a"
  by (auto simp: a_inv_def a_core_def)

lemma a_core_running_field [simp]:
  "a_core r (a\<lparr>a_running := t\<rparr>) = a_core r a"
  by (simp add: a_core_def)

lemma a_inv_masked [simp]: "a_inv (a\<lparr>a_masked := b\<rparr>) = a_inv a"
  by (simp add: a_inv_def)

lemma a_inv_return [simp]: "a_inv (snd (a_return v a)) = a_inv a"
  by (simp add: a_return_def)

lemma a_update_running [simp]:
  "a_running (a_update t f a) = a_running a" "a_running (a_enqueue t a) = a_running a"
  "a_total (a_update t f a) = a_total a" "a_total (a_enqueue t a) = a_total a"
  "a_running (a_forget t a) = a_running a" "a_total (a_forget t a) = a_total a"
  "a_masked (a_enqueue t a) = a_masked a" "a_masked (a_update t f a) = a_masked a"
  "a_total (a_leave st p a) = a_total a" "a_total (a_to_sleep n a) = a_total a"
  by (simp_all add: a_defs a_to_sleep_def)

lemma a_inv_tick:
  assumes "a_inv a" and "a_total (snd (a_tick a)) \<le> INT_MAX"
  shows "a_inv (snd (a_tick a))"
proof -
  let ?t = "a_running a"
  let ?p = "a_update ?t (\<lambda>th. th\<lparr>a_point := Preempted\<rparr>) a"
  have "a_core (Some ?t) (a_wake ?p)"
    using assms(1) by (intro a_core_wake a_core_point) (simp add: a_inv_def)
  moreover have "resumable (a_point_of (a_wake ?p) ?t)"
    using assms(1) a_inv_running [OF assms(1), of ?t]
    by (auto simp: a_point_of_def a_update_def a_status_def resumable_def)
  ultimately have "a_core None (a_enqueue ?t (a_wake ?p))" by (rule a_core_requeue)
  with assms show ?thesis
    by (auto simp: a_tick_def a_inv_goes_on intro!: a_inv_dispatch)
qed

lemma a_inv_spawn: "a_inv a \<Longrightarrow> a_inv (snd (a_spawn ep a))"
  by (auto simp: a_spawn_def a_inv_def a_return_def intro: a_core_spawn split: option.splits)

lemma a_inv_terminate:
  assumes "a_inv a" and "a_total (snd (a_terminate tid a)) \<le> INT_MAX" and "in_int tid" and "tid \<noteq> 0"
  shows "a_inv (snd (a_terminate tid a))"
proof -
  let ?t = "size_t_of_int tid"
  have t: "?t \<noteq> 0" using assms(3,4) by (simp add: size_t_of_int_eq_0)
  have core: "a_core (Some (a_running a)) a" using assms(1) by (simp add: a_inv_def)
  show ?thesis
  proof (cases "a_status a ?t = Some RUNNNING")
    case True
    then have "?t = a_running a" using a_inv_running [OF assms(1)] by simp
    then have "a_core None (a\<lparr>a_threads := (a_threads a)(?t := None)\<rparr>)"
      using core t by (simp add: a_core_terminate_running)
    with True assms(2) show ?thesis by (simp add: a_terminate_def a_inv_switch Let_def)
  next
    case False
    then have "a_inv (a_forget ?t a)"
      using a_core_forget [OF core t] by (simp add: a_inv_def)
    with False assms(1) show ?thesis
      by (auto simp: a_terminate_def Let_def split: option.splits State.splits)
  qed
qed

lemma a_inv_block:
  assumes "a_inv a" and "a_total (snd (a_block tid a)) \<le> INT_MAX" and "in_int tid"
  shows "a_inv (snd (a_block tid a))"
proof (cases "tid = 0")
  case True
  with assms(1) show ?thesis by (simp add: a_block_def)
next
  case False
  let ?t = "size_t_of_int tid"
  have t: "?t \<noteq> 0" using assms(3) False by (simp add: size_t_of_int_eq_0)
  have core: "a_core (Some (a_running a)) a" using assms(1) by (simp add: a_inv_def)
  show ?thesis
  proof (cases "a_status a ?t")
    case None
    with assms(1) False show ?thesis by (simp add: a_block_def)
  next
    case (Some x)
    show ?thesis
    proof (cases x)
      case RUNNNING
      then have "?t = a_running a" using a_inv_running [OF assms(1)] Some by simp
      then have "a_core None (a_leave BLOCKED In_call (a\<lparr>a_blocked := insert ?t (a_blocked a)\<rparr>))"
        using core t by (simp add: a_core_block_running)
      with Some RUNNNING False assms(2) show ?thesis
        by (simp add: a_block_def a_inv_switch)
    next
      case BLOCKED
      with Some False assms(1) show ?thesis by (simp add: a_block_def)
    next
      case READY
      with Some have "a_inv (a_update ?t (\<lambda>th. th\<lparr>a_state := BLOCKED\<rparr>)
          (a\<lparr>a_ready := filter (\<lambda>u. u \<noteq> ?t) (a_ready a), a_blocked := insert ?t (a_blocked a)\<rparr>))"
        using a_core_block_ready [OF core t] by (simp add: a_inv_def)
      with Some READY False show ?thesis by (simp add: a_block_def Let_def)
    qed
  qed
qed

lemma a_inv_resume:
  assumes "a_inv a"
  shows "a_inv (snd (a_resume tid a))"
  using assms a_core_resume [of "Some (a_running a)" a "size_t_of_int tid"]
  by (auto simp: a_resume_def a_inv_def a_return_def Let_def split: option.splits State.splits)

lemma a_inv_sleep:
  assumes "a_inv a" and "a_total (snd (a_sleep n a)) \<le> INT_MAX"
  shows "a_inv (snd (a_sleep n a))"
  using assms a_core_to_sleep [of "a_running a" a n]
  by (auto simp: a_sleep_def a_inv_def a_return_def intro!: a_inv_switch [unfolded a_inv_def])

text \<open>The number of quantums is an \<open>int\<close>: past \<open>INT_MAX\<close> there is no next state.\<close>

lemma a_inv_exec:
  assumes "a_inv a" and "a_total (snd (a_exec act a)) \<le> INT_MAX" and "well_typed act"
    and "act \<noteq> Call (Terminate 0)"
  shows "a_inv (snd (a_exec act a))"
  using assms
  by (cases "(act, a)" rule: a_exec.cases)
    (auto simp: a_inv_tick a_inv_spawn a_inv_terminate a_inv_block a_inv_resume a_inv_sleep
      a_get_quantums_def split: option.splits)

end
