(* ===== verification/Refinement.thy ===== *)
theory Refinement
  imports ContractInv
begin

text \<open>
  The C++ operations implement the contract. \<open>view K s\<close> is the contract state a process state
  stands for, \<open>rep_ok s\<close> the invariant of the representation (the thread pointers are live and
  distinct, the signal set and handler are installed, the maps are ordered, the number of quantums is
  an \<open>int\<close>). One rule per member
  function: run from a well-formed state it ends in a well-formed state whose view is the contract
  operation's result; if a system call fails it may exit with code 1 instead, and the only fault
  it can have is the overflow of an \<open>int\<close>.
\<close>

definition thr :: "process \<Rightarrow> tid \<Rightarrow> Thread option" where
  "thr s t =
     (case scheduler s of None \<Rightarrow> None
      | Some sc \<Rightarrow> (case map_find (threads sc) t of None \<Rightarrow> None | Some l \<Rightarrow> heap s l))"

definition point_at :: "platform \<Rightarrow> sigjmp_buf \<Rightarrow> point" where
  "point_at K e =
     (case jmpbuf e ! JB_PC of
        Stored w \<Rightarrow> Entry (demangle K w)
      | Saved In_change_thread \<Rightarrow> Preempted
      | Saved In_block_thread \<Rightarrow> In_call
      | Saved In_sleep_running_thread \<Rightarrow> In_call
      | Saved In_Thread_ctor \<Rightarrow> Nowhere)"

definition abs_thread :: "platform \<Rightarrow> Thread \<Rightarrow> athread" where
  "abs_thread K th =
     \<lparr>a_state = state th, a_quantums = quantum_t th, a_point = point_at K (env th)\<rparr>"

definition view :: "platform \<Rightarrow> process \<Rightarrow> lib" where
  "view K s =
     (let sc = the (scheduler s) in
      \<lparr>a_threads = (\<lambda>t. map_option (abs_thread K) (thr s t)),
       a_ready = ready_threads sc,
       a_blocked = blocked_threads sc,
       a_sleeping = sleeping_threads sc,
       a_running = running_thread_tid sc,
       a_total = total_quantums sc,
       a_masked = (SIGVTALRM \<in> sig_mask s)\<rparr>)"

text \<open>A context the constructor made starts with an empty mask.\<close>

definition env_ok :: "sigjmp_buf \<Rightarrow> bool" where
  "env_ok e \<longleftrightarrow>
     (case jmpbuf e ! JB_PC of Stored w \<Rightarrow> saved_mask e = {} | Saved site \<Rightarrow> SIGVTALRM \<in> saved_mask e)"

definition rep_with :: "Scheduler \<Rightarrow> process \<Rightarrow> bool" where
  "rep_with sc s \<longleftrightarrow>
     scheduler s = Some sc \<and> map_ok (threads sc) \<and> sig_set sc = {SIGVTALRM} \<and>
     disposition s = Callback_handler \<and> total_quantums sc \<le> INT_MAX \<and>
     (\<forall>t l. map_find (threads sc) t = Some l \<longrightarrow> (\<exists>th. heap s l = Some th \<and> env_ok (env th))) \<and>
     (\<forall>t u l. map_find (threads sc) t = Some l \<longrightarrow> map_find (threads sc) u = Some l \<longrightarrow> t = u) \<and>
     (\<forall>l. heap s l \<noteq> None \<longrightarrow> l < next_obj s)"

definition rep_ok :: "process \<Rightarrow> bool" where
  "rep_ok s \<longleftrightarrow> (\<exists>sc. rep_with sc s)"

lemma rep_okE:
  assumes "rep_ok s"
  obtains sc where "scheduler s = Some sc" and "rep_with sc s"
  using assms by (auto simp: rep_ok_def rep_with_def)

lemma rep_withD:
  assumes "rep_with sc s"
  shows "scheduler s = Some sc" and "map_ok (threads sc)" and "sig_set sc = {SIGVTALRM}"
    and "disposition s = Callback_handler"
    and "\<And>t l. map_find (threads sc) t = Some l \<Longrightarrow> \<exists>th. heap s l = Some th \<and> env_ok (env th)"
    and "\<And>t u l. map_find (threads sc) t = Some l \<Longrightarrow> map_find (threads sc) u = Some l \<Longrightarrow> t = u"
    and "\<And>l. heap s l \<noteq> None \<Longrightarrow> l < next_obj s"
    and "total_quantums sc \<le> INT_MAX"
  using assms unfolding rep_with_def by blast+

lemma rep_okI: "rep_with sc s \<Longrightarrow> rep_ok s"
  by (auto simp: rep_ok_def)

lemma view_fields:
  assumes "scheduler s = Some sc"
  shows "a_ready (view K s) = ready_threads sc" "a_blocked (view K s) = blocked_threads sc"
    "a_sleeping (view K s) = sleeping_threads sc" "a_running (view K s) = running_thread_tid sc"
    "a_total (view K s) = total_quantums sc" "a_masked (view K s) = (SIGVTALRM \<in> sig_mask s)"
    "a_threads (view K s) t = map_option (abs_thread K) (thr s t)"
  using assms by (simp_all add: view_def Let_def)

lemma thr_find: "scheduler s = Some sc \<Longrightarrow>
    thr s t = (case map_find (threads sc) t of None \<Rightarrow> None | Some l \<Rightarrow> heap s l)"
  by (simp add: thr_def)

lemma thr_None_iff:
  assumes "rep_with sc s"
  shows "thr s t = None \<longleftrightarrow> map_find (threads sc) t = None"
  using rep_withD(1,5) [OF assms] by (force simp: thr_find split: option.splits)

lemma a_threads_None_iff:
  assumes "rep_with sc s"
  shows "a_threads (view K s) t = None \<longleftrightarrow> map_find (threads sc) t = None"
  using thr_None_iff [OF assms] rep_withD(1) [OF assms] by (simp add: view_fields)

lemma thr_heap_update:
  assumes "rep_with sc s" and "map_find (threads sc) t = Some l"
  shows "thr (s\<lparr>heap := (heap s)(l \<mapsto> th)\<rparr>) = (thr s)(t \<mapsto> th)"
  using assms rep_withD(1,6) [OF assms(1)] by (force simp: thr_find fun_eq_iff split: option.splits)

text \<open>The pieces of the state a view does not depend on.\<close>

lemma thr_cong [simp]:
  "thr (s\<lparr>sig_mask := M\<rparr>) = thr s" "thr (s\<lparr>events := es\<rparr>) = thr s" "thr (s\<lparr>itimer := i\<rparr>) = thr s"
  by (simp_all add: thr_def fun_eq_iff split: option.splits)

lemma view_cong [simp]:
  "view K (s\<lparr>events := es\<rparr>) = view K s" "view K (s\<lparr>itimer := i\<rparr>) = view K s"
  "view K (s\<lparr>sig_mask := M\<rparr>) = (view K s)\<lparr>a_masked := (SIGVTALRM \<in> M)\<rparr>"
  by (simp_all add: view_def Let_def)

lemma rep_with_cong [simp]:
  "rep_with sc (s\<lparr>events := es\<rparr>) = rep_with sc s" "rep_with sc (s\<lparr>itimer := i\<rparr>) = rep_with sc s"
  "rep_with sc (s\<lparr>sig_mask := M\<rparr>) = rep_with sc s"
  by (simp_all add: rep_with_def)

lemma rep_ok_cong [simp]:
  "rep_ok (s\<lparr>events := es\<rparr>) = rep_ok s" "rep_ok (s\<lparr>itimer := i\<rparr>) = rep_ok s" "rep_ok (s\<lparr>sig_mask := M\<rparr>) = rep_ok s"
  by (simp_all add: rep_ok_def)

subsection \<open>Elementary steps\<close>

lemma wp_this [simp]: "scheduler s = Some sc \<Longrightarrow> wp R J E F this s = R sc s"
  by (simp add: wp_def this_def)

lemma wp_set_this [simp]:
  "scheduler s = Some sc \<Longrightarrow> wp R J E F (set_this f) s = R () (s\<lparr>scheduler := Some (f sc)\<rparr>)"
  by (simp add: set_this_def)

lemma wp_load [simp]: "heap s l = Some th \<Longrightarrow> wp R J E F (load l) s = R th s"
  by (simp add: wp_def load_def)

lemma wp_update_obj [simp]:
  "heap s l = Some th \<Longrightarrow> wp R J E F (update_obj l f) s = R () (s\<lparr>heap := (heap s)(l \<mapsto> f th)\<rparr>)"
  by (simp add: update_obj_def)

lemma wp_get_thread [simp]:
  "scheduler s = Some sc \<Longrightarrow> map_find (threads sc) t = Some l \<Longrightarrow> wp R J E F (get_thread t) s = R l s"
  by (simp add: get_thread_def)

lemma wp_check_thread [simp]:
  "scheduler s = Some sc \<Longrightarrow>
     wp R J E F (check_thread t) s = R (map_find (threads sc) t \<noteq> None) s"
  by (simp add: check_thread_def)

lemma existing_thread:
  assumes "rep_with sc s" and "a_threads (view K s) t \<noteq> None"
  obtains l th where "map_find (threads sc) t = Some l" and "heap s l = Some th"
    and "thr s t = Some th" and "env_ok (env th)" and "a_threads (view K s) t = Some (abs_thread K th)"
proof -
  obtain l where l: "map_find (threads sc) t = Some l"
    using assms(2) a_threads_None_iff [OF assms(1), of K t]
    by (cases "map_find (threads sc) t") auto
  then obtain th where th: "heap s l = Some th" "env_ok (env th)"
    using rep_withD(5) [OF assms(1)] by blast
  with l that show ?thesis
    using rep_withD(1) [OF assms(1)] by (simp add: thr_find view_fields)
qed

lemma rep_with_heap_update:
  assumes "rep_with sc s" and "map_find (threads sc) t = Some l" and "env_ok (env th)"
  shows "rep_with sc (s\<lparr>heap := (heap s)(l \<mapsto> th)\<rparr>)"
proof -
  note w = rep_withD [OF assms(1)]
  have "l < next_obj s" using w(5) [OF assms(2)] w(7) [of l] by auto
  with w assms(2,3) show ?thesis
    unfolding rep_with_def by (auto split: if_splits)
qed

lemma view_heap_update:
  assumes "rep_with sc s" and "map_find (threads sc) t = Some l" and "heap s l = Some th0"
    and "abs_thread K th = f (abs_thread K th0)"
  shows "view K (s\<lparr>heap := (heap s)(l \<mapsto> th)\<rparr>) = a_update t f (view K s)"
proof -
  have "thr s t = Some th0" using assms rep_withD(1) [OF assms(1)] by (simp add: thr_find)
  with thr_heap_update [OF assms(1,2), of th] show ?thesis
    by (simp add: view_def a_update_def Let_def fun_eq_iff assms(4))
qed

text \<open>Changes of scheduler fields other than the thread table.\<close>

lemma rep_with_sched_update:
  assumes "rep_with sc s" and "threads sc' = threads sc" and "sig_set sc' = sig_set sc"
    and "total_quantums sc' \<le> INT_MAX"
  shows "rep_with sc' (s\<lparr>scheduler := Some sc'\<rparr>)"
  using assms by (auto simp: rep_with_def)

lemma thr_sched_update:
  assumes "scheduler s = Some sc" and "threads sc' = threads sc"
  shows "thr (s\<lparr>scheduler := Some sc'\<rparr>) = thr s"
  using assms by (simp add: thr_def fun_eq_iff split: option.splits)

lemma view_sched_update:
  assumes "scheduler s = Some sc" and "threads sc' = threads sc"
  shows "view K (s\<lparr>scheduler := Some sc'\<rparr>) = (view K s)
    \<lparr>a_ready := ready_threads sc', a_blocked := blocked_threads sc',
     a_sleeping := sleeping_threads sc', a_running := running_thread_tid sc',
     a_total := total_quantums sc'\<rparr>"
  using assms thr_sched_update [OF assms] by (simp add: view_def Let_def)

subsection \<open>Signals and timer\<close>

lemma sys_fail: "sys_ret K es c = - 1 \<Longrightarrow> \<not> sys_ok K"
  by (auto simp: sys_ok_def)

lemma wp_block_signals:
  assumes "rep_ok s" and "\<And>s'. rep_ok s' \<Longrightarrow> view K s' = (view K s)\<lparr>a_masked := True\<rparr> \<Longrightarrow> R 0 s'"
    and "\<And>s'. \<not> sys_ok K \<Longrightarrow> E 1 s'"
  shows "wp R J E F (block_signals K) s"
proof -
  obtain sc where sc: "scheduler s = Some sc" "rep_with sc s" using assms(1) by (rule rep_okE)
  with rep_withD(3) [OF sc(2)] assms show ?thesis
    by (auto simp: block_signals_def wp_simps handle_consts Let_def change_mask_def
        dest: sys_fail intro!: assms(2,3))
qed

lemma wp_unblock_signals:
  assumes "rep_ok s" and "\<And>s'. rep_ok s' \<Longrightarrow> view K s' = (view K s)\<lparr>a_masked := False\<rparr> \<Longrightarrow> R 0 s'"
    and "\<And>s'. \<not> sys_ok K \<Longrightarrow> E 1 s'"
  shows "wp R J E F (unblock_signals K) s"
proof -
  obtain sc where sc: "scheduler s = Some sc" "rep_with sc s" using assms(1) by (rule rep_okE)
  with rep_withD(3) [OF sc(2)] assms show ?thesis
    by (auto simp: unblock_signals_def wp_simps handle_consts Let_def change_mask_def
        dest: sys_fail intro!: assms(2,3))
qed

lemma wp_reset_time:
  assumes "rep_ok s" and "\<And>s'. rep_ok s' \<Longrightarrow> view K s' = view K s \<Longrightarrow> R () s'"
    and "\<And>s'. \<not> sys_ok K \<Longrightarrow> E 1 s'"
  shows "wp R J E F (reset_time K) s"
proof -
  obtain sc where sc: "scheduler s = Some sc" "rep_with sc s" using assms(1) by (rule rep_okE)
  with assms show ?thesis
    by (auto simp: reset_time_def wp_simps handle_consts Let_def dest: sys_fail intro!: assms(2,3))
qed

end
