(* ===== verification/RefineSched.thy ===== *)
theory RefineSched
  imports Refinement
begin

text \<open>
  The rules for the member functions of the scheduler that move threads between the structures:
  saving a context, the two queues, the dispatch, and the continuation of a saved context.
\<close>

subsection \<open>Saving the running context\<close>

fun site_point :: "call_site \<Rightarrow> point" where
  "site_point In_Thread_ctor = Nowhere"
| "site_point In_change_thread = Preempted"
| "site_point In_block_thread = In_call"
| "site_point In_sleep_running_thread = In_call"

lemma point_at_sigsetjmp: "point_at K (sigsetjmp site M) = site_point site"
  by (cases site) (simp_all add: point_at_def)

lemma env_ok_sigsetjmp: "SIGVTALRM \<in> M \<Longrightarrow> env_ok (sigsetjmp site M)"
  by (simp add: env_ok_def)

lemma wp_save:
  assumes "rep_ok s" and "a_masked (view K s)" and "a_threads (view K s) (a_running (view K s)) \<noteq> None"
    and "\<And>s'. rep_ok s' \<Longrightarrow>
      view K s' = a_update (a_running (view K s)) (\<lambda>th. th\<lparr>a_point := site_point site\<rparr>) (view K s) \<Longrightarrow> R 0 s'"
  shows "wp R J E F (save_current_execution_context K site) s"
proof -
  obtain sc where sc: "scheduler s = Some sc" "rep_with sc s" using assms(1) by (rule rep_okE)
  have run: "a_running (view K s) = running_thread_tid sc" using sc by (simp add: view_fields)
  obtain l th where l: "map_find (threads sc) (running_thread_tid sc) = Some l" "heap s l = Some th"
    using existing_thread [OF sc(2) assms(3)] run by metis
  have masked: "SIGVTALRM \<in> sig_mask s" using assms(2) sc(1) by (simp add: view_fields)
  let ?th = "th\<lparr>env := sigsetjmp site (sig_mask s)\<rparr>"
  have "rep_ok (s\<lparr>heap := (heap s)(l \<mapsto> ?th)\<rparr>)"
    by (rule rep_okI [OF rep_with_heap_update [OF sc(2) l(1)]]) (simp add: env_ok_sigsetjmp masked)
  moreover have "view K (s\<lparr>heap := (heap s)(l \<mapsto> ?th)\<rparr>) =
      a_update (running_thread_tid sc) (\<lambda>th. th\<lparr>a_point := site_point site\<rparr>) (view K s)"
    by (rule view_heap_update [OF sc(2) l]) (simp add: abs_thread_def point_at_sigsetjmp)
  ultimately show ?thesis
    using sc l assms(4) run
    by (simp add: save_current_execution_context_def save_after_def)
qed

subsection \<open>The queue\<close>

lemma wp_set_state:
  assumes "rep_ok s" and "a_threads (view K s) t \<noteq> None"
    and "\<And>l s'. rep_ok s' \<Longrightarrow> view K s' = a_update t (\<lambda>th. th\<lparr>a_state := x\<rparr>) (view K s) \<Longrightarrow> R () s'"
  shows "wp R J E F (bind_op (get_thread t) (\<lambda>l. update_obj l (\<lambda>th. th\<lparr>state := x\<rparr>))) s"
proof -
  obtain sc where sc: "scheduler s = Some sc" "rep_with sc s" using assms(1) by (rule rep_okE)
  obtain l th where l: "map_find (threads sc) t = Some l" "heap s l = Some th" "env_ok (env th)"
    using existing_thread [OF sc(2) assms(2)] by metis
  have "rep_ok (s\<lparr>heap := (heap s)(l \<mapsto> th\<lparr>state := x\<rparr>)\<rparr>)"
    by (rule rep_okI [OF rep_with_heap_update [OF sc(2) l(1)]]) (simp add: l(3))
  moreover have "view K (s\<lparr>heap := (heap s)(l \<mapsto> th\<lparr>state := x\<rparr>)\<rparr>) =
      a_update t (\<lambda>th. th\<lparr>a_state := x\<rparr>) (view K s)"
    by (rule view_heap_update [OF sc(2) l(1,2)]) (simp add: abs_thread_def)
  ultimately show ?thesis
    using sc l assms(3) by simp
qed

lemma wp_set_sched:
  assumes "rep_ok s"
    and "\<And>sc. threads (f sc) = threads sc" and "\<And>sc. sig_set (f sc) = sig_set sc"
    and "\<And>sc. total_quantums (f sc) = total_quantums sc"
    and "\<And>sc s'. scheduler s = Some sc \<Longrightarrow> rep_ok s' \<Longrightarrow>
      view K s' = (view K s)
        \<lparr>a_ready := ready_threads (f sc), a_blocked := blocked_threads (f sc),
         a_sleeping := sleeping_threads (f sc), a_running := running_thread_tid (f sc),
         a_total := total_quantums sc\<rparr> \<Longrightarrow> R () s'"
  shows "wp R J E F (set_this f) s"
proof -
  obtain sc where sc: "scheduler s = Some sc" "rep_with sc s" using assms(1) by (rule rep_okE)
  have "rep_ok (s\<lparr>scheduler := Some (f sc)\<rparr>)"
    by (rule rep_okI [OF rep_with_sched_update [OF sc(2) assms(2,3)]])
      (simp add: assms(4) rep_withD(8) [OF sc(2)])
  with view_sched_update [OF sc(1) assms(2)] sc show ?thesis
    using assms(4,5) by simp
qed

lemma lib_same_fields:
  "a\<lparr>a_ready := a_ready a, a_blocked := a_blocked a, a_sleeping := a_sleeping a,
     a_running := a_running a, a_total := a_total a\<rparr> = a"
  by simp

lemma wp_push_ready:
  assumes "rep_ok s"
    and "\<And>s'. rep_ok s' \<Longrightarrow> view K s' = (view K s)\<lparr>a_ready := a_ready (view K s) @ [t]\<rparr> \<Longrightarrow> R () s'"
  shows "wp R J E F (set_this (\<lambda>sc. sc\<lparr>ready_threads := ready_threads sc @ [t]\<rparr>)) s"
  by (rule wp_set_sched [OF assms(1), where K = K]) (auto intro!: assms(2) simp: view_fields)

lemma wp_ready_thread:
  assumes "rep_ok s" and "a_threads (view K s) t \<noteq> None"
    and "\<And>s'. rep_ok s' \<Longrightarrow> view K s' = a_enqueue t (view K s) \<Longrightarrow> R () s'"
  shows "wp R J E F (ready_thread t) s"
proof -
  let ?v = "a_update t (\<lambda>th. th\<lparr>a_state := READY\<rparr>) (view K s)"
  let ?rest = "bind_op this (\<lambda>sc.
     if map_find (sleeping_threads sc) t = None
     then set_this (\<lambda>sc. sc\<lparr>ready_threads := ready_threads sc @ [t]\<rparr>) else ret ())"
  have rest: "wp R J E F ?rest s'" if s': "rep_ok s'" "view K s' = ?v" for s'
  proof -
    obtain sc where sc: "scheduler s' = Some sc" using s'(1) by (elim rep_okE)
    have sl: "sleeping_threads sc = a_sleeping (view K s)"
      using view_fields(3) [OF sc, of K] s'(2) by (simp add: a_update_def)
    show ?thesis
    proof (cases "map_find (a_sleeping (view K s)) t = None")
      case True
      have "wp R J E F (set_this (\<lambda>sc. sc\<lparr>ready_threads := ready_threads sc @ [t]\<rparr>)) s'"
        by (rule wp_push_ready [OF s'(1), where K = K], rule assms(3))
          (simp_all add: s'(2) a_enqueue_def True a_update_def)
      with True sc sl show ?thesis by simp
    next
      case False
      with s' assms(3) [of s'] have "R () s'" by (simp add: a_enqueue_def)
      with False sc sl show ?thesis by auto
    qed
  qed
  have "wp (\<lambda>_. wp R J E F ?rest) J E F
      (bind_op (get_thread t) (\<lambda>l. update_obj l (\<lambda>th. th\<lparr>state := READY\<rparr>))) s"
    by (rule wp_set_state [OF assms(1,2)]) (rule rest)
  then show ?thesis by (simp add: ready_thread_def)
qed

subsection \<open>Waking up\<close>

text \<open>The keys the loop collects and what it appends to the queue.\<close>

definition woken :: "lib \<Rightarrow> (tid \<times> nat) list \<Rightarrow> tid list" where
  "woken a m = map fst (filter (\<lambda>e. due (snd e) (a_total a) \<and> a_status a (fst e) = Some READY) m)"

lemma wp_collect_awake:
  assumes "rep_ok s"
    and "\<forall>e \<in> set m. a_threads (view K s) (fst e) \<noteq> None"
    and "\<And>s'. \<forall>e \<in> set m. in_int (int_of_size_t (snd e) - 1) \<Longrightarrow> rep_ok s' \<Longrightarrow>
      view K s' = (view K s)\<lparr>a_ready := a_ready (view K s) @ woken (view K s) m\<rparr> \<Longrightarrow>
      R (awake @ map fst (filter (\<lambda>e. due (snd e) (a_total (view K s))) m)) s'"
    and "\<not> (\<forall>e \<in> set m. in_int (int_of_size_t (snd e) - 1)) \<Longrightarrow> F Signed_overflow"
  shows "wp R J E F (collect_awake m awake) s"
  using assms
proof (induction m arbitrary: s awake)
  case Nil
  then show ?case by (simp add: woken_def)
next
  case (Cons e m)
  obtain t v where e: "e = (t, v)" by force
  obtain sc where sc: "scheduler s = Some sc" "rep_with sc s" using Cons.prems(1) by (rule rep_okE)
  have "a_threads (view K s) t \<noteq> None" using Cons.prems(2) e by simp
  then obtain l th where l: "map_find (threads sc) t = Some l" "heap s l = Some th"
    and th: "a_threads (view K s) t = Some (abs_thread K th)"
    using existing_thread [OF sc(2)] by metis
  have tot: "a_total (view K s) = total_quantums sc" using sc by (simp add: view_fields)
  have st: "a_status (view K s) t = Some (state th)" using th by (simp add: a_status_def abs_thread_def)
  show ?case
  proof (cases "in_int (int_of_size_t v - 1)")
    case False
    then show ?thesis using Cons.prems(4) sc l by (simp add: e)
  next
    case True
    note ov = Cons.prems(4)
    have ov': "\<not> (\<forall>e \<in> set m. in_int (int_of_size_t (snd e) - 1)) \<Longrightarrow> F Signed_overflow"
      using ov by auto
    show ?thesis
    proof (cases "due v (total_quantums sc)")
      case not_due: False
      have "wp R J E F (collect_awake m awake) s"
        using Cons.prems(1-3) not_due tot ov' True
        by (intro Cons.IH) (auto simp: e woken_def)
      with True not_due sc l show ?thesis by (simp add: e due_def)
    next
      case is_due: True
      show ?thesis
      proof (cases "state th = READY")
        case ready: True
        have "wp (\<lambda>_. wp R J E F (collect_awake m (awake @ [t]))) J E F
            (set_this (\<lambda>sc. sc\<lparr>ready_threads := ready_threads sc @ [t]\<rparr>)) s"
        proof (rule wp_push_ready [OF Cons.prems(1), where K = K])
          fix s1
          assume s1: "rep_ok s1" "view K s1 = (view K s)\<lparr>a_ready := a_ready (view K s) @ [t]\<rparr>"
          show "wp R J E F (collect_awake m (awake @ [t])) s1"
            using Cons.prems(2,3) is_due tot ready st s1 ov' True
            by (intro Cons.IH) (auto simp: e woken_def)
        qed
        with True is_due ready sc l show ?thesis by (simp add: e due_def)
      next
        case not_ready: False
        have "wp R J E F (collect_awake m (awake @ [t])) s"
          using Cons.prems(1-3) is_due tot not_ready st ov' True
          by (intro Cons.IH) (auto simp: e woken_def)
        with True is_due not_ready sc l show ?thesis by (simp add: e due_def)
      qed
    qed
  qed
qed

lemma wp_erase_sleepers:
  assumes "rep_ok s"
    and "\<And>s'. rep_ok s' \<Longrightarrow>
      view K s' = (view K s)\<lparr>a_sleeping := fold map_erase ts (a_sleeping (view K s))\<rparr> \<Longrightarrow> R () s'"
  shows "wp R J E F (for_each ts (\<lambda>t.
     set_this (\<lambda>sc. sc\<lparr>sleeping_threads := map_erase t (sleeping_threads sc)\<rparr>))) s"
  using assms
proof (induction ts arbitrary: s)
  case Nil
  then show ?case by simp
next
  case (Cons t ts)
  have "wp (\<lambda>_. wp R J E F (for_each ts (\<lambda>t.
      set_this (\<lambda>sc. sc\<lparr>sleeping_threads := map_erase t (sleeping_threads sc)\<rparr>)))) J E F
      (set_this (\<lambda>sc. sc\<lparr>sleeping_threads := map_erase t (sleeping_threads sc)\<rparr>)) s"
    by (rule wp_set_sched [OF Cons.prems(1), where K = K])
      (auto intro!: Cons.IH Cons.prems(2) simp: view_fields)
  then show ?case by simp
qed

lemma filter_not_due:
  assumes "map_ok m"
  shows "filter (\<lambda>e. fst e \<notin> set (map fst (filter P m))) m = filter (\<lambda>e. \<not> P e) m"
proof (rule filter_cong [OF refl])
  fix e
  assume e: "e \<in> set m"
  have "fst e \<in> set (map fst (filter P m)) \<longleftrightarrow> (\<exists>e' \<in> set m. P e' \<and> fst e = fst e')"
    unfolding set_map set_filter image_def by blast
  also have "\<dots> \<longleftrightarrow> P e"
    using std.distinct_keys [OF assms] e by (metis eq_key_imp_eq_value prod.collapse)
  finally show "(fst e \<notin> set (map fst (filter P m))) = (\<not> P e)" by simp
qed

lemma wp_handle_sleep_threads:
  assumes "rep_ok s" and "map_ok (a_sleeping (view K s))"
    and "\<And>t. map_find (a_sleeping (view K s)) t \<noteq> None \<Longrightarrow> a_threads (view K s) t \<noteq> None"
    and "\<And>s'. \<forall>e \<in> set (a_sleeping (view K s)). in_int (int_of_size_t (snd e) - 1) \<Longrightarrow> rep_ok s' \<Longrightarrow>
      view K s' = a_wake (view K s) \<Longrightarrow> R () s'"
    and "\<not> arith_ok (view K s) \<Longrightarrow> F Signed_overflow"
  shows "wp R J E F handle_sleep_threads s"
proof -
  obtain sc where sc: "scheduler s = Some sc" using assms(1) by (elim rep_okE)
  let ?a = "view K s"
  let ?m = "a_sleeping ?a"
  let ?awake = "map fst (filter (\<lambda>e. due (snd e) (a_total ?a)) ?m)"
  let ?erase = "\<lambda>ts. for_each ts (\<lambda>t.
     set_this (\<lambda>sc. sc\<lparr>sleeping_threads := map_erase t (sleeping_threads sc)\<rparr>))"
  have m: "sleeping_threads sc = ?m" using sc by (simp add: view_fields)
  have keys: "\<forall>e \<in> set ?m. a_threads ?a (fst e) \<noteq> None"
    using assms(3) std.keys_entries [OF assms(2)] by blast
  have erase: "fold map_erase ?awake ?m = filter (\<lambda>e. \<not> due (snd e) (a_total ?a)) ?m"
    using assms(2) by (simp only: fold_map_erase_filter filter_not_due)
  have "wp (\<lambda>aw. wp R J E F (?erase aw)) J E F (collect_awake ?m []) s"
  proof (rule wp_collect_awake [OF assms(1) keys])
    fix s1
    assume arith: "\<forall>e \<in> set ?m. in_int (int_of_size_t (snd e) - 1)"
      and s1: "rep_ok s1" "view K s1 = ?a\<lparr>a_ready := a_ready ?a @ woken ?a ?m\<rparr>"
    show "wp R J E F (?erase ([] @ ?awake)) s1"
    proof (rule wp_erase_sleepers [OF s1(1), where K = K], rule assms(4) [OF arith])
      fix s2
      assume s2: "view K s2 = (view K s1)\<lparr>a_sleeping := fold map_erase ([] @ ?awake) (a_sleeping (view K s1))\<rparr>"
      show "view K s2 = a_wake ?a"
        unfolding s2 s1(2) using erase by (simp add: a_wake_def woken_def)
    qed
  next
    assume "\<not> (\<forall>e \<in> set ?m. in_int (int_of_size_t (snd e) - 1))"
    then show "F Signed_overflow" using assms(5) by (auto simp: arith_ok_def)
  qed
  with sc m show ?thesis by (simp add: handle_sleep_threads_def)
qed

subsection \<open>Dispatching\<close>

lemma wp_run_next_thread:
  assumes "rep_ok s" and "a_ready (view K s) \<noteq> []"
    and "a_threads (view K s) (hd (a_ready (view K s))) \<noteq> None"
    and "\<And>e s'. in_int (a_total (view K s) + 1) \<Longrightarrow> rep_ok s' \<Longrightarrow> env_ok e \<Longrightarrow>
      sig_mask s' = saved_mask e \<Longrightarrow> view K s' = (a_dispatch (view K s))\<lparr>a_masked := (SIGVTALRM \<in> saved_mask e)\<rparr> \<Longrightarrow>
      point_at K e = a_point_of (view K s) (hd (a_ready (view K s))) \<Longrightarrow> J e s'"
    and "\<not> arith_ok (view K s) \<Longrightarrow> F Signed_overflow"
  shows "wp R J E F run_next_thread s"
proof -
  obtain sc where sc: "scheduler s = Some sc" "rep_with sc s" using assms(1) by (rule rep_okE)
  obtain t q where q: "ready_threads sc = t # q"
    using assms(2) view_fields(1) [OF sc(1)] by (cases "ready_threads sc") auto
  have hd: "hd (a_ready (view K s)) = t" using q sc by (simp add: view_fields)
  obtain l th where l: "map_find (threads sc) t = Some l" "heap s l = Some th" "env_ok (env th)"
    and th: "a_threads (view K s) t = Some (abs_thread K th)"
    using existing_thread [OF sc(2)] assms(3) hd by metis
  let ?th = "th\<lparr>state := RUNNNING, quantum_t := size_add (quantum_t th) 1\<rparr>"
  let ?sc = "sc\<lparr>total_quantums := total_quantums sc + 1, running_thread_tid := t, ready_threads := q\<rparr>"
  let ?s1 = "s\<lparr>heap := (heap s)(l \<mapsto> ?th)\<rparr>"
  let ?s2 = "?s1\<lparr>scheduler := Some ?sc\<rparr>"
  let ?s3 = "?s2\<lparr>sig_mask := saved_mask (env th)\<rparr>"
  have w1: "rep_with sc ?s1"
    by (rule rep_with_heap_update [OF sc(2) l(1)]) (simp add: l(3))
  have v1: "view K ?s1 = a_update t
      (\<lambda>th. th\<lparr>a_state := RUNNNING, a_quantums := size_add (a_quantums th) 1\<rparr>) (view K s)"
    by (rule view_heap_update [OF sc(2) l(1,2)]) (simp add: abs_thread_def)
  have "rep_ok ?s3" if "in_int (total_quantums sc + 1)"
    using rep_with_sched_update [OF w1, of ?sc] that by (simp add: rep_okI in_int_def)
  moreover have "view K ?s3 = (a_dispatch (view K s))\<lparr>a_masked := (SIGVTALRM \<in> saved_mask (env th))\<rparr>"
    using view_sched_update [of ?s1 sc ?sc K] sc(1) v1 q
    by (simp add: a_dispatch_def a_update_def view_fields)
  moreover have "point_at K (env th) = a_point_of (view K s) t"
    using th by (simp add: a_point_of_def abs_thread_def)
  ultimately have J: "J (env th) ?s3" if "in_int (total_quantums sc + 1)"
    using that assms(4) l(3) hd view_fields(5) [OF sc(1), of K] by simp
  have "?s3 = s\<lparr>scheduler := Some ?sc, heap := (heap s)(l \<mapsto> ?th), sig_mask := saved_mask (env th)\<rparr>"
    by (rule process.equality) simp_all
  with J have J': "J (env th)
      (s\<lparr>scheduler := Some ?sc, heap := (heap s)(l \<mapsto> ?th), sig_mask := saved_mask (env th)\<rparr>)"
    if "in_int (total_quantums sc + 1)" using that by (simp only:)
  show ?thesis
  proof (cases "in_int (total_quantums sc + 1)")
    case True
    with sc q l J' show ?thesis
      by (simp add: run_next_thread_def wp_siglongjmp)
  next
    case False
    with assms(5) sc show ?thesis
      by (simp add: run_next_thread_def arith_ok_def view_fields)
  qed
qed

text \<open>The three ways out of a scheduling decision share its second half.\<close>

lemma status_SomeD: "a_status a t = Some x \<Longrightarrow> a_threads a t \<noteq> None"
  by (auto simp: a_status_def)

lemma sleeper_exists:
  assumes "a_core r a" and "map_find (a_sleeping a) t \<noteq> None"
  shows "a_threads a t \<noteq> None"
  using a_core_sleep [OF assms(1), of t] assms(2) by (auto dest: status_SomeD)

lemma front_exists:
  assumes "a_core None a"
  shows "a_status a (hd (a_ready a)) = Some READY" and "a_threads a (hd (a_ready a)) \<noteq> None"
proof -
  have "hd (a_ready a) \<in> set (a_ready a)" using ready_not_empty [OF assms] by simp
  then show "a_status a (hd (a_ready a)) = Some READY" using a_core_ready [OF assms] by blast
  then show "a_threads a (hd (a_ready a)) \<noteq> None" by (rule status_SomeD)
qed

text \<open>What a jump of the code promises to whoever continues: the dispatched contract state.\<close>

definition jumped :: "platform \<Rightarrow> lib \<Rightarrow> sigjmp_buf \<Rightarrow> process \<Rightarrow> bool" where
  "jumped K a e s \<longleftrightarrow> rep_ok s \<and> env_ok e \<and> sig_mask s = saved_mask e \<and>
     a_ready a \<noteq> [] \<and> resumable (point_at K e) \<and>
     view K s = (a_dispatch a)\<lparr>a_masked := (SIGVTALRM \<in> saved_mask e)\<rparr> \<and>
     point_at K e = a_point_of a (hd (a_ready a))"

lemma wp_dispatch:
  assumes "rep_ok s" and "a_core None (view K s)"
    and "\<And>e s'. in_int (a_total (view K s) + 1) \<Longrightarrow> jumped K (view K s) e s' \<Longrightarrow> J e s'"
    and "\<not> arith_ok (view K s) \<Longrightarrow> F Signed_overflow"
  shows "wp R J E F run_next_thread s"
proof (rule wp_run_next_thread [OF assms(1) ready_not_empty front_exists(2)])
  fix e s'
  assume h: "in_int (a_total (view K s) + 1)" "rep_ok s'" "env_ok e" "sig_mask s' = saved_mask e"
    "view K s' = (a_dispatch (view K s))\<lparr>a_masked := (SIGVTALRM \<in> saved_mask e)\<rparr>"
    "point_at K e = a_point_of (view K s) (hd (a_ready (view K s)))"
  have "resumable (a_point_of (view K s) (hd (a_ready (view K s))))"
    using front_exists [OF assms(2)] a_core_resumable [OF assms(2)]
    by (auto simp: a_point_of_def a_status_def)
  with h ready_not_empty [OF assms(2)] assms(3) show "J e s'" by (simp add: jumped_def)
qed (use assms in auto)

lemma wp_wake_and_dispatch:
  assumes "rep_ok s" and "a_core None (view K s)"
    and "\<And>e s'. arith_ok (view K s) \<Longrightarrow> jumped K (a_wake (view K s)) e s' \<Longrightarrow> J e s'"
    and "\<not> arith_ok (view K s) \<Longrightarrow> F Signed_overflow"
  shows "wp R J E F (seq_op handle_sleep_threads run_next_thread) s"
proof -
  have "wp (\<lambda>_. wp R J E F run_next_thread) J E F handle_sleep_threads s"
  proof (rule wp_handle_sleep_threads [OF assms(1) a_core_map_ok [OF assms(2)]])
    fix s'
    assume arith: "\<forall>e \<in> set (a_sleeping (view K s)). in_int (int_of_size_t (snd e) - 1)"
      and s': "rep_ok s'" "view K s' = a_wake (view K s)"
    have "in_int (a_total (view K s') + 1) \<Longrightarrow> arith_ok (view K s)" using arith s'(2) by (simp add: arith_ok_def)
    then show "wp R J E F run_next_thread s'"
      using s' a_core_wake [OF assms(2)] assms(3,4) arith_ok_wake
      by (intro wp_dispatch [where K = K]) auto
  qed (use assms sleeper_exists [OF assms(2)] in auto)
  then show ?thesis by simp
qed

lemma wp_reschedule:
  assumes "rep_ok s" and "a_core None (view K s)"
    and "\<And>e s'. arith_ok (view K s) \<Longrightarrow> jumped K (a_wake (view K s)) e s' \<Longrightarrow> J e s'"
    and "\<And>s'. \<not> sys_ok K \<Longrightarrow> E 1 s'"
    and "\<not> arith_ok (view K s) \<Longrightarrow> F Signed_overflow"
  shows "wp R J E F (seq_op (reset_time K) (seq_op handle_sleep_threads run_next_thread)) s"
proof -
  have "wp (\<lambda>_. wp R J E F (seq_op handle_sleep_threads run_next_thread)) J E F (reset_time K) s"
  proof (rule wp_reset_time [OF assms(1)])
    fix s'
    assume "rep_ok s'" "view K s' = view K s"
    then show "wp R J E F (seq_op handle_sleep_threads run_next_thread) s'"
      using assms(2,3,5) by (intro wp_wake_and_dispatch [where K = K]) auto
  qed (rule assms(4))
  then show ?thesis by simp
qed

subsection \<open>Continuing a saved context\<close>

lemma wp_save_after_1:
  assumes "rep_ok s" and "\<And>s'. rep_ok s' \<Longrightarrow> view K s' = (view K s)\<lparr>a_masked := False\<rparr> \<Longrightarrow> R 1 s'"
    and "\<And>s'. \<not> sys_ok K \<Longrightarrow> E 1 s'"
  shows "wp R J E F (save_after K 1) s"
  using wp_unblock_signals [where R = "\<lambda>_. R 1" and K = K and E = E and J = J and F = F, OF assms(1)]
    assms(2,3)
  by (simp add: save_after_def)

lemma wp_resume_context:
  assumes j: "jumped K a e s"
    and R: "\<And>s'. rep_ok s' \<Longrightarrow> view K s' = snd (a_goes_on (a_dispatch a)) \<Longrightarrow>
      R (fst (a_goes_on (a_dispatch a))) s'"
    and E: "\<And>s'. \<not> sys_ok K \<Longrightarrow> E 1 s'"
  shows "wp R J E F (resume_context K e) s"
proof -
  have s: "rep_ok s" and e: "env_ok e" "sig_mask s = saved_mask e" "resumable (point_at K e)"
    and v: "view K s = (a_dispatch a)\<lparr>a_masked := (SIGVTALRM \<in> saved_mask e)\<rparr>"
    and p: "point_at K e = a_point_of a (hd (a_ready a))"
    using j by (auto simp: jumped_def)
  have "a_point_of (a_dispatch a) (hd (a_ready a)) = point_at K e"
    unfolding p by (simp add: a_point_of_def a_defs split: option.splits)
  then have ans: "fst (a_goes_on (a_dispatch a)) = answer_at (point_at K e)"
    and snd: "snd (a_goes_on (a_dispatch a)) = (view K s)\<lparr>a_masked := False\<rparr>"
    by (simp_all add: a_goes_on_def v)
  note R = R [unfolded ans snd]
  show ?thesis
  proof (cases "jmpbuf e ! JB_PC")
    case (Stored w)
    then have "saved_mask e = {}" using e(1) by (simp add: env_ok_def)
    then have "R (Started (demangle K w)) s"
      using R [OF s] Stored v by (simp add: point_at_def)
    with Stored e(3) show ?thesis
      by (simp add: resume_context_def resumable_def point_at_def Let_def)
  next
    case (Saved site)
    show ?thesis
    proof (cases site)
      case In_Thread_ctor
      with Saved e(3) show ?thesis by (simp add: point_at_def resumable_def)
    next
      case In_change_thread
      have "wp (\<lambda>r. wp R J E F (seq_op (change_thread_after K r)
          (seq_op (modify (\<lambda>s. s\<lparr>sig_mask := saved_mask e - {SIGVTALRM}\<rparr>)) (ret Continued)))) J E F
          (save_after K 1) s"
        by (rule wp_save_after_1 [OF s])
          (use R E Saved In_change_thread in \<open>auto simp: change_thread_after_def point_at_def\<close>)
      with Saved In_change_thread show ?thesis by (simp add: resume_context_def)
    next
      case In_block_thread
      have "wp (\<lambda>r. wp R J E F (seq_op (block_thread_after K r)
          (bind_op (uthread_block_after K) (\<lambda>v. ret (Returned v))))) J E F (save_after K 1) s"
        by (rule wp_save_after_1 [OF s])
          (use R E Saved In_block_thread in \<open>auto simp: block_thread_after_def uthread_block_after_def
            point_at_def intro!: wp_unblock_signals [where K = K]\<close>)
      with Saved In_block_thread show ?thesis by (simp add: resume_context_def)
    next
      case In_sleep_running_thread
      have "wp (\<lambda>r. wp R J E F (seq_op (sleep_after K 0 r)
          (bind_op (uthread_sleep_after K) (\<lambda>v. ret (Returned v))))) J E F (save_after K 1) s"
        by (rule wp_save_after_1 [OF s])
          (use R E Saved In_sleep_running_thread in \<open>auto simp: sleep_after_def uthread_sleep_after_def
            point_at_def intro!: wp_unblock_signals [where K = K]\<close>)
      with Saved In_sleep_running_thread show ?thesis by (simp add: resume_context_def)
    qed
  qed
qed

end
