(* ===== verification/RefineApi.thy ===== *)
theory RefineApi
  imports RefineSched
begin

text \<open>
  Every API function and the timer handler implement their contract operation. The thread table
  changes here: creation and removal of threads come first, then one theorem per API function,
  collected in \<open>run_action_implements\<close>.
\<close>

subsection \<open>The mask in the contract\<close>

lemma masked_outward [simp]:
  "a_wake (a\<lparr>a_masked := x\<rparr>) = (a_wake a)\<lparr>a_masked := x\<rparr>"
  "a_update t f (a\<lparr>a_masked := x\<rparr>) = (a_update t f a)\<lparr>a_masked := x\<rparr>"
  "a_enqueue t (a\<lparr>a_masked := x\<rparr>) = (a_enqueue t a)\<lparr>a_masked := x\<rparr>"
  "a_dispatch (a\<lparr>a_masked := x\<rparr>) = (a_dispatch a)\<lparr>a_masked := x\<rparr>"
  "a_leave st p (a\<lparr>a_masked := x\<rparr>) = (a_leave st p a)\<lparr>a_masked := x\<rparr>"
  "a_to_sleep n (a\<lparr>a_masked := x\<rparr>) = (a_to_sleep n a)\<lparr>a_masked := x\<rparr>"
  "a_forget t (a\<lparr>a_masked := x\<rparr>) = (a_forget t a)\<lparr>a_masked := x\<rparr>"
  by (simp_all add: a_wake_def a_defs a_to_sleep_def)

lemma goes_on_masked [simp]: "a_goes_on (a\<lparr>a_masked := x\<rparr>) = a_goes_on a"
  by (simp add: a_goes_on_def a_point_of_def)

lemma return_masked [simp]: "a_return v (a\<lparr>a_masked := x\<rparr>) = a_return v a"
  by (simp add: a_return_def)

lemma arith_ok_masked [simp]: "arith_ok (a\<lparr>a_masked := x\<rparr>) = arith_ok a"
  by (simp add: arith_ok_def)

subsection \<open>The deque loop\<close>

text \<open>On a deque without duplicates the erasing loop keeps exactly the other elements.\<close>

lemma remove_from_deque_filter:
  "distinct q \<Longrightarrow> remove_from_deque t i q = take i q @ filter (\<lambda>u. u \<noteq> t) (drop i q)"
proof (induction t i q rule: remove_from_deque.induct)
  case (1 t i q)
  show ?case
  proof (cases "i < length q")
    case False
    then show ?thesis by (simp add: remove_from_deque.simps)
  next
    case True
    then have drop: "drop i q = q ! i # drop (Suc i) q" by (simp add: Cons_nth_drop_Suc)
    let ?q = "if q ! i = t then take i q @ drop (Suc i) q else q"
    have split: "q = take i q @ q ! i # drop (Suc i) q" using True by (rule id_take_nth_drop)
    with "1.prems" have d: "distinct (take i q @ q ! i # drop (Suc i) q)" by (simp only: split [symmetric])
    then have "distinct ?q" using "1.prems" by simp
    then have IH: "remove_from_deque t (Suc i) ?q = take (Suc i) ?q @ filter (\<lambda>u. u \<noteq> t) (drop (Suc i) ?q)"
      using "1.IH" [OF True] by simp
    show ?thesis
    proof (cases "q ! i = t")
      case False
      then show ?thesis using True IH drop
        by (subst remove_from_deque.simps) (simp add: take_Suc_conv_app_nth)
    next
      case hit: True
      have "t \<notin> set (drop (Suc i) q)"
        using d hit by simp
      moreover have "drop (Suc i) ?q = drop (Suc (Suc i)) q"
        using hit True by (simp add: min_absorb2)
      ultimately have "t \<notin> set (drop (Suc i) ?q)" and rest: "filter (\<lambda>u. u \<noteq> t) (drop i q) = drop (Suc i) q"
        using hit drop set_drop_subset_set_drop [of "Suc i" "Suc (Suc i)" q] by auto
      then have "remove_from_deque t (Suc i) ?q = ?q" using IH by simp
      with True hit rest show ?thesis by (subst remove_from_deque.simps) simp
    qed
  qed
qed

text \<open>
  \<open>remove_thread_from_ready\<close> goes on to the next index even after it erased an element, so it
  skips the element behind; since a tid is at most once in the ready queue, it still removes
  exactly that tid and keeps the others in order.
\<close>

lemma remove_from_deque_correct:
  assumes "distinct q"
  shows "remove_from_deque t 0 q = filter (\<lambda>u. u \<noteq> t) q"
  using remove_from_deque_filter [OF assms, of t 0] by simp

lemma wp_remove_from_ready:
  assumes "rep_ok s" and "distinct (a_ready (view K s))"
    and "\<And>s'. rep_ok s' \<Longrightarrow>
      view K s' = (view K s)\<lparr>a_ready := filter (\<lambda>u. u \<noteq> t) (a_ready (view K s))\<rparr> \<Longrightarrow> R () s'"
  shows "wp R J E F (remove_thread_from_ready t) s"
  unfolding remove_thread_from_ready_def
  by (rule wp_set_sched [OF assms(1), where K = K])
    (use assms(2) in \<open>auto intro!: assms(3) simp: view_fields remove_from_deque_filter\<close>)

subsection \<open>Reading the thread table\<close>

lemma wp_check_view:
  assumes "rep_ok s" and "R (a_threads (view K s) t \<noteq> None) s"
  shows "wp R J E F (check_thread t) s"
proof -
  obtain sc where sc: "scheduler s = Some sc" "rep_with sc s" using assms(1) by (rule rep_okE)
  with assms(2) a_threads_None_iff [OF sc(2)] show ?thesis by simp
qed

lemma wp_update_at:
  assumes "rep_with sc s" and "map_find (threads sc) t = Some l" and "heap s l = Some th"
    and "env (f th) = env th" and "abs_thread K (f th) = g (abs_thread K th)"
    and "\<And>s'. rep_with sc s' \<Longrightarrow> view K s' = a_update t g (view K s) \<Longrightarrow> R () s'"
  shows "wp R J E F (update_obj l f) s"
proof -
  obtain th' where "heap s l = Some th'" "env_ok (env th')"
    using rep_withD(5) [OF assms(1,2)] by blast
  then have "env_ok (env (f th))" using assms(3,4) by simp
  then have "rep_with sc (s\<lparr>heap := (heap s)(l \<mapsto> f th)\<rparr>)"
    by (rule rep_with_heap_update [OF assms(1,2)])
  moreover have "view K (s\<lparr>heap := (heap s)(l \<mapsto> f th)\<rparr>) = a_update t g (view K s)"
    by (rule view_heap_update [OF assms(1-3)]) (rule assms(5))
  ultimately show ?thesis using assms(3,6) by simp
qed

subsection \<open>Creating a thread\<close>

lemma threads_bound:
  assumes "rep_with sc s" and "\<And>t. a_threads (view K s) t \<noteq> None \<Longrightarrow> int t < MAX_THREAD_NUM"
  shows "int (length (threads sc)) \<le> MAX_THREAD_NUM"
proof -
  have "dom (map_find (threads sc)) \<subseteq> {0..<nat MAX_THREAD_NUM}"
    using assms(2) a_threads_None_iff [OF assms(1), of K] by (auto simp: MAX_THREAD_NUM_def)
  then have "card (dom (map_find (threads sc))) \<le> card {0..<nat MAX_THREAD_NUM}"
    by (intro card_mono) auto
  then show ?thesis
    using std.length_entries [OF rep_withD(2) [OF assms(1)]] by (simp add: MAX_THREAD_NUM_def)
qed

definition a_create :: "tid \<Rightarrow> addr \<Rightarrow> lib \<Rightarrow> lib" where
  "a_create t ep a = a\<lparr>a_threads := (a_threads a)(t \<mapsto> \<lparr>a_state = READY, a_quantums = 0, a_point = Entry ep\<rparr>),
     a_ready := a_ready a @ [t]\<rparr>"

lemma create_thread:
  assumes "rep_with sc s" and "mangling_ok K" and "a_threads (view K s) t = None"
    and sc': "threads sc' = map_assign t (next_obj s) (threads sc)" "sig_set sc' = sig_set sc"
      "total_quantums sc' = total_quantums sc"
    and ctor: "th = Thread_ctor K (next_obj s) M READY 0 True ep"
    and s': "s' = s\<lparr>heap := (heap s)(next_obj s \<mapsto> th), next_obj := Suc (next_obj s), scheduler := Some sc'\<rparr>"
  shows "rep_with sc' s'" and "thr s' = (thr s)(t \<mapsto> th)"
    and "abs_thread K th = \<lparr>a_state = READY, a_quantums = 0, a_point = Entry ep\<rparr>"
proof -
  note w = rep_withD [OF assms(1)]
  have find: "map_find (threads sc') = (map_find (threads sc))(t \<mapsto> next_obj s)"
    using std.find_assign [OF w(2)] sc'(1) by simp
  have new: "map_find (threads sc) u \<noteq> Some (next_obj s)" for u
    using w(5) [of u "next_obj s"] w(7) [of "next_obj s"] by auto
  have "env_ok (env th)" by (simp add: ctor env_ok_def)
  then show "rep_with sc' s'"
    using w new find std.ok_assign [OF w(2)] sc' unfolding rep_with_def s'
    by (fastforce simp: less_Suc_eq split: if_splits)
  show "thr s' = (thr s)(t \<mapsto> th)"
    using new w(1) find by (auto simp: thr_def s' fun_eq_iff split: option.splits)
  show "abs_thread K th = \<lparr>a_state = READY, a_quantums = 0, a_point = Entry ep\<rparr>"
    using assms(2) by (simp add: abs_thread_def ctor point_at_def mangling_ok_def)
qed

lemma wp_add_new_thread_from:
  assumes "rep_ok s" and "mangling_ok K" and "i + n \<le> nat MAX_THREAD_NUM"
    and "\<And>t. a_threads (view K s) t \<noteq> None \<Longrightarrow> int t < MAX_THREAD_NUM"
    and "List.find (\<lambda>t. a_threads (view K s) t = None) [i..<i + n] = None \<Longrightarrow> R (- 1) s"
    and "\<And>t s'. List.find (\<lambda>t. a_threads (view K s) t = None) [i..<i + n] = Some t \<Longrightarrow>
      rep_ok s' \<Longrightarrow> view K s' = a_create t ep (view K s) \<Longrightarrow> R (int t) s'"
  shows "wp R J E F (add_new_thread_from n K READY 0 True ep (int i)) s"
  using assms(3,5,6)
proof (induction n arbitrary: i)
  case 0
  then show ?case by (simp add: wp_def ret_def)
next
  case (Suc n)
  obtain sc where sc: "scheduler s = Some sc" "rep_with sc s" using assms(1) by (rule rep_okE)
  have i: "size_t_of_int (int i) = i"
    using Suc.prems(1) by (simp add: size_t_of_int_nonneg int_limits MAX_THREAD_NUM_def)
  have range: "[i..<i + Suc n] = i # [Suc i..<Suc i + n]"
    by (simp add: upt_conv_Cons)
  show ?case
  proof (cases "a_threads (view K s) i = None")
    case False
    have "wp R J E F (add_new_thread_from n K READY 0 True ep (int (Suc i))) s"
      using Suc.prems False range by (intro Suc.IH) auto
    with False sc i a_threads_None_iff [OF sc(2), of K i] show ?thesis
      by (simp add: wp_def check_thread_def this_def bind_op_def seq_op_def ret_def add.commute)
  next
    case free: True
    then have nf: "map_find (threads sc) i = None" using a_threads_None_iff [OF sc(2)] by simp
    have small: "\<not> MAX_THREAD_NUM < int (length (threads sc))"
      using threads_bound [OF sc(2), of K] assms(4) by fastforce
    let ?th = "Thread_ctor K (next_obj s) (sig_mask s) READY 0 True ep"
    let ?sc = "sc\<lparr>threads := map_assign i (next_obj s) (threads sc), ready_threads := ready_threads sc @ [i]\<rparr>"
    let ?s = "s\<lparr>heap := (heap s)(next_obj s \<mapsto> ?th), next_obj := Suc (next_obj s), scheduler := Some ?sc\<rparr>"
    note new = create_thread [OF sc(2) assms(2) free, of ?sc ?th "sig_mask s" ep ?s]
    have "rep_ok ?s" by (rule rep_okI [OF new(1)]) simp_all
    moreover have "view K ?s = a_create i ep (view K s)"
    proof -
      have "thr ?s = (thr s)(i \<mapsto> ?th)" by (rule new(2)) simp_all
      moreover have "abs_thread K ?th = \<lparr>a_state = READY, a_quantums = 0, a_point = Entry ep\<rparr>"
        by (rule new(3)) simp_all
      ultimately show ?thesis
        using sc by (simp add: view_def a_create_def Let_def fun_eq_iff)
    qed
    moreover have "List.find (\<lambda>t. a_threads (view K s) t = None) [i..<i + Suc n] = Some i"
      using free range by simp
    ultimately have "R (int i) ?s" using Suc.prems(3) by blast
    with sc i nf small show ?thesis
      by (simp add: wp_def check_thread_def this_def set_this_def set_thread_def new_Thread_def comb_defs)
  qed
qed

lemma wp_add_new_thread:
  assumes "rep_ok s" and "mangling_ok K"
    and "\<And>t. a_threads (view K s) t \<noteq> None \<Longrightarrow> int t < MAX_THREAD_NUM"
    and "free_tid (view K s) = None \<Longrightarrow> R (- 1) s"
    and "\<And>t s'. free_tid (view K s) = Some t \<Longrightarrow> rep_ok s' \<Longrightarrow> view K s' = a_create t ep (view K s) \<Longrightarrow>
      R (int t) s'"
  shows "wp R J E F (add_new_thread K READY 0 True ep) s"
  using wp_add_new_thread_from [OF assms(1,2), of 0 "nat MAX_THREAD_NUM" R ep J E F] assms(3-5)
  by (simp add: add_new_thread_def free_tid_def)

end
