(* ===== verification/RefineCalls.thy ===== *)
theory RefineCalls
  imports RefineApi
begin

text \<open>
  What it means that an API function implements its contract operation, and the proof for the
  functions that neither switch nor remove a thread: the three getters and
  \<open>uthread_spawn\<close>.
\<close>

subsection \<open>What an API function must do\<close>

text \<open>The actions after which another thread is dispatched.\<close>

fun gives_up :: "action \<Rightarrow> lib \<Rightarrow> bool" where
  "gives_up Tick a = (\<not> a_masked a)"
| "gives_up (Call (Terminate tid)) a = (size_t_of_int tid = a_running a)"
| "gives_up (Call (Block tid)) a = (tid \<noteq> 0 \<and> size_t_of_int tid = a_running a)"
| "gives_up (Call (Sleep n)) a = (0 < n \<and> a_running a \<noteq> 0)"
| "gives_up _ a = False"

text \<open>
  No \<open>int\<close> computation of an action overflows. Only scheduling decisions compute; a sleeper is in
  the table when the decision is made.
\<close>

fun act_arith :: "action \<Rightarrow> lib \<Rightarrow> bool" where
  "act_arith (Call (Sleep n)) a = (gives_up (Call (Sleep n)) a \<longrightarrow> arith_ok (a_to_sleep n a))"
| "act_arith act a = (gives_up act a \<longrightarrow> arith_ok a)"

text \<open>
  \<open>implements K g sw ok f s\<close>: run from \<open>s\<close>, the code \<open>f\<close> does what the contract operation \<open>g\<close>
  says: by the jump to the thread the contract dispatches if \<open>sw\<close> holds (the operation gives up
  the processor), by returning otherwise. It exits, with
  code 1, only after a failed system call, and its only undefined behaviour is an \<open>int\<close> overflow
  that \<open>ok\<close> excludes.
\<close>

definition implements ::
    "platform \<Rightarrow> (lib \<Rightarrow> answer \<times> lib) \<Rightarrow> bool \<Rightarrow> bool \<Rightarrow> answer sop \<Rightarrow> process \<Rightarrow> bool" where
  "implements K g sw ok f s \<longleftrightarrow>
     wp (\<lambda>v s'. rep_ok s' \<and> \<not> sw \<and> g (view K s) = (v, view K s'))
        (\<lambda>e s'. sw \<and> ok \<and> (\<exists>b. jumped K b e s' \<and> g (view K s) = a_goes_on (a_dispatch b)))
        (\<lambda>n s'. n = 1 \<and> \<not> sys_ok K)
        (\<lambda>u. u = Signed_overflow \<and> \<not> ok) f s"

lemma implementsI:
  assumes "\<And>R J E F. (\<And>v s'. rep_ok s' \<Longrightarrow> \<not> sw \<Longrightarrow> g (view K s) = (v, view K s') \<Longrightarrow> R v s') \<Longrightarrow>
      (\<And>b e s'. sw \<Longrightarrow> ok \<Longrightarrow> jumped K b e s' \<Longrightarrow> g (view K s) = a_goes_on (a_dispatch b) \<Longrightarrow> J e s') \<Longrightarrow>
      (\<And>s'. \<not> sys_ok K \<Longrightarrow> E 1 s') \<Longrightarrow>
      (\<not> ok \<Longrightarrow> F Signed_overflow) \<Longrightarrow> wp R J E F f s"
  shows "implements K g sw ok f s"
  unfolding implements_def by (rule assms) auto

subsection \<open>The bracket of signal calls around every API function\<close>

lemma wp_masked_call:
  assumes "rep_ok s"
    and "\<And>s'. rep_ok s' \<Longrightarrow> view K s' = (view K s)\<lparr>a_masked := True\<rparr> \<Longrightarrow> wp R J E F f s'"
    and "\<And>s'. \<not> sys_ok K \<Longrightarrow> E 1 s'"
  shows "wp R J E F (seq_op (block_signals K) f) s"
  using wp_block_signals [where R = "\<lambda>_. wp R J E F f", OF assms(1), of K E J F] assms(2,3) by simp

lemma wp_unblock_ret:
  assumes "rep_ok s"
    and "\<And>s'. rep_ok s' \<Longrightarrow> view K s' = (view K s)\<lparr>a_masked := False\<rparr> \<Longrightarrow> R v s'"
    and "\<And>s'. \<not> sys_ok K \<Longrightarrow> E 1 s'"
  shows "wp R J E F (seq_op (unblock_signals K) (ret v)) s"
  using wp_unblock_signals [where R = "\<lambda>_. R v", OF assms(1), of K E J F] assms(2,3) by simp

lemma wp_unblock_error:
  assumes "rep_ok s"
    and "\<And>s'. rep_ok s' \<Longrightarrow> view K s' = (view K s)\<lparr>a_masked := False\<rparr> \<Longrightarrow> R (- 1) s'"
    and "\<And>s'. \<not> sys_ok K \<Longrightarrow> E 1 s'"
  shows "wp R J E F (seq_op (unblock_signals K) (handleErrorLibrary m)) s"
  using wp_unblock_signals [where R = "\<lambda>_. wp R J E F (handleErrorLibrary m)", OF assms(1), of K E J F]
    assms(2,3)
  by (simp add: wp_simps)

lemma wp_returned:
  "wp (\<lambda>v. R (Returned v)) J E F f s \<Longrightarrow> wp R J E F (bind_op f (\<lambda>v. ret (Returned v))) s"
  by simp

lemma implements_callI:
  assumes "\<And>R J E F. (\<And>v s'. rep_ok s' \<Longrightarrow> \<not> sw \<Longrightarrow> g (view K s) = (Returned v, view K s') \<Longrightarrow> R v s') \<Longrightarrow>
      (\<And>b e s'. sw \<Longrightarrow> ok \<Longrightarrow> jumped K b e s' \<Longrightarrow> g (view K s) = a_goes_on (a_dispatch b) \<Longrightarrow> J e s') \<Longrightarrow>
      (\<And>s'. \<not> sys_ok K \<Longrightarrow> E 1 s') \<Longrightarrow>
      (\<not> ok \<Longrightarrow> F Signed_overflow) \<Longrightarrow> wp R J E F f s"
  shows "implements K g sw ok (bind_op f (\<lambda>v. ret (Returned v))) s"
  by (rule implementsI, rule wp_returned, rule assms) blast+

text \<open>The functions that never give up the processor.\<close>

lemma implements_stayI:
  assumes "\<And>R J E F. (\<And>v s'. rep_ok s' \<Longrightarrow> g (view K s) = (Returned v, view K s') \<Longrightarrow> R v s') \<Longrightarrow>
      (\<And>s'. \<not> sys_ok K \<Longrightarrow> E 1 s') \<Longrightarrow> wp R J E F f s"
  shows "implements K g False ok (bind_op f (\<lambda>v. ret (Returned v))) s"
  by (rule implements_callI, rule assms) blast+

subsection \<open>Functions that only read\<close>

lemma implements_get_tid:
  assumes "rep_ok s" and "a_inv (view K s)"
  shows "implements K (a_exec (Call Get_tid)) False ok (run_action K (Call Get_tid)) s"
proof -
  obtain sc where sc: "scheduler s = Some sc" "rep_with sc s" using assms(1) by (rule rep_okE)
  have "int (running_thread_tid sc) < MAX_THREAD_NUM"
    using a_core_tid [OF assms(2) [unfolded a_inv_def]] a_inv_running [OF assms(2)] view_fields(4) [OF sc(1)]
    by (metis option.distinct(1))
  then have "int_of_size_t (running_thread_tid sc) = int (running_thread_tid sc)"
    by (simp add: int_of_size_t_small int_limits MAX_THREAD_NUM_def)
  with sc assms(1) show ?thesis
    by (simp add: implements_def run_action_def uthread_get_tid_def get_running_thread_tid_def view_fields)
qed

lemma implements_get_total:
  assumes "rep_ok s"
  shows "implements K (a_exec (Call Get_total_quantums)) False ok (run_action K (Call Get_total_quantums)) s"
  unfolding run_action_def action.case run_api.simps
proof (rule implements_stayI)
  fix R J and E :: "int \<Rightarrow> process \<Rightarrow> bool" and F
  assume R: "\<And>v s'. rep_ok s' \<Longrightarrow> a_exec (Call Get_total_quantums) (view K s) = (Returned v, view K s') \<Longrightarrow> R v s'"
    and E: "\<And>s'. \<not> sys_ok K \<Longrightarrow> E 1 s'"
  show "wp R J E F (uthread_get_total_quantums K) s"
    unfolding uthread_get_total_quantums_def
  proof (rule wp_masked_call [OF assms, where K = K])
    fix s1
    assume s1: "rep_ok s1" "view K s1 = (view K s)\<lparr>a_masked := True\<rparr>"
    obtain sc where sc: "scheduler s1 = Some sc" using s1(1) by (elim rep_okE)
    have "wp R J E F (seq_op (unblock_signals K) (ret (total_quantums sc))) s1"
      by (rule wp_unblock_ret [OF s1(1), where K = K])
        (use R E s1 view_fields(5) [OF sc, of K] in \<open>auto simp: a_return_def\<close>)
    with sc show "wp R J E F (bind_op get_total_quantums
        (\<lambda>total. seq_op (unblock_signals K) (ret total))) s1"
      by (simp add: get_total_quantums_def)
  qed (rule E)
qed

lemma implements_get_quantums:
  assumes "rep_ok s"
  shows "implements K (a_exec (Call (Get_quantums tid))) False ok (run_action K (Call (Get_quantums tid))) s"
  unfolding run_action_def action.case run_api.simps
proof (rule implements_stayI)
  fix R J and E :: "int \<Rightarrow> process \<Rightarrow> bool" and F
  assume R: "\<And>v s'. rep_ok s' \<Longrightarrow> a_exec (Call (Get_quantums tid)) (view K s) = (Returned v, view K s') \<Longrightarrow> R v s'"
    and E: "\<And>s'. \<not> sys_ok K \<Longrightarrow> E 1 s'"
  let ?t = "size_t_of_int tid"
  show "wp R J E F (uthread_get_quantums K tid) s"
    unfolding uthread_get_quantums_def
  proof (rule wp_masked_call [OF assms, where K = K])
    fix s1
    assume s1: "rep_ok s1" "view K s1 = (view K s)\<lparr>a_masked := True\<rparr>"
    obtain sc where sc: "scheduler s1 = Some sc" "rep_with sc s1" using s1(1) by (rule rep_okE)
    show "wp R J E F (bind_op (check_thread ?t) (\<lambda>found.
       if \<not> found then seq_op (unblock_signals K) (handleErrorLibrary ''no thread with ID tid exists'')
       else bind_op (get_thread ?t) (\<lambda>l. bind_op (load l) (\<lambda>th.
         let quantum_thread = int_of_size_t (quantum_t th) in
         seq_op (unblock_signals K) (ret quantum_thread))))) s1"
    proof (cases "a_threads (view K s1) ?t = None")
      case True
      have "wp R J E F (seq_op (unblock_signals K) (handleErrorLibrary ''no thread with ID tid exists'')) s1"
        by (rule wp_unblock_error [OF s1(1), where K = K])
          (use True R E s1 in \<open>auto simp: a_return_def a_get_quantums_def\<close>)
      with True sc a_threads_None_iff [OF sc(2)] show ?thesis by auto
    next
      case False
      then obtain l th where l: "map_find (threads sc) ?t = Some l" "heap s1 l = Some th"
        and th: "a_threads (view K s1) ?t = Some (abs_thread K th)"
        using existing_thread [OF sc(2)] by metis
      have "wp R J E F (seq_op (unblock_signals K) (ret (int_of_size_t (quantum_t th)))) s1"
        by (rule wp_unblock_ret [OF s1(1), where K = K])
          (use th R E s1 in \<open>auto simp: a_return_def a_get_quantums_def abs_thread_def\<close>)
      with sc l show ?thesis by (simp add: Let_def)
    qed
  qed (rule E)
qed

subsection \<open>Spawn\<close>

lemma a_create_return: "a_spawn ep a =
    (if ep = 0 then (Returned (- 1), a\<lparr>a_masked := True\<rparr>)
     else case free_tid a of None \<Rightarrow> a_return (- 1) a | Some t \<Rightarrow> a_return (int t) (a_create t ep a))"
  by (simp add: a_spawn_def a_create_def split: option.split)

lemma free_tid_masked [simp]: "free_tid (a\<lparr>a_masked := x\<rparr>) = free_tid a"
  by (simp add: free_tid_def)

lemma create_masked [simp]: "a_create t ep (a\<lparr>a_masked := x\<rparr>) = (a_create t ep a)\<lparr>a_masked := x\<rparr>"
  by (simp add: a_create_def)

lemma implements_spawn:
  assumes "rep_ok s" and "mangling_ok K" and "a_inv (view K s)"
  shows "implements K (a_exec (Call (Spawn ep))) False ok (run_action K (Call (Spawn ep))) s"
  unfolding run_action_def action.case run_api.simps
proof (rule implements_stayI)
  fix R J and E :: "int \<Rightarrow> process \<Rightarrow> bool" and F
  assume R: "\<And>v s'. rep_ok s' \<Longrightarrow> a_exec (Call (Spawn ep)) (view K s) = (Returned v, view K s') \<Longrightarrow> R v s'"
    and E: "\<And>s'. \<not> sys_ok K \<Longrightarrow> E 1 s'"
  let ?rest = "\<lambda>tid. seq_op (if tid = FAILURE_ERROR
    then handleErrorLibrary ''Maximum number of threads delimited'' else ret 0)
    (seq_op (unblock_signals K) (ret tid))"
  show "wp R J E F (uthread_spawn K ep) s"
    unfolding uthread_spawn_def
  proof (rule wp_masked_call [OF assms(1), where K = K])
    fix s1
    assume s1: "rep_ok s1" "view K s1 = (view K s)\<lparr>a_masked := True\<rparr>"
    have bound: "int t < MAX_THREAD_NUM" if "a_threads (view K s1) t \<noteq> None" for t
      using a_core_tid [OF assms(3) [unfolded a_inv_def], of t] that s1(2) by (simp add: a_status_def)
    have "wp (\<lambda>tid. wp R J E F (?rest tid)) J E F (add_new_thread K READY 0 True ep) s1" if "ep \<noteq> 0"
    proof (rule wp_add_new_thread [OF s1(1) assms(2) bound])
      assume "free_tid (view K s1) = None"
      then have "wp (\<lambda>_. wp R J E F (seq_op (unblock_signals K) (ret (- 1)))) J E F
          (handleErrorLibrary ''Maximum number of threads delimited'') s1"
        unfolding wp_handleErrorLibrary using s1 R E that
        by (intro wp_unblock_ret [where K = K]) (auto simp: a_create_return a_return_def)
      then show "wp R J E F (?rest (- 1)) s1" by (simp add: handle_consts)
    next
      fix t s2
      assume t: "free_tid (view K s1) = Some t" and s2: "rep_ok s2" "view K s2 = a_create t ep (view K s1)"
      have "wp R J E F (seq_op (unblock_signals K) (ret (int t))) s2"
        using s1 s2 t R E that
        by (intro wp_unblock_ret [where K = K]) (auto simp: a_create_return a_return_def)
      then show "wp R J E F (?rest (int t)) s2" by (simp add: handle_consts)
    qed
    moreover have "wp R J E F (handleErrorLibrary ''Null entry_point'') s1" if "ep = 0"
      using s1 R that by (simp add: wp_simps a_spawn_def)
    ultimately show "wp R J E F (if ep = 0 then handleErrorLibrary ''Null entry_point''
      else bind_op (add_new_thread K READY 0 True ep) ?rest) s1" by simp
  qed (rule E)
qed

end
