(* ===== verification/RefineLeave.thy ===== *)
theory RefineLeave
  imports RefineCalls
begin

text \<open>
  \<open>uthread_resume\<close> and \<open>uthread_terminate\<close>: the thread leaves one of the waiting structures or
  the thread table.
\<close>

subsection \<open>Updates of the contract state\<close>

lemma masked_last:
  "a\<lparr>a_masked := x, a_threads := T\<rparr> = a\<lparr>a_threads := T, a_masked := x\<rparr>"
  "a\<lparr>a_masked := x, a_ready := q\<rparr> = a\<lparr>a_ready := q, a_masked := x\<rparr>"
  "a\<lparr>a_masked := x, a_blocked := b\<rparr> = a\<lparr>a_blocked := b, a_masked := x\<rparr>"
  "a\<lparr>a_masked := x, a_sleeping := m\<rparr> = a\<lparr>a_sleeping := m, a_masked := x\<rparr>"
  by simp_all

lemma arith_ok_cong [simp]:
  "arith_ok (a\<lparr>a_threads := T\<rparr>) = arith_ok a" "arith_ok (a\<lparr>a_ready := q\<rparr>) = arith_ok a"
  "arith_ok (a\<lparr>a_blocked := b\<rparr>) = arith_ok a" "arith_ok (a_update t f a) = arith_ok a"
  "arith_ok (a_enqueue t a) = arith_ok a" "arith_ok (a_leave st p a) = arith_ok a"
  by (simp_all add: arith_ok_def a_defs)

lemma a_status_masked [simp]: "a_status (a\<lparr>a_masked := x\<rparr>) t = a_status a t"
  by (simp add: a_status_def)

lemma a_update_fields [simp]:
  "a_ready (a_update t f a) = a_ready a" "a_blocked (a_update t f a) = a_blocked a"
  "a_sleeping (a_update t f a) = a_sleeping a" "a_total (a_update t f a) = a_total a"
  "a_running (a_update t f a) = a_running a" "a_masked (a_update t f a) = a_masked a"
  by (simp_all add: a_update_def)

lemma a_update_outward:
  "(a_update t f a)\<lparr>a_ready := q\<rparr> = a_update t f (a\<lparr>a_ready := q\<rparr>)"
  "(a_update t f a)\<lparr>a_blocked := b\<rparr> = a_update t f (a\<lparr>a_blocked := b\<rparr>)"
  "a_update t f (a_update t g a) = a_update t (\<lambda>x. f (g x)) a"
  by (simp_all add: a_update_def option.map_comp o_def)

lemma map_erase_absent: "map_ok m \<Longrightarrow> map_find m t = None \<Longrightarrow> map_erase t m = m"
  using std.keys_entries [of m] by (force simp: map_erase_filter intro!: filter_True)

lemma status_obj:
  assumes "rep_ok s" and "a_status (view K s) t = Some x"
  obtains sc l th where "scheduler s = Some sc" and "rep_with sc s" and "map_find (threads sc) t = Some l"
    and "heap s l = Some th" and "state th = x" and "env_ok (env th)"
proof -
  obtain sc where sc: "scheduler s = Some sc" "rep_with sc s" using assms(1) by (rule rep_okE)
  obtain l th where "map_find (threads sc) t = Some l" "heap s l = Some th" "env_ok (env th)"
    "a_threads (view K s) t = Some (abs_thread K th)"
    using existing_thread [OF sc(2) status_SomeD [OF assms(2)]] by metis
  with that [OF sc] assms(2) show ?thesis by (simp add: a_status_def abs_thread_def)
qed

lemma wp_check_status:
  assumes "rep_ok s" and "R (a_status (view K s) t \<noteq> None) s"
  shows "wp R J E F (check_thread t) s"
  by (rule wp_check_view [OF assms(1), where K = K]) (use assms(2) in \<open>simp add: a_status_def\<close>)

lemma wp_set_blocked:
  assumes "rep_ok s"
    and "\<And>s'. rep_ok s' \<Longrightarrow> view K s' = (view K s)\<lparr>a_blocked := f (a_blocked (view K s))\<rparr> \<Longrightarrow> R () s'"
  shows "wp R J E F (set_this (\<lambda>sc. sc\<lparr>blocked_threads := f (blocked_threads sc)\<rparr>)) s"
  by (rule wp_set_sched [OF assms(1), where K = K]) (auto intro!: assms(2) simp: view_fields)

lemma wp_set_sleeping:
  assumes "rep_ok s"
    and "\<And>s'. rep_ok s' \<Longrightarrow>
      view K s' = (view K s)\<lparr>a_sleeping := f (a_total (view K s)) (a_sleeping (view K s))\<rparr> \<Longrightarrow> R () s'"
  shows "wp R J E F (set_this (\<lambda>sc. sc\<lparr>sleeping_threads := f (total_quantums sc) (sleeping_threads sc)\<rparr>)) s"
  by (rule wp_set_sched [OF assms(1), where K = K]) (auto intro!: assms(2) simp: view_fields)

subsection \<open>Resume\<close>

lemma wp_unblock_thread:
  assumes "rep_ok s" and "a_status (view K s) t = Some x"
    and "x \<noteq> BLOCKED \<Longrightarrow> R () s"
    and "\<And>s'. x = BLOCKED \<Longrightarrow> rep_ok s' \<Longrightarrow>
      view K s' = (a_enqueue t (view K s))\<lparr>a_blocked := a_blocked (view K s) - {t}\<rparr> \<Longrightarrow> R () s'"
  shows "wp R J E F (unblock_thread t) s"
proof -
  obtain sc l th where sc: "scheduler s = Some sc" "map_find (threads sc) t = Some l" "heap s l = Some th"
    "state th = x"
    using assms(1,2) by (rule status_obj)
  show ?thesis
  proof (cases x)
    case BLOCKED
    have "wp (\<lambda>_. wp R J E F (set_this (\<lambda>sc. sc\<lparr>blocked_threads := blocked_threads sc - {t}\<rparr>))) J E F
        (ready_thread t) s"
      by (rule wp_ready_thread [OF assms(1) status_SomeD [OF assms(2)]], rule wp_set_blocked [where K = K])
        (use BLOCKED assms(4) in \<open>auto simp: a_defs\<close>)
    with sc BLOCKED show ?thesis by (simp add: unblock_thread_def)
  qed (use sc assms(3) in \<open>simp_all add: unblock_thread_def\<close>)
qed

lemma implements_resume:
  assumes "rep_ok s"
  shows "implements K (a_exec (Call (Resume tid))) False ok (run_action K (Call (Resume tid))) s"
  unfolding run_action_def action.case run_api.simps
proof (rule implements_stayI)
  fix R J and E :: "int \<Rightarrow> process \<Rightarrow> bool" and F
  assume R: "\<And>v s'. rep_ok s' \<Longrightarrow> a_exec (Call (Resume tid)) (view K s) = (Returned v, view K s') \<Longrightarrow> R v s'"
    and E: "\<And>s'. \<not> sys_ok K \<Longrightarrow> E 1 s'"
  let ?t = "size_t_of_int tid"
  let ?finish = "seq_op (unblock_signals K) (ret 0)"
  show "wp R J E F (uthread_resume K tid) s"
    unfolding uthread_resume_def
  proof (rule wp_masked_call [OF assms, where K = K], unfold wp_bind_op, rule wp_check_status [where K = K], assumption)
    fix s1
    assume s1: "rep_ok s1" "view K s1 = (view K s)\<lparr>a_masked := True\<rparr>"
    show "wp R J E F (if \<not> a_status (view K s1) ?t \<noteq> None
      then seq_op (unblock_signals K) (handleErrorLibrary ''The id is invalid'')
      else seq_op (unblock_thread ?t) ?finish) s1"
    proof (cases "a_status (view K s1) ?t")
      case None
      have "wp R J E F (seq_op (unblock_signals K) (handleErrorLibrary ''The id is invalid'')) s1"
        by (rule wp_unblock_error [OF s1(1), where K = K])
          (use None R E s1 in \<open>auto simp: a_return_def a_resume_def\<close>)
      with None show ?thesis by simp
    next
      case (Some x)
      have "wp (\<lambda>_. wp R J E F ?finish) J E F (unblock_thread ?t) s1"
        by (rule wp_unblock_thread [OF s1(1) Some]; rule wp_unblock_ret [where K = K], (assumption | rule s1(1))?)
          (use Some R E s1 in \<open>auto simp: a_return_def a_resume_def Let_def masked_last split: State.splits\<close>)
      with Some show ?thesis by simp
    qed
  qed (rule E)
qed

subsection \<open>Terminate\<close>

lemma erase_thread:
  assumes "rep_with sc s"
  shows "rep_with (sc\<lparr>threads := map_erase t (threads sc)\<rparr>)
      (s\<lparr>scheduler := Some (sc\<lparr>threads := map_erase t (threads sc)\<rparr>)\<rparr>)"
    and "view K (s\<lparr>scheduler := Some (sc\<lparr>threads := map_erase t (threads sc)\<rparr>)\<rparr>) =
      (view K s)\<lparr>a_threads := (a_threads (view K s))(t := None)\<rparr>"
proof -
  note w = rep_withD [OF assms]
  have find: "map_find (map_erase t (threads sc)) = (map_find (threads sc))(t := None)"
    by (rule std.find_erase [OF w(2)])
  show "rep_with (sc\<lparr>threads := map_erase t (threads sc)\<rparr>)
      (s\<lparr>scheduler := Some (sc\<lparr>threads := map_erase t (threads sc)\<rparr>)\<rparr>)"
    using w std.ok_erase [OF w(2)] unfolding rep_with_def by (auto simp: find split: if_splits)
  show "view K (s\<lparr>scheduler := Some (sc\<lparr>threads := map_erase t (threads sc)\<rparr>)\<rparr>) =
      (view K s)\<lparr>a_threads := (a_threads (view K s))(t := None)\<rparr>"
    using w(1) by (simp add: view_def Let_def thr_def find fun_eq_iff split: option.split)
qed

lemma wp_forget_sleeper:
  assumes "rep_ok s" and "map_ok (a_sleeping (view K s))"
    and "\<And>s'. rep_ok s' \<Longrightarrow>
      view K s' = (view K s)\<lparr>a_sleeping := map_erase t (a_sleeping (view K s))\<rparr> \<Longrightarrow> R 0 s'"
  shows "wp R J E F (bind_op this (\<lambda>sc.
     seq_op (if map_find (sleeping_threads sc) t \<noteq> None
             then set_this (\<lambda>sc. sc\<lparr>sleeping_threads := map_erase t (sleeping_threads sc)\<rparr>) else ret ())
            (ret 0))) s"
proof -
  obtain sc where sc: "scheduler s = Some sc" using assms(1) by (elim rep_okE)
  have sl: "sleeping_threads sc = a_sleeping (view K s)" using sc by (simp add: view_fields)
  have "wp (\<lambda>_. R 0) J E F (set_this (\<lambda>sc. sc\<lparr>sleeping_threads := map_erase t (sleeping_threads sc)\<rparr>)) s"
    using assms(1,3) by (rule wp_set_sleeping [where f = "\<lambda>_. map_erase t"])
  moreover have "R 0 s" if "map_find (a_sleeping (view K s)) t = None"
    using assms(1,3) map_erase_absent [OF assms(2) that] by simp
  ultimately show ?thesis using sc sl by simp
qed

lemma a_forget_eq:
  assumes "a_inv a"
  shows "a_status a t = Some READY \<Longrightarrow> a_forget t a = a\<lparr>a_threads := (a_threads a)(t := None),
      a_ready := filter (\<lambda>u. u \<noteq> t) (a_ready a), a_sleeping := map_erase t (a_sleeping a)\<rparr>"
    and "a_status a t = Some BLOCKED \<Longrightarrow> a_forget t a = a\<lparr>a_threads := (a_threads a)(t := None),
      a_blocked := a_blocked a - {t}, a_sleeping := map_erase t (a_sleeping a)\<rparr>"
proof -
  note c = a_coreD [OF assms [unfolded a_inv_def]]
  assume "a_status a t = Some READY"
  then have "a_blocked a - {t} = a_blocked a" using c(4) by auto
  then show "a_forget t a = a\<lparr>a_threads := (a_threads a)(t := None),
      a_ready := filter (\<lambda>u. u \<noteq> t) (a_ready a), a_sleeping := map_erase t (a_sleeping a)\<rparr>"
    by (simp add: a_forget_def)
next
  note c = a_coreD [OF assms [unfolded a_inv_def]]
  assume "a_status a t = Some BLOCKED"
  then have "t \<notin> set (a_ready a)" using c(3) by auto
  then show "a_forget t a = a\<lparr>a_threads := (a_threads a)(t := None),
      a_blocked := a_blocked a - {t}, a_sleeping := map_erase t (a_sleeping a)\<rparr>"
    by (simp add: a_forget_def)
qed

lemma wp_remove_thread:
  assumes "rep_ok s" and "a_inv (view K s)" and "t \<noteq> 0"
    and "\<And>s'. a_status (view K s) t = None \<Longrightarrow> rep_ok s' \<Longrightarrow> view K s' = view K s \<Longrightarrow> R (- 1) s'"
    and "\<And>s'. a_status (view K s) t \<in> {Some READY, Some BLOCKED} \<Longrightarrow> rep_ok s' \<Longrightarrow>
      view K s' = a_forget t (view K s) \<Longrightarrow> R 0 s'"
    and "\<And>e s'. a_status (view K s) t = Some RUNNNING \<Longrightarrow> arith_ok (view K s) \<Longrightarrow>
      jumped K (a_wake ((view K s)\<lparr>a_threads := (a_threads (view K s))(t := None)\<rparr>)) e s' \<Longrightarrow> J e s'"
    and "\<And>s'. \<not> sys_ok K \<Longrightarrow> E 1 s'"
    and "a_status (view K s) t = Some RUNNNING \<Longrightarrow> \<not> arith_ok (view K s) \<Longrightarrow> F Signed_overflow"
  shows "wp R J E F (remove_thread K t) s"
proof (cases "a_status (view K s) t")
  case None
  obtain sc where sc: "scheduler s = Some sc" "rep_with sc s" using assms(1) by (rule rep_okE)
  have "map_find (threads sc) t = None"
    using None a_threads_None_iff [OF sc(2), of K t] by (simp add: a_status_def)
  with sc assms(1) None show ?thesis
    by (simp add: remove_thread_def wp_simps assms(4))
next
  case (Some x)
  obtain sc l th where sc: "scheduler s = Some sc" "rep_with sc s" "map_find (threads sc) t = Some l"
    "heap s l = Some th" "state th = x"
    using assms(1) Some by (rule status_obj)
  let ?s = "s\<lparr>scheduler := Some (sc\<lparr>threads := map_erase t (threads sc)\<rparr>)\<rparr>"
  let ?a = "(view K s)\<lparr>a_threads := (a_threads (view K s))(t := None)\<rparr>"
  let ?last = "bind_op this (\<lambda>sc.
     seq_op (if map_find (sleeping_threads sc) t \<noteq> None
             then set_this (\<lambda>sc. sc\<lparr>sleeping_threads := map_erase t (sleeping_threads sc)\<rparr>) else ret ())
            (ret 0))"
  have s1: "rep_ok ?s" "view K ?s = ?a"
    using rep_okI [OF erase_thread(1) [OF sc(2)]] erase_thread(2) [OF sc(2)] .
  note core = assms(2) [unfolded a_inv_def] and ok = a_core_map_ok [OF assms(2) [unfolded a_inv_def]]
  have "wp (\<lambda>_. wp R J E F ?last) J E F
     (case x of READY \<Rightarrow> remove_thread_from_ready t
      | RUNNNING \<Rightarrow> seq_op (reset_time K) (seq_op handle_sleep_threads run_next_thread)
      | BLOCKED \<Rightarrow> set_this (\<lambda>sc. sc\<lparr>blocked_threads := blocked_threads sc - {t}\<rparr>)) ?s"
  proof (cases x)
    case READY
    have "wp (\<lambda>_. wp R J E F ?last) J E F (remove_thread_from_ready t) ?s"
    proof (rule wp_remove_from_ready [OF s1(1), where K = K])
      show "distinct (a_ready (view K ?s))" using a_core_distinct [OF core] by (simp add: s1(2))
    qed (rule wp_forget_sleeper [where K = K],
      use READY Some ok assms(5) a_forget_eq(1) [OF assms(2)] in \<open>simp_all add: s1(2)\<close>)
    with READY show ?thesis by simp
  next
    case BLOCKED
    have "wp (\<lambda>_. wp R J E F ?last) J E F
        (set_this (\<lambda>sc. sc\<lparr>blocked_threads := blocked_threads sc - {t}\<rparr>)) ?s"
      by (rule wp_set_blocked [OF s1(1), where K = K], rule wp_forget_sleeper [where K = K])
        (use BLOCKED Some ok assms(5) a_forget_eq(2) [OF assms(2)] in \<open>simp_all add: s1(2)\<close>)
    with BLOCKED show ?thesis by simp
  next
    case RUNNNING
    have "a_core None ?a"
      using RUNNNING Some a_inv_running [OF assms(2)] core assms(3) by (simp add: a_core_terminate_running)
    then have "wp (\<lambda>_. wp R J E F ?last) J E F
        (seq_op (reset_time K) (seq_op handle_sleep_threads run_next_thread)) ?s"
      using RUNNNING Some assms(6-8)
      by (intro wp_reschedule [OF s1(1), where K = K]) (auto simp: s1(2))
    with RUNNNING show ?thesis by simp
  qed
  with sc show ?thesis by (simp add: remove_thread_def)
qed

lemma implements_terminate:
  assumes "rep_ok s" and "a_inv (view K s)" and "in_int tid" and "tid \<noteq> 0"
  shows "implements K (a_exec (Call (Terminate tid))) (gives_up (Call (Terminate tid)) (view K s)) (act_arith (Call (Terminate tid)) (view K s))
    (run_action K (Call (Terminate tid))) s"
  unfolding run_action_def action.case run_api.simps
proof (rule implements_callI)
  fix R J and E :: "int \<Rightarrow> process \<Rightarrow> bool" and F
  assume R: "\<And>v s'. rep_ok s' \<Longrightarrow> \<not> gives_up (Call (Terminate tid)) (view K s) \<Longrightarrow>
      a_exec (Call (Terminate tid)) (view K s) = (Returned v, view K s') \<Longrightarrow> R v s'"
    and J: "\<And>b e s'. gives_up (Call (Terminate tid)) (view K s) \<Longrightarrow>
      act_arith (Call (Terminate tid)) (view K s) \<Longrightarrow> jumped K b e s' \<Longrightarrow>
      a_exec (Call (Terminate tid)) (view K s) = a_goes_on (a_dispatch b) \<Longrightarrow> J e s'"
    and E: "\<And>s'. \<not> sys_ok K \<Longrightarrow> E 1 s'"
    and F: "\<not> act_arith (Call (Terminate tid)) (view K s) \<Longrightarrow> F Signed_overflow"
  let ?t = "size_t_of_int tid"
  have run: "a_status (view K s) ?t = Some RUNNNING \<longleftrightarrow> ?t = a_running (view K s)"
    using assms(2) by (rule a_inv_running)
  have t: "?t \<noteq> 0" using assms(3,4) by (simp add: size_t_of_int_eq_0)
  let ?rest = "\<lambda>r. if r = FAILURE_ERROR then seq_op (unblock_signals K) (ret FAILURE_ERROR)
    else seq_op (unblock_signals K) (ret 0)"
  show "wp R J E F (uthread_terminate K tid) s"
    unfolding uthread_terminate_def
  proof (rule wp_masked_call [OF assms(1), where K = K])
    fix s1
    assume s1: "rep_ok s1" "view K s1 = (view K s)\<lparr>a_masked := True\<rparr>"
    have "wp (\<lambda>r. wp R J E F (?rest r)) J E F (remove_thread K ?t) s1"
    proof (rule wp_remove_thread [OF s1(1) _ t, where K = K])
      fix s2
      assume "a_status (view K s1) ?t = None" "rep_ok s2" "view K s2 = view K s1"
      then have "wp R J E F (seq_op (unblock_signals K) (ret FAILURE_ERROR)) s2"
        using R E s1 run
          by (intro wp_unblock_ret [where K = K]) (auto simp: a_terminate_def a_return_def handle_consts)
      then show "wp R J E F (?rest (- 1)) s2" by (simp add: handle_consts)
    next
      fix s2
      assume "a_status (view K s1) ?t \<in> {Some READY, Some BLOCKED}" "rep_ok s2"
        "view K s2 = a_forget ?t (view K s1)"
      then have "wp R J E F (seq_op (unblock_signals K) (ret 0)) s2"
        using R E s1 run by (intro wp_unblock_ret [where K = K]) (auto simp: a_terminate_def a_return_def)
      then show "wp R J E F (?rest 0) s2" by (simp add: handle_consts)
    qed (use assms(2) J E F s1 run in \<open>auto simp: a_terminate_def a_switch_def Let_def masked_last\<close>)
    with assms(4) show "wp R J E F (seq_op (if tid = 0 then seq_op remove_all handleForcedExit else ret ())
        (bind_op (remove_thread K ?t) ?rest)) s1" by simp
  qed (rule E)
qed

end
