(* ===== verification/RefineSwitch.thy ===== *)
theory RefineSwitch
  imports RefineLeave
begin

text \<open>
  The operations in which the running thread gives up the processor: \<open>uthread_block\<close>,
  \<open>uthread_sleep\<close> and the timer. At the end every action is an implementation of its contract
  operation, from the call to the moment the next thread goes on in user code.
\<close>

lemma update_order:
  "a\<lparr>a_ready := q, a_blocked := b\<rparr> = a\<lparr>a_blocked := b, a_ready := q\<rparr>"
  "th\<lparr>a_point := p, a_state := x\<rparr> = th\<lparr>a_state := x, a_point := p\<rparr>"
  by simp_all

subsection \<open>Block\<close>

lemma wp_set_blocked_obj:
  assumes "rep_with sc s" and "map_find (threads sc) t = Some l" and "heap s l = Some th"
    and "\<And>s'. rep_ok s' \<Longrightarrow> view K s' = a_update t (\<lambda>th. th\<lparr>a_state := BLOCKED\<rparr>)
      ((view K s)\<lparr>a_blocked := insert t (a_blocked (view K s))\<rparr>) \<Longrightarrow> R () s'"
  shows "wp R J E F (seq_op (set_this (\<lambda>sc. sc\<lparr>blocked_threads := insert t (blocked_threads sc)\<rparr>))
    (update_obj l (\<lambda>th. th\<lparr>state := BLOCKED\<rparr>))) s"
proof -
  let ?sc = "sc\<lparr>blocked_threads := insert t (blocked_threads sc)\<rparr>"
  let ?s = "s\<lparr>scheduler := Some ?sc\<rparr>"
  note s = rep_withD(1) [OF assms(1)]
  have w: "rep_with ?sc ?s"
    by (rule rep_with_sched_update [OF assms(1)]) (simp_all add: rep_withD(8) [OF assms(1)])
  have v: "view K ?s = (view K s)\<lparr>a_blocked := insert t (a_blocked (view K s))\<rparr>"
    using s view_fields [OF s, of K] by (simp add: view_sched_update)
  have "wp R J E F (update_obj l (\<lambda>th. th\<lparr>state := BLOCKED\<rparr>)) ?s"
    by (rule wp_update_at [OF w, where K = K and t = t and g = "\<lambda>th. th\<lparr>a_state := BLOCKED\<rparr>"])
      (use assms(2-4) rep_okI in \<open>auto simp: abs_thread_def v\<close>)
  with s show ?thesis by simp
qed

lemma wp_block_thread:
  assumes "rep_ok s" and "a_masked (view K s)" and "a_inv (view K s)" and "t \<noteq> 0" and "a_status (view K s) t = Some x"
    and "x = BLOCKED \<Longrightarrow> R () s"
    and "\<And>s'. x = READY \<Longrightarrow> rep_ok s' \<Longrightarrow> view K s' = a_update t (\<lambda>th. th\<lparr>a_state := BLOCKED\<rparr>)
      ((view K s)\<lparr>a_ready := filter (\<lambda>u. u \<noteq> t) (a_ready (view K s)),
                  a_blocked := insert t (a_blocked (view K s))\<rparr>) \<Longrightarrow> R () s'"
    and "\<And>e s'. x = RUNNNING \<Longrightarrow> arith_ok (view K s) \<Longrightarrow> jumped K (a_wake (a_leave BLOCKED In_call
      ((view K s)\<lparr>a_blocked := insert t (a_blocked (view K s))\<rparr>))) e s' \<Longrightarrow> J e s'"
    and "\<And>s'. \<not> sys_ok K \<Longrightarrow> E 1 s'"
    and "x = RUNNNING \<Longrightarrow> \<not> arith_ok (view K s) \<Longrightarrow> F Signed_overflow"
  shows "wp R J E F (block_thread K t) s"
proof -
  obtain sc l th where sc: "scheduler s = Some sc" "rep_with sc s" "map_find (threads sc) t = Some l"
    "heap s l = Some th" "state th = x"
    using assms(1,5) by (rule status_obj)
  note core = assms(3) [unfolded a_inv_def]
  let ?mark = "seq_op (set_this (\<lambda>sc. sc\<lparr>blocked_threads := insert t (blocked_threads sc)\<rparr>))
    (update_obj l (\<lambda>th. th\<lparr>state := BLOCKED\<rparr>))"
  let ?b = "(view K s)\<lparr>a_blocked := insert t (a_blocked (view K s))\<rparr>"
  let ?marked = "a_update t (\<lambda>th. th\<lparr>a_state := BLOCKED\<rparr>) ?b"
  show ?thesis
  proof (cases x)
    case BLOCKED
    with sc assms(6) show ?thesis by (simp add: block_thread_def)
  next
    case READY
    have "wp (\<lambda>_. wp R J E F (remove_thread_from_ready t)) J E F ?mark s"
      by (rule wp_set_blocked_obj [OF sc(2-4), where K = K], rule wp_remove_from_ready [where K = K])
        (use READY assms(7) a_core_distinct [OF core] in \<open>simp_all add: a_update_outward update_order\<close>)
    with sc READY show ?thesis by (simp add: block_thread_def)
  next
    case RUNNNING
    then have run: "a_running (view K s) = t" using assms(5) a_inv_running [OF assms(3)] by simp
    have leave: "a_update t (\<lambda>th. th\<lparr>a_point := In_call\<rparr>) ?marked = a_leave BLOCKED In_call ?b"
      using run by (simp add: a_leave_def a_update_outward)
    have core': "a_core None (a_leave BLOCKED In_call ?b)"
      using a_core_block_running [OF core] assms(4) run by simp
    have "wp (\<lambda>_. wp (\<lambda>r. wp R J E F (block_thread_after K r)) J E F
        (save_current_execution_context K In_block_thread)) J E F ?mark s"
    proof (rule wp_set_blocked_obj [OF sc(2-4), where K = K])
      fix s1
      assume s1: "rep_ok s1" "view K s1 = ?marked"
      show "wp (\<lambda>r. wp R J E F (block_thread_after K r)) J E F
          (save_current_execution_context K In_block_thread) s1"
      proof (rule wp_save [OF s1(1), where K = K])
        show "a_masked (view K s1)" using s1(2) assms(2) by simp
      next
        show "a_threads (view K s1) (a_running (view K s1)) \<noteq> None"
          using s1(2) run assms(5) by (auto simp: a_update_def a_status_def)
      next
        fix s2
        assume s2: "rep_ok s2" "view K s2 = a_update (a_running (view K s1))
          (\<lambda>th. th\<lparr>a_point := site_point In_block_thread\<rparr>) (view K s1)"
        then have v2: "view K s2 = a_leave BLOCKED In_call ?b" using run s1(2) leave by simp
        have "wp R J E F (seq_op (reset_time K) (seq_op handle_sleep_threads run_next_thread)) s2"
          using RUNNNING core' assms(8-10) v2
          by (intro wp_reschedule [OF s2(1), where K = K]) auto
        then show "wp R J E F (block_thread_after K 0) s2" by (simp add: block_thread_after_def)
      qed
    qed
    with sc RUNNNING show ?thesis by (simp add: block_thread_def)
  qed
qed

lemma implements_block:
  assumes "rep_ok s" and "a_inv (view K s)" and "in_int tid"
  shows "implements K (a_exec (Call (Block tid))) (gives_up (Call (Block tid)) (view K s)) (act_arith (Call (Block tid)) (view K s))
    (run_action K (Call (Block tid))) s"
  unfolding run_action_def action.case run_api.simps
proof (rule implements_callI)
  fix R J and E :: "int \<Rightarrow> process \<Rightarrow> bool" and F
  assume R: "\<And>v s'. rep_ok s' \<Longrightarrow> \<not> gives_up (Call (Block tid)) (view K s) \<Longrightarrow>
      a_exec (Call (Block tid)) (view K s) = (Returned v, view K s') \<Longrightarrow> R v s'"
    and J: "\<And>b e s'. gives_up (Call (Block tid)) (view K s) \<Longrightarrow>
      act_arith (Call (Block tid)) (view K s) \<Longrightarrow> jumped K b e s' \<Longrightarrow>
      a_exec (Call (Block tid)) (view K s) = a_goes_on (a_dispatch b) \<Longrightarrow> J e s'"
    and E: "\<And>s'. \<not> sys_ok K \<Longrightarrow> E 1 s'"
    and F: "\<not> act_arith (Call (Block tid)) (view K s) \<Longrightarrow> F Signed_overflow"
  let ?t = "size_t_of_int tid"
  have run: "a_status (view K s) ?t = Some RUNNNING \<longleftrightarrow> ?t = a_running (view K s)"
    using assms(2) by (rule a_inv_running)
  show "wp R J E F (uthread_block K tid) s"
    unfolding uthread_block_def
  proof (rule wp_masked_call [OF assms(1), where K = K], unfold wp_bind_op,
      rule wp_check_status [where K = K], assumption)
    fix s1
    assume s1: "rep_ok s1" "view K s1 = (view K s)\<lparr>a_masked := True\<rparr>"
    show "wp R J E F (if \<not> a_status (view K s1) ?t \<noteq> None \<or> tid = 0
      then seq_op (unblock_signals K) (handleErrorLibrary ''The id is invalid'')
      else seq_op (block_thread K ?t) (uthread_block_after K)) s1"
    proof (cases "a_status (view K s1) ?t = None \<or> tid = 0")
      case True
      have "wp R J E F (seq_op (unblock_signals K) (handleErrorLibrary ''The id is invalid'')) s1"
        by (rule wp_unblock_error [OF s1(1), where K = K])
          (use True R E s1 run in \<open>auto simp: a_return_def a_block_def Let_def\<close>)
      with True show ?thesis by simp
    next
      case False
      then have t: "?t \<noteq> 0" using assms(3) by (simp add: size_t_of_int_eq_0)
      obtain x where x: "a_status (view K s1) ?t = Some x" using False by auto
      have "wp (\<lambda>_. wp R J E F (uthread_block_after K)) J E F (block_thread K ?t) s1"
        unfolding uthread_block_after_def
      proof (rule wp_block_thread [OF s1(1) _ _ t x])
        show "a_masked (view K s1)" using s1(2) by simp
      next
        assume "x = BLOCKED"
        with False x s1 R E run show "wp R J E F (seq_op (unblock_signals K) (ret 0)) s1"
          by (intro wp_unblock_ret [where K = K]) (auto simp: a_block_def a_return_def)
      next
        fix s2
        assume "x = READY" "rep_ok s2" "view K s2 = a_update ?t (\<lambda>th. th\<lparr>a_state := BLOCKED\<rparr>)
          ((view K s1)\<lparr>a_ready := filter (\<lambda>u. u \<noteq> ?t) (a_ready (view K s1)),
                      a_blocked := insert ?t (a_blocked (view K s1))\<rparr>)"
        with False x s1 R E run show "wp R J E F (seq_op (unblock_signals K) (ret 0)) s2"
          by (intro wp_unblock_ret [where K = K]) (auto simp: a_block_def a_return_def Let_def masked_last)
      qed (use assms(2) x False J E F s1 run in
        \<open>auto simp: a_block_def a_switch_def Let_def masked_last\<close>)
      with False show ?thesis by simp
    qed
  qed (rule E)
qed

subsection \<open>Sleep\<close>

lemma wp_sleep_running_thread:
  assumes "rep_ok s" and "a_masked (view K s)" and "a_inv (view K s)" and "a_running (view K s) \<noteq> 0"
    and "\<And>e s'. arith_ok (a_to_sleep n (view K s)) \<Longrightarrow>
      jumped K (a_wake (a_to_sleep n (view K s))) e s' \<Longrightarrow> J e s'"
    and "\<And>s'. \<not> sys_ok K \<Longrightarrow> E 1 s'"
    and "\<not> arith_ok (a_to_sleep n (view K s)) \<Longrightarrow> F Signed_overflow"
  shows "wp R J E F (sleep_running_thread K (size_t_of_int n)) s"
proof -
  obtain sc where sc: "scheduler s = Some sc" using assms(1) by (elim rep_okE)
  note core = assms(3) [unfolded a_inv_def]
  let ?t = "running_thread_tid sc"
  have run: "a_running (view K s) = ?t" using sc by (simp add: view_fields)
  have st: "a_status (view K s) ?t = Some RUNNNING" using a_core_running [OF core] run by simp
  have "int ?t < MAX_THREAD_NUM" using a_core_tid [OF core, of ?t] st by simp
  then have tid: "int_of_size_t ?t = int ?t" "size_t_of_int (int ?t) = ?t"
    by (simp_all add: int_of_size_t_small size_t_of_int_nonneg int_limits MAX_THREAD_NUM_def)
  let ?m = "map_assign ?t (wake_value (a_total (view K s)) n) (a_sleeping (view K s))"
  let ?a = "(view K s)\<lparr>a_sleeping := ?m\<rparr>"
  let ?put = "set_this (\<lambda>sc. sc\<lparr>sleeping_threads := map_assign ?t
    (wake_value (total_quantums sc) n) (sleeping_threads sc)\<rparr>)"
  have "wp (\<lambda>_. wp (\<lambda>r. wp R J E F (sleep_after K ?t r)) J E F
      (save_current_execution_context K In_sleep_running_thread)) J E F ?put s"
  proof (rule wp_set_sleeping [OF assms(1), where K = K and f = "\<lambda>tot. map_assign ?t (wake_value tot n)"])
    fix s1
    assume s1: "rep_ok s1" "view K s1 = ?a"
    show "wp (\<lambda>r. wp R J E F (sleep_after K ?t r)) J E F
        (save_current_execution_context K In_sleep_running_thread) s1"
    proof (rule wp_save [OF s1(1), where K = K])
      show "a_masked (view K s1)" using s1(2) assms(2) by simp
    next
      show "a_threads (view K s1) (a_running (view K s1)) \<noteq> None"
        using s1(2) run st by (auto simp: a_status_def)
    next
      fix s2
      assume s2: "rep_ok s2" "view K s2 = a_update (a_running (view K s1))
        (\<lambda>th. th\<lparr>a_point := site_point In_sleep_running_thread\<rparr>) (view K s1)"
      then have v2: "view K s2 = a_update ?t (\<lambda>th. th\<lparr>a_point := In_call\<rparr>) ?a" using run s1(2) by simp
      have "wp (\<lambda>_. wp R J E F (seq_op (reset_time K) (seq_op handle_sleep_threads run_next_thread))) J E F
          (bind_op (get_thread ?t) (\<lambda>l. update_obj l (\<lambda>th. th\<lparr>state := READY\<rparr>))) s2"
      proof (rule wp_set_state [OF s2(1), where K = K])
        show "a_threads (view K s2) ?t \<noteq> None"
          using v2 st by (auto simp: a_update_def a_status_def)
      next
        fix s3
        assume s3: "rep_ok s3" "view K s3 = a_update ?t (\<lambda>th. th\<lparr>a_state := READY\<rparr>) (view K s2)"
        then have v3: "view K s3 = a_to_sleep n (view K s)"
          using v2 run by (simp add: a_to_sleep_def a_leave_def a_update_outward update_order)
        have "a_core None (view K s3)"
          using a_core_to_sleep [OF core] assms(4) v3 by simp
        with v3 assms(5-7)
        show "wp R J E F (seq_op (reset_time K) (seq_op handle_sleep_threads run_next_thread)) s3"
          by (intro wp_reschedule [OF s3(1), where K = K]) auto
      qed
      then show "wp R J E F (sleep_after K ?t 0) s2" by (simp add: sleep_after_def)
    qed
  qed
  then show ?thesis
    using sc tid by (simp add: sleep_running_thread_def get_running_thread_tid_def Let_def wake_value_def)
qed

lemma arith_ok_to_sleep_masked [simp]:
  "arith_ok (a_to_sleep n (a\<lparr>a_masked := x\<rparr>)) = arith_ok (a_to_sleep n a)"
  by simp

lemma implements_sleep:
  assumes "rep_ok s" and "a_inv (view K s)"
  shows "implements K (a_exec (Call (Sleep n))) (gives_up (Call (Sleep n)) (view K s)) (act_arith (Call (Sleep n)) (view K s))
    (run_action K (Call (Sleep n))) s"
  unfolding run_action_def action.case run_api.simps
proof (rule implements_callI)
  fix R J and E :: "int \<Rightarrow> process \<Rightarrow> bool" and F
  assume R: "\<And>v s'. rep_ok s' \<Longrightarrow> \<not> gives_up (Call (Sleep n)) (view K s) \<Longrightarrow>
      a_exec (Call (Sleep n)) (view K s) = (Returned v, view K s') \<Longrightarrow> R v s'"
    and J: "\<And>b e s'. gives_up (Call (Sleep n)) (view K s) \<Longrightarrow>
      act_arith (Call (Sleep n)) (view K s) \<Longrightarrow> jumped K b e s' \<Longrightarrow>
      a_exec (Call (Sleep n)) (view K s) = a_goes_on (a_dispatch b) \<Longrightarrow> J e s'"
    and E: "\<And>s'. \<not> sys_ok K \<Longrightarrow> E 1 s'"
    and F: "\<not> act_arith (Call (Sleep n)) (view K s) \<Longrightarrow> F Signed_overflow"
  let ?body = "\<lambda>tid. if tid = 0
    then seq_op (unblock_signals K) (handleErrorLibrary ''The main thread can't go on sleep state'')
    else seq_op (sleep_running_thread K (size_t_of_int n)) (uthread_sleep_after K)"
  show "wp R J E F (uthread_sleep K n) s"
    unfolding uthread_sleep_def
  proof (rule wp_masked_call [OF assms(1), where K = K])
    fix s1
    assume s1: "rep_ok s1" "view K s1 = (view K s)\<lparr>a_masked := True\<rparr>"
    obtain sc where sc: "scheduler s1 = Some sc" using s1(1) by (elim rep_okE)
    have run: "running_thread_tid sc = a_running (view K s)"
      using view_fields(4) [OF sc, of K] s1(2) by simp
    have inv1: "a_inv (view K s1)" using assms(2) s1(2) by simp
    have masked1: "a_masked (view K s1)" using s1(2) by simp
    have "int (running_thread_tid sc) < MAX_THREAD_NUM"
      using a_core_tid [OF assms(2) [unfolded a_inv_def]] a_inv_running [OF assms(2)] run
      by (metis option.distinct(1))
    then have tid: "int_of_size_t (running_thread_tid sc) = int (running_thread_tid sc)"
      by (simp add: int_of_size_t_small int_limits MAX_THREAD_NUM_def)
    have "wp R J E F (?body (int (running_thread_tid sc))) s1" if "0 < n"
    proof (cases "a_running (view K s) = 0")
      case True
      then have "wp R J E F (seq_op (unblock_signals K)
          (handleErrorLibrary ''The main thread can't go on sleep state'')) s1"
        using that R E s1 by (intro wp_unblock_error [where K = K]) (auto simp: a_sleep_def a_return_def)
      with True run show ?thesis by simp
    next
      case False
      have "wp (\<lambda>_. wp R J E F (uthread_sleep_after K)) J E F
          (sleep_running_thread K (size_t_of_int n)) s1"
        by (rule wp_sleep_running_thread [OF s1(1) masked1 inv1])
          (use that False J E F s1 in \<open>auto simp: a_sleep_def a_switch_def\<close>)
      with False run show ?thesis by simp
    qed
    moreover have "wp R J E F (handleErrorLibrary ''non-positive quantum error'') s1" if "n \<le> 0"
      using that R s1 by (simp add: wp_simps a_sleep_def)
    ultimately show "wp R J E F (if n \<le> 0 then handleErrorLibrary ''non-positive quantum error''
      else bind_op uthread_get_tid ?body) s1"
      using sc tid by (simp add: uthread_get_tid_def get_running_thread_tid_def)
  qed (rule E)
qed

subsection \<open>The timer\<close>

lemma change_thread_eq:
  "change_thread K sig = seq_op (block_signals K) (seq_op (reset_time K)
     (bind_op (save_current_execution_context K In_change_thread) (change_thread_after K)))"
  by (simp add: change_thread_def reset_time_def seq_op_def bind_op_assoc)

lemma wp_change_thread_after:
  assumes "rep_ok s" and "a_core (Some (a_running (view K s))) (view K s)"
    and "resumable (a_point_of (view K s) (a_running (view K s)))"
    and "\<And>e s'. arith_ok (view K s) \<Longrightarrow>
      jumped K (a_enqueue (a_running (view K s)) (a_wake (view K s))) e s' \<Longrightarrow> J e s'"
    and "\<not> arith_ok (view K s) \<Longrightarrow> F Signed_overflow"
  shows "wp R J E F (change_thread_after K 0) s"
proof -
  let ?a = "view K s" and ?t = "a_running (view K s)"
  let ?go = "seq_op run_next_thread (seq_op (unblock_signals K) (ret ()))"
  have core: "a_core (Some ?t) (a_wake ?a)" using assms(2) by (rule a_core_wake)
  have "resumable (a_point_of (a_wake ?a) ?t)"
    using assms(3) by (simp add: a_point_of_def)
  with core have core': "a_core None (a_enqueue ?t (a_wake ?a))" by (rule a_core_requeue)
  have "wp (\<lambda>_. wp R J E F (bind_op this (\<lambda>sc. seq_op (ready_thread (running_thread_tid sc)) ?go)))
      J E F handle_sleep_threads s"
  proof (rule wp_handle_sleep_threads [OF assms(1) a_core_map_ok [OF assms(2)] sleeper_exists [OF assms(2)]])
    fix s1
    assume arith: "\<forall>e \<in> set (a_sleeping ?a). in_int (int_of_size_t (snd e) - 1)"
      and s1: "rep_ok s1" "view K s1 = a_wake ?a"
    have ok: "in_int (a_total ?a + 1) \<Longrightarrow> arith_ok ?a" using arith by (simp add: arith_ok_def)
    obtain sc where sc: "scheduler s1 = Some sc" using s1(1) by (elim rep_okE)
    have run: "running_thread_tid sc = ?t" using view_fields(4) [OF sc, of K] s1(2) by simp
    have "wp (\<lambda>_. wp R J E F ?go) J E F (ready_thread ?t) s1"
    proof (rule wp_ready_thread [OF s1(1), where K = K])
      show "a_threads (view K s1) ?t \<noteq> None"
        using status_SomeD [OF a_core_running [OF core]] s1(2) by simp
    next
      fix s2
      assume s2: "rep_ok s2" "view K s2 = a_enqueue ?t (view K s1)"
      have "wp (\<lambda>_. wp R J E F (seq_op (unblock_signals K) (ret ()))) J E F run_next_thread s2"
        by (rule wp_dispatch [OF s2(1), where K = K])
          (use s1 s2 core' assms(4,5) arith_ok_wake ok in auto)
      then show "wp R J E F ?go s2" by simp
    qed
    with sc run show "wp R J E F
      (bind_op this (\<lambda>sc. seq_op (ready_thread (running_thread_tid sc)) ?go)) s1" by simp
  qed (use assms(5) in auto)
  then show ?thesis by (simp add: change_thread_after_def)
qed

lemma wp_change_thread:
  assumes "rep_ok s" and "a_inv (view K s)"
    and "\<And>e s'. arith_ok (view K s) \<Longrightarrow>
      jumped K (a_enqueue (a_running (view K s)) (a_wake (a_update (a_running (view K s))
      (\<lambda>th. th\<lparr>a_point := Preempted\<rparr>) ((view K s)\<lparr>a_masked := True\<rparr>)))) e s' \<Longrightarrow> J e s'"
    and "\<And>s'. \<not> sys_ok K \<Longrightarrow> E 1 s'"
    and "\<not> arith_ok (view K s) \<Longrightarrow> F Signed_overflow"
  shows "wp R J E F (change_thread K sig) s"
  unfolding change_thread_eq
proof (rule wp_masked_call [OF assms(1), where K = K], unfold wp_seq_op, rule wp_reset_time [where K = K],
    assumption)
  fix s1 s2
  let ?a = "(view K s)\<lparr>a_masked := True\<rparr>"
  let ?t = "a_running (view K s)"
  assume s1: "view K s1 = ?a" and s2: "rep_ok s2" "view K s2 = view K s1"
  have core: "a_core (Some ?t) ?a" using assms(2) by (simp add: a_inv_def)
  have "wp (\<lambda>r. wp R J E F (change_thread_after K r)) J E F
      (save_current_execution_context K In_change_thread) s2"
  proof (rule wp_save [OF s2(1), where K = K])
    show "a_masked (view K s2)" using s1 s2(2) by simp
  next
    show "a_threads (view K s2) (a_running (view K s2)) \<noteq> None"
      using status_SomeD [OF a_core_running [OF core]] s1 s2(2) by simp
  next
    fix s3
    assume s3: "rep_ok s3" "view K s3 = a_update (a_running (view K s2))
      (\<lambda>th. th\<lparr>a_point := site_point In_change_thread\<rparr>) (view K s2)"
    then have v3: "view K s3 = a_update ?t (\<lambda>th. th\<lparr>a_point := Preempted\<rparr>) ?a"
      using s1 s2(2) by simp
    have "a_core (Some ?t) (view K s3)" unfolding v3 by (rule a_core_point [OF core])
    moreover have "resumable (a_point_of (view K s3) ?t)"
      using a_core_running [OF core]
      by (auto simp: v3 a_point_of_def a_update_def a_status_def resumable_def)
    ultimately show "wp R J E F (change_thread_after K 0) s3"
      using assms(3,5) by (intro wp_change_thread_after [OF s3(1), where K = K]) (auto simp: v3)
  qed
  then show "wp R J E F (bind_op (save_current_execution_context K In_change_thread) (change_thread_after K)) s2"
    by simp
qed (use assms(4) in auto)

lemma implements_tick:
  assumes "rep_ok s" and "a_inv (view K s)"
  shows "implements K (a_exec Tick) (gives_up Tick (view K s)) (act_arith Tick (view K s)) (run_action K Tick) s"
proof (rule implementsI)
  fix R J and E :: "int \<Rightarrow> process \<Rightarrow> bool" and F
  assume R: "\<And>v s'. rep_ok s' \<Longrightarrow> \<not> gives_up Tick (view K s) \<Longrightarrow> a_exec Tick (view K s) = (v, view K s') \<Longrightarrow> R v s'"
    and J: "\<And>b e s'. gives_up Tick (view K s) \<Longrightarrow>
      act_arith Tick (view K s) \<Longrightarrow> jumped K b e s' \<Longrightarrow> a_exec Tick (view K s) = a_goes_on (a_dispatch b) \<Longrightarrow> J e s'"
    and E: "\<And>s'. \<not> sys_ok K \<Longrightarrow> E 1 s'" and F: "\<not> act_arith Tick (view K s) \<Longrightarrow> F Signed_overflow"
  obtain sc where sc: "scheduler s = Some sc" "rep_with sc s" using assms(1) by (rule rep_okE)
  have masked: "a_masked (view K s) = (SIGVTALRM \<in> sig_mask s)" using sc by (simp add: view_fields)
  show "wp R J E F (run_action K Tick) s"
  proof (cases "SIGVTALRM \<in> sig_mask s")
    case True
    with assms(1) masked R show ?thesis
      by (simp add: run_action_def deliver_timer_def a_tick_def)
  next
    case False
    let ?s = "s\<lparr>sig_mask := insert SIGVTALRM (sig_mask s)\<rparr>"
    have "wp (\<lambda>_ s'. R Continued (s'\<lparr>sig_mask := sig_mask s\<rparr>)) J E F (change_thread K SIGVTALRM) ?s"
      by (rule wp_change_thread [where K = K])
        (use assms J E F masked False in \<open>auto simp: a_tick_def\<close>)
    with False rep_withD(4) [OF sc(2)] show ?thesis
      by (simp add: run_action_def deliver_timer_def callback_handler_def)
  qed
qed

subsection \<open>Every action\<close>

lemma run_action_implements:
  assumes "rep_ok s" and "a_inv (view K s)" and "mangling_ok K" and "well_typed act"
    and "act \<noteq> Call (Terminate 0)"
  shows "implements K (a_exec act) (gives_up act (view K s)) (act_arith act (view K s)) (run_action K act) s"
proof (cases act)
  case (Call f)
  with assms show ?thesis
    by (cases f) (auto simp del: act_arith.simps a_exec.simps gives_up.simps(1-4) simp: gives_up.simps(5) intro: implements_spawn implements_terminate implements_block implements_resume
      implements_sleep implements_get_tid implements_get_total implements_get_quantums)
qed (use assms implements_tick in auto)

lemma act_arith_stay: "\<not> gives_up act a \<Longrightarrow> act_arith act a"
  by (cases "(act, a)" rule: act_arith.cases) auto

lemma exec_implements:
  assumes "rep_ok s" and "a_inv (view K s)" and "mangling_ok K" and "well_typed act"
    and "act \<noteq> Call (Terminate 0)"
  shows "wp (\<lambda>v s'. rep_ok s' \<and> act_arith act (view K s) \<and> a_exec act (view K s) = (v, view K s'))
     (\<lambda>e s'. False)
     (\<lambda>n s'. n = 1 \<and> \<not> sys_ok K)
     (\<lambda>u. u = Signed_overflow \<and> \<not> act_arith act (view K s)) (exec K act) s"
proof -
  note i = run_action_implements [OF assms, unfolded implements_def]
  show ?thesis
  proof (cases "run_action K act s")
    case (Jump e s')
    then obtain b where b: "jumped K b e s'" "a_exec act (view K s) = a_goes_on (a_dispatch b)"
      and ok: "act_arith act (view K s)"
      using wp_JumpD [OF i] by blast
    have "wp (\<lambda>v s'. rep_ok s' \<and> act_arith act (view K s) \<and> a_exec act (view K s) = (v, view K s'))
       (\<lambda>e s'. False) (\<lambda>n s'. n = 1 \<and> \<not> sys_ok K)
       (\<lambda>u. u = Signed_overflow \<and> \<not> act_arith act (view K s)) (resume_context K e) s'"
      by (rule wp_resume_context [OF b(1)]) (simp_all add: b(2) ok prod_eq_iff)
    with Jump show ?thesis by (simp add: wp_def exec_def)
  qed (use i act_arith_stay in \<open>auto simp: wp_def exec_def\<close>)
qed

end
