(* ===== verification/Machine.thy ===== *)
theory Machine
  imports RefineSwitch
begin

text \<open>
  The program as a transition system: \<open>uthread_init\<close> in a process that has not called it
  successfully before, then any sequence of
  API calls and timer signals, each followed by the context switch it leads to. The locale
  \<open>transition_system\<close> holds what is proved once about invariants and simulations; it is
  interpreted on the process states and on the contract.
\<close>

subsection \<open>Transition systems\<close>

inductive reachable :: "('s \<Rightarrow> bool) \<Rightarrow> ('s \<Rightarrow> 'l \<Rightarrow> 's \<Rightarrow> bool) \<Rightarrow> 's \<Rightarrow> bool"
  for start :: "'s \<Rightarrow> bool" and step :: "'s \<Rightarrow> 'l \<Rightarrow> 's \<Rightarrow> bool" where
  first: "start s \<Longrightarrow> reachable start step s"
| more: "reachable start step s \<Longrightarrow> step s l s' \<Longrightarrow> reachable start step s'"

locale transition_system =
  fixes start :: "'s \<Rightarrow> bool" and step :: "'s \<Rightarrow> 'l \<Rightarrow> 's \<Rightarrow> bool" and inv :: "'s \<Rightarrow> bool"
  assumes start_inv: "start s \<Longrightarrow> inv s"
    and step_inv: "inv s \<Longrightarrow> step s l s' \<Longrightarrow> inv s'"
begin

lemma reachable_inv: "reachable start step s \<Longrightarrow> inv s"
  by (induction rule: reachable.induct) (auto intro: start_inv step_inv)

end

locale simulation = conc: transition_system cstart cstep cinv
  for cstart :: "'c \<Rightarrow> bool" and cstep :: "'c \<Rightarrow> 'l \<Rightarrow> 'c \<Rightarrow> bool" and cinv :: "'c \<Rightarrow> bool" +
  fixes astart :: "'a \<Rightarrow> bool" and astep :: "'a \<Rightarrow> 'l \<Rightarrow> 'a \<Rightarrow> bool" and abs :: "'c \<Rightarrow> 'a"
  assumes abs_start: "cstart s \<Longrightarrow> astart (abs s)"
    and abs_step: "cinv s \<Longrightarrow> cstep s l s' \<Longrightarrow> astep (abs s) l (abs s')"
begin

lemma abs_reachable: "reachable cstart cstep s \<Longrightarrow> reachable astart astep (abs s)"
proof (induction rule: reachable.induct)
  case (first s)
  then show ?case by (intro reachable.first abs_start)
next
  case (more s l s')
  then show ?case using abs_step [OF conc.reachable_inv] by (blast intro: reachable.more)
qed

text \<open>A property that holds in every reachable state of the contract holds of the program.\<close>

lemma transfer:
  assumes "\<And>a. reachable astart astep a \<Longrightarrow> P a" and "reachable cstart cstep s"
  shows "P (abs s)"
  by (rule assms(1), rule abs_reachable, rule assms(2))

end

subsection \<open>Initialisation\<close>

definition a_init :: lib where
  "a_init = \<lparr>a_threads = [0 \<mapsto> \<lparr>a_state = RUNNNING, a_quantums = 1, a_point = Entry 0\<rparr>],
     a_ready = [], a_blocked = {}, a_sleeping = [], a_running = 0, a_total = 1, a_masked = False\<rparr>"

lemma a_inv_init: "a_inv a_init"
  unfolding a_inv_def
  by (rule a_coreI)
    (auto simp: a_init_def a_status_def MAX_THREAD_NUM_def int_limits split: if_splits)

lemma wp_sigaction [wp_simps]:
  "wp R J E F (sigaction K n h) s =
     (let r = sys_ret K (events s) (Sigaction n h); s' = logged s (Sigaction n h) r
      in if r = - 1 then R r s' else R r (if n = SIGVTALRM then s'\<lparr>disposition := h\<rparr> else s'))"
  by (simp add: sigaction_def wp_simps Let_def)

lemma wp_new_Thread [simp]:
  "wp R J E F (new_Thread K st q al ep) s = R (next_obj s) (s\<lparr>heap := (heap s)(next_obj s \<mapsto>
      Thread_ctor K (next_obj s) (sig_mask s) st q al ep), next_obj := Suc (next_obj s)\<rparr>)"
  by (simp add: wp_def new_Thread_def)

text \<open>The scheduler object after a successful initialisation.\<close>

definition ready_scheduler :: "int \<Rightarrow> Scheduler" where
  "ready_scheduler q =
     (Scheduler_ctor q Callback_handler)
       \<lparr>timer := quantum_timer q, sig_set := {SIGVTALRM}, total_quantums := 1, threads := [(0, 0)]\<rparr>"

lemma rep_init:
  assumes "mangling_ok K"
    and "scheduler s = Some (ready_scheduler q)" and "disposition s = Callback_handler" and "sig_mask s = {}"
    and "heap s = [0 \<mapsto> Thread_ctor K 0 {} RUNNNING 1 False 0]" and "next_obj s = 1"
  shows "rep_ok s" and "view K s = a_init"
proof -
  have "rep_with (ready_scheduler q) s"
    using assms by (auto simp: rep_with_def ready_scheduler_def Scheduler_ctor_def int_limits env_ok_def
      map_ok_def split: if_splits)
  then show "rep_ok s" by (rule rep_okI)
  show "view K s = a_init"
    using assms by (auto simp: view_def a_init_def thr_def ready_scheduler_def Scheduler_ctor_def
      abs_thread_def point_at_def mangling_ok_def fun_eq_iff)
qed

lemma wp_uthread_init:
  assumes "mangling_ok K" and "0 \<le> q"
  shows "wp (\<lambda>v s. (v = 0 \<and> rep_ok s \<and> view K s = a_init \<and> itimer s = quantum_timer q) \<or>
        (v = - 1 \<and> \<not> sys_ok K \<and> itimer s = zero_timer))
      (\<lambda>e s. False) (\<lambda>n s. n = 1 \<and> \<not> sys_ok K) (\<lambda>u. False) (uthread_init K q) (printed msgs)"
  using assms(2)
  by (auto simp: printed_def uthread_init_def init_scheduler_def set_thread_def reset_time_def boot_def wp_simps Let_def
      handle_consts Scheduler_ctor_def MAX_THREAD_NUM_def in_int_def int_limits dest: sys_fail
      intro!: rep_init [OF assms(1), where q = q]
      simp: ready_scheduler_def)

subsection \<open>The end of the process\<close>

lemma wp_delete_Thread [simp]:
  "heap s l \<noteq> None \<Longrightarrow> wp R J E F (delete_Thread l) s = R () (s\<lparr>heap := (heap s)(l := None)\<rparr>)"
  by (auto simp: wp_def delete_Thread_def)

lemma wp_delete_all:
  assumes "distinct (map snd m)" and "\<forall>e \<in> set m. heap s (snd e) \<noteq> None"
    and "R () (s\<lparr>heap := (\<lambda>l. if l \<in> snd ` set m then None else heap s l)\<rparr>)"
  shows "wp R J E F (for_each m (\<lambda>(i, l). delete_Thread l)) s"
  using assms
proof (induction m arbitrary: s)
  case Nil
  then show ?case by simp
next
  case (Cons e m)
  obtain i l where e: "e = (i, l)" by force
  let ?s = "s\<lparr>heap := (heap s)(l := None)\<rparr>"
  have "(\<lambda>x. if x \<in> snd ` set m then None else heap ?s x) =
      (\<lambda>x. if x \<in> snd ` set (e # m) then None else heap s x)"
    by (auto simp: e fun_eq_iff)
  then have "wp R J E F (for_each m (\<lambda>(i, l). delete_Thread l)) ?s"
    using Cons.prems e by (intro Cons.IH) (force simp: image_iff)+
  moreover have "heap s l \<noteq> None" using Cons.prems(2) e by simp
  ultimately show ?case by (simp add: e)
qed

lemma objects_distinct:
  assumes "rep_with sc s"
  shows "distinct (map snd (threads sc))" and "\<forall>e \<in> set (threads sc). heap s (snd e) \<noteq> None"
proof -
  note w = rep_withD [OF assms]
  have mem: "map_find (threads sc) t = Some l" if "(t, l) \<in> set (threads sc)" for t l
    using that w(2) map_find_set [of "threads sc" t l] by (simp add: map_ok_def)
  show "\<forall>e \<in> set (threads sc). heap s (snd e) \<noteq> None"
    using w(5) mem by force
  have "distinct (threads sc)"
    using std.distinct_keys [OF w(2)] by (simp add: distinct_map)
  then show "distinct (map snd (threads sc))"
    using w(6) mem by (auto simp: distinct_map inj_on_def)
qed

lemma wp_remove_all:
  assumes "rep_with sc s"
    and "R () (s\<lparr>heap := (\<lambda>l. if l \<in> snd ` set (threads sc) then None else heap s l),
      scheduler := Some (sc\<lparr>threads := []\<rparr>)\<rparr>)"
  shows "wp R J E F remove_all s"
proof -
  have "wp (\<lambda>_. wp R J E F (set_this (\<lambda>sc. sc\<lparr>threads := []\<rparr>))) J E F
      (for_each (threads sc) (\<lambda>(i, l). delete_Thread l)) s"
    by (rule wp_delete_all [OF objects_distinct [OF assms(1)]])
      (use assms rep_withD(1) [OF assms(1)] in simp)
  with rep_withD(1) [OF assms(1)] show ?thesis by (simp add: remove_all_def)
qed

text \<open>
  What is left when the process ends: the objects of the table are gone, objects that were
  dropped from the table before are still there.
\<close>

definition all_deleted :: "process \<Rightarrow> process \<Rightarrow> bool" where
  "all_deleted s s' \<longleftrightarrow>
     (\<forall>l. heap s' l = (if \<exists>t. map_find (threads (the (scheduler s))) t = Some l then None else heap s l)) \<and>
     threads (the (scheduler s')) = []"

lemma wp_sys_block:
  assumes "rep_with sc s"
    and "\<And>s'. rep_with sc s' \<Longrightarrow> heap s' = heap s \<Longrightarrow> wp R J E F f s'"
    and "\<And>s'. \<not> sys_ok K \<Longrightarrow> E 1 s'"
  shows "wp R J E F (seq_op (block_signals K) f) s"
proof -
  note w = rep_withD [OF assms(1)]
  have "wp R J E F f (s\<lparr>events := es, sig_mask := M\<rparr>)" for es M
    by (rule assms(2)) (simp_all add: assms(1))
  with w(1,3) assms(3) show ?thesis
    by (auto simp: block_signals_def wp_simps handle_consts Let_def change_mask_def dest: sys_fail)
qed

lemma wp_terminate_main:
  assumes "rep_ok s"
  shows "wp (\<lambda>v s'. False) (\<lambda>e s'. False)
      (\<lambda>n s'. (n = 0 \<and> all_deleted s s') \<or> (n = 1 \<and> \<not> sys_ok K)) (\<lambda>u. False)
    (run_action K (Call (Terminate 0))) s"
proof -
  let ?E = "\<lambda>n s'. (n = 0 \<and> all_deleted s s') \<or> (n = 1 \<and> \<not> sys_ok K)"
  obtain sc where sc: "scheduler s = Some sc" "rep_with sc s" using assms by (rule rep_okE)
  let ?rest = "bind_op (remove_thread K (size_t_of_int 0)) (\<lambda>r.
     if r = FAILURE_ERROR then seq_op (unblock_signals K) (ret FAILURE_ERROR)
     else seq_op (unblock_signals K) (ret 0))"
  have "wp (\<lambda>v s'. False) (\<lambda>e s'. False) ?E (\<lambda>u. False) (uthread_terminate K 0) s"
    unfolding uthread_terminate_def
  proof (rule wp_sys_block [OF sc(2), where K = K])
    fix s1
    assume s1: "rep_with sc s1" "heap s1 = heap s"
    have "(l \<in> snd ` set (threads sc)) = (\<exists>t. map_find (threads sc) t = Some l)" for l
      using map_find_set [of "threads sc"] rep_withD(2) [OF sc(2)] by (force simp: map_ok_def image_iff)
    then have "all_deleted s (s1\<lparr>heap := (\<lambda>l. if l \<in> snd ` set (threads sc) then None else heap s1 l),
      scheduler := Some (sc\<lparr>threads := []\<rparr>)\<rparr>)"
      using sc(1) s1(2) by (simp add: all_deleted_def)
    then have "wp (\<lambda>_. wp (\<lambda>_ s'. False) (\<lambda>e s'. False) ?E (\<lambda>u. False) handleForcedExit)
        (\<lambda>e s'. False) ?E (\<lambda>u. False) remove_all s1"
      by (intro wp_remove_all [OF s1(1)]) (simp add: wp_simps)
    then show "wp (\<lambda>v s'. False) (\<lambda>e s'. False) ?E (\<lambda>u. False)
        (seq_op (if (0::int) = 0 then seq_op remove_all handleForcedExit else ret ()) ?rest) s1"
      by (simp add: wp_def seq_op_def bind_op_def handleForcedExit_def split: outcome.splits)
  qed auto
  then show ?thesis by (simp add: run_action_def wp_def bind_op_def split: outcome.splits)
qed

subsection \<open>Steps\<close>

definition lib_start :: "platform \<Rightarrow> int \<Rightarrow> process \<Rightarrow> bool" where
  "lib_start K q s \<longleftrightarrow> mangling_ok K \<and> in_int q \<and> (\<exists>msgs. uthread_init K q (printed msgs) = Ret 0 s)"

inductive lib_step :: "platform \<Rightarrow> process \<Rightarrow> action \<times> answer \<Rightarrow> process \<Rightarrow> bool"
  for K :: platform where
  lib_stepI: "well_typed act \<Longrightarrow> exec K act s = Ret v s' \<Longrightarrow> lib_step K s (act, v) s'"

inductive a_step :: "lib \<Rightarrow> action \<times> answer \<Rightarrow> lib \<Rightarrow> bool" where
  a_stepI: "well_typed act \<Longrightarrow> act \<noteq> Call (Terminate 0) \<Longrightarrow> a_exec act a = (v, a') \<Longrightarrow>
    a_total a' \<le> INT_MAX \<Longrightarrow> a_step a (act, v) a'"

inductive_cases lib_stepE: "lib_step K s l s'"
inductive_cases a_stepE: "a_step a l a'"
inductive_simps lib_step_simps: "lib_step K s (act, v) s'"
inductive_simps a_step_simps: "a_step a (act, v) a'"

definition lib_inv :: "platform \<Rightarrow> process \<Rightarrow> bool" where
  "lib_inv K s \<longleftrightarrow> mangling_ok K \<and> rep_ok s \<and> a_inv (view K s)"

lemma lib_start_view:
  assumes "lib_start K q s"
  shows "lib_inv K s" and "view K s = a_init" and "itimer s = quantum_timer q" and "0 \<le> q"
proof -
  obtain msgs where K: "mangling_ok K" and s: "uthread_init K q (printed msgs) = Ret 0 s"
    using assms by (auto simp: lib_start_def)
  show q: "0 \<le> q"
    using s by (rule contrapos_pp)
      (simp add: uthread_init_def handleErrorLibrary_def stderr_put_def comb_defs handle_consts)
  show v: "view K s = a_init" "itimer s = quantum_timer q"
    using wp_RetD [OF wp_uthread_init [OF K q] s] by auto
  show "lib_inv K s"
    using wp_RetD [OF wp_uthread_init [OF K q] s] K a_inv_init by (simp add: lib_inv_def)
qed

lemma lib_step_view:
  assumes "lib_inv K s" and "lib_step K s l s'"
  shows "a_step (view K s) l (view K s')" and "lib_inv K s'"
proof -
  obtain act v where l: "l = (act, v)" and wt: "well_typed act" and ex: "exec K act s = Ret v s'"
    using assms(2) by (rule lib_stepE)
  have inv: "rep_ok s" "a_inv (view K s)" "mangling_ok K" using assms(1) by (simp_all add: lib_inv_def)
  have main: "act \<noteq> Call (Terminate 0)"
  proof
    assume "act = Call (Terminate 0)"
    with ex have "run_action K (Call (Terminate 0)) s = Ret v s' \<or>
        (\<exists>e s''. run_action K (Call (Terminate 0)) s = Jump e s'')"
      by (auto simp: exec_def split: outcome.splits)
    then show False using wp_terminate_main [OF inv(1), of K] by (auto simp: wp_def)
  qed
  have s': "rep_ok s'" "a_exec act (view K s) = (v, view K s')"
    using wp_RetD [OF exec_implements [OF inv wt main] ex] by auto
  have tot: "a_total (view K s') \<le> INT_MAX"
    using s'(1) by (rule rep_okE) (simp add: view_fields rep_withD(8))
  with s' wt main show "a_step (view K s) l (view K s')" by (simp add: l a_step_simps)
  have "a_inv (snd (a_exec act (view K s)))"
    by (rule a_inv_exec [OF inv(2) _ wt main]) (simp add: s'(2) tot)
  with s' inv show "lib_inv K s'" by (simp add: lib_inv_def)
qed

abbreviation a_start :: "lib \<Rightarrow> bool" where
  "a_start a \<equiv> a = a_init"

lemma a_step_inv: "a_inv a \<Longrightarrow> a_step a l a' \<Longrightarrow> a_inv a'"
  by (erule a_stepE) (metis a_inv_exec snd_conv)

interpretation spec: transition_system a_start a_step a_inv
  by unfold_locales (auto intro: a_inv_init a_step_inv)

interpretation lib: simulation "lib_start K q" "lib_step K" "lib_inv K" a_start a_step "view K"
  for K q
  by unfold_locales (auto intro: lib_start_view lib_step_view)

text \<open>The states the program can be in whenever user code runs.\<close>

abbreviation lib_reachable :: "platform \<Rightarrow> int \<Rightarrow> process \<Rightarrow> bool" where
  "lib_reachable K q s \<equiv> reachable (lib_start K q) (lib_step K) s"

end
