(* ===== verification/Run.thy ===== *)
theory Run
  imports Machine
begin

text \<open>
  Sequences of actions: the runs of the program are runs of the contract, and a run whose
  numbers stay in the range of \<open>int\<close> on a platform whose system calls succeed never gets stuck.
\<close>

subsection \<open>Runs\<close>

fun a_run :: "action list \<Rightarrow> lib \<Rightarrow> answer list \<times> lib" where
  "a_run [] a = ([], a)"
| "a_run (act # acts) a =
     (let (v, a') = a_exec act a; (vs, a'') = a_run acts a' in (v # vs, a''))"

lemma a_run_Cons [simp]:
  "snd (a_run (act # acts) a) = snd (a_run acts (snd (a_exec act a)))"
  "fst (a_run (act # acts) a) = fst (a_exec act a) # fst (a_run acts (snd (a_exec act a)))"
  by (simp_all split: prod.split)

lemma a_run_append: "snd (a_run (xs @ ys) a) = snd (a_run ys (snd (a_run xs a)))"
  by (induction xs arbitrary: a) (simp_all del: a_run.simps(2))

lemma exec_list_Cons:
  "exec_list K (act # acts) s = Ret vs s' \<longleftrightarrow>
     (\<exists>v s1 ws. exec K act s = Ret v s1 \<and> exec_list K acts s1 = Ret ws s' \<and> vs = v # ws)"
  by (auto simp: comb_defs split: outcome.splits)

lemma exec_step:
  assumes "lib_inv K s" and "well_typed act" and "exec K act s = Ret v s'"
  shows "lib_inv K s'" and "a_exec act (view K s) = (v, view K s')" and "act \<noteq> Call (Terminate 0)"
    and "a_total (view K s') \<le> INT_MAX" and "act_arith act (view K s)"
proof -
  have "lib_step K s (act, v) s'" using assms(2,3) by (rule lib_stepI)
  with lib_step_view [OF assms(1)] have "a_step (view K s) (act, v) (view K s')" "lib_inv K s'" by blast+
  then show "lib_inv K s'" "a_exec act (view K s) = (v, view K s')" "act \<noteq> Call (Terminate 0)"
    "a_total (view K s') \<le> INT_MAX"
    by (simp_all add: a_step_simps)
  have "rep_ok s" "a_inv (view K s)" "mangling_ok K" using assms(1) by (simp_all add: lib_inv_def)
  from wp_RetD [OF exec_implements [OF this assms(2) \<open>act \<noteq> Call (Terminate 0)\<close>] assms(3)]
  show "act_arith act (view K s)" by simp
qed

lemma exec_list_run:
  assumes "lib_inv K s" and "\<forall>act \<in> set acts. well_typed act" and "exec_list K acts s = Ret vs s'"
  shows "lib_inv K s'" and "a_run acts (view K s) = (vs, view K s')"
proof -
  have "lib_inv K s' \<and> a_run acts (view K s) = (vs, view K s')"
    using assms
  proof (induction acts arbitrary: s vs)
    case Nil
    then show ?case by (simp add: ret_def)
  next
    case (Cons act acts)
    then obtain v s1 ws where e: "exec K act s = Ret v s1" "exec_list K acts s1 = Ret ws s'" "vs = v # ws"
      by (auto simp only: exec_list_Cons)
    have wt: "well_typed act" "\<forall>act \<in> set acts. well_typed act" using Cons.prems(2) by simp_all
    note st = exec_step [OF Cons.prems(1) wt(1) e(1)]
    show ?case using Cons.IH [OF st(1) wt(2) e(2)] st(2) e(3) by simp
  qed
  then show "lib_inv K s'" "a_run acts (view K s) = (vs, view K s')" by blast+
qed

lemma exec_list_append:
  "exec_list K (xs @ ys) s = Ret vs s' \<longleftrightarrow>
     (\<exists>ws s1 us. exec_list K xs s = Ret ws s1 \<and> exec_list K ys s1 = Ret us s' \<and> vs = ws @ us)"
proof (induction xs arbitrary: s vs)
  case Nil
  then show ?case by (simp add: ret_def)
next
  case (Cons x xs)
  show ?case by (simp only: append_Cons exec_list_Cons Cons.IH) (metis append_Cons)
qed

lemma exec_list_take:
  assumes "exec_list K acts s = Ret vs s'"
  obtains ws s1 where "exec_list K (take i acts) s = Ret ws s1"
  using assms exec_list_append [of K "take i acts" "drop i acts" s vs s'] by auto

lemma reachable_exec:
  assumes "lib_reachable K q s" and "well_typed act" and "exec K act s = Ret v s'"
  shows "lib_reachable K q s'"
  using assms(1) lib_stepI [of act, OF assms(2,3)] by (rule reachable.more)

lemma reachable_exec_list:
  assumes "lib_reachable K q s" and "\<forall>act \<in> set acts. well_typed act"
    and "exec_list K acts s = Ret vs s'"
  shows "lib_reachable K q s'"
  using assms
proof (induction acts arbitrary: s vs)
  case Nil
  then show ?case by (simp add: ret_def)
next
  case (Cons act acts)
  then obtain v s1 ws where e: "exec K act s = Ret v s1" "exec_list K acts s1 = Ret ws s'"
    by (auto simp only: exec_list_Cons)
  with Cons.prems Cons.IH [OF reachable_exec [OF Cons.prems(1) _ e(1)] _ e(2)] show ?case by simp
qed

subsection \<open>Progress\<close>

lemma exec_returns:
  assumes "lib_inv K s" and "sys_ok K" and "well_typed act" and "act \<noteq> Call (Terminate 0)"
    and "act_arith act (view K s)"
  obtains s' where "exec K act s = Ret (fst (a_exec act (view K s))) s'"
    and "view K s' = snd (a_exec act (view K s))" and "lib_inv K s'"
proof -
  have inv: "rep_ok s" "a_inv (view K s)" "mangling_ok K" using assms(1) by (simp_all add: lib_inv_def)
  note i = exec_implements [OF inv assms(3,4)]
  show ?thesis
  proof (cases "exec K act s")
    case (Ret v s')
    with wp_RetD [OF i Ret] exec_step(1) [OF assms(1,3) Ret] show ?thesis
      by (intro that [of s']) auto
  next
    case (Jump e s')
    then show ?thesis using wp_JumpD [OF i] by blast
  next
    case (Exit n s')
    then show ?thesis using wp_ExitD [OF i] assms(2) by blast
  next
    case (Fault u)
    then show ?thesis using wp_FaultD [OF i] assms(5) by blast
  qed
qed

text \<open>
  \<open>bounded B k a\<close>: at most \<open>k\<close> quantums have started and no sleeper waits for more than \<open>B\<close>
  quantums from one of them on.
\<close>

definition bounded :: "int \<Rightarrow> int \<Rightarrow> lib \<Rightarrow> bool" where
  "bounded B k a \<longleftrightarrow> 1 \<le> a_total a \<and> a_total a \<le> k \<and>
     (\<forall>e \<in> set (a_sleeping a). int (snd e) \<le> k + B + 1)"

lemma wake_value_small:
  assumes "0 \<le> tot" and "0 \<le> n" and "tot \<le> INT_MAX" and "n \<le> INT_MAX"
  shows "wake_value tot n = nat (tot + n + 1)"
  using assms by (simp add: wake_value_def size_t_of_int_nonneg size_add_small int_limits nat_add_distrib)

lemma set_map_assign: "set (map_assign k v m) \<subseteq> insert (k, v) (set m)"
  by (induction k v m rule: map_assign.induct) auto

lemma bounded_arith:
  assumes "bounded B k a" and "k + B + 1 \<le> INT_MAX" and "0 \<le> B"
  shows "arith_ok a"
  using assms by (auto simp: bounded_def arith_ok_def in_int_def int_limits int_of_size_t_small nat_less_iff
    dest!: bspec)

lemma bounded_to_sleep:
  assumes "bounded B k a" and "0 < n" and "n \<le> B" and "k + B + 1 \<le> INT_MAX"
  shows "bounded B k (a_to_sleep n a)"
proof -
  have "int (wake_value (a_total a) n) \<le> k + B + 1"
    using assms by (simp add: wake_value_small bounded_def)
  moreover have "a_sleeping (a_to_sleep n a) =
      map_assign (a_running a) (wake_value (a_total a) n) (a_sleeping a)"
    by (simp add: a_to_sleep_def a_leave_def)
  ultimately show ?thesis
    using assms(1) set_map_assign [of "a_running a" "wake_value (a_total a) n" "a_sleeping a"]
    by (auto simp: bounded_def)
qed

lemma a_sleeping_simps [simp]:
  "a_sleeping (snd (a_goes_on a)) = a_sleeping a" "a_sleeping (a_dispatch a) = a_sleeping a"
  "a_sleeping (a_enqueue t a) = a_sleeping a" "a_sleeping (snd (a_return v a)) = a_sleeping a"
  "a_sleeping (a_leave st p a) = a_sleeping a" "a_total (snd (a_return v a)) = a_total a"
  by (simp_all add: a_goes_on_def a_return_def a_defs)

lemma bounded_less:
  assumes "bounded B k a" and "\<And>e. e \<in> set (a_sleeping a') \<Longrightarrow> e \<in> set (a_sleeping a)"
    and "a_total a' = a_total a \<or> a_total a' = a_total a + 1"
  shows "bounded B (k + 1) a'"
  using assms by (force simp: bounded_def)

lemma set_sleeping_wake: "e \<in> set (a_sleeping (a_wake a)) \<Longrightarrow> e \<in> set (a_sleeping a)"
  by (auto simp: a_wake_def)

lemma bounded_switch:
  assumes "bounded B k a"
  shows "bounded B (k + 1) (snd (a_switch a))"
  by (rule bounded_less [OF assms]) (use set_sleeping_wake in \<open>auto simp: a_switch_def\<close>)

lemma bounded_stay: "bounded B k a \<Longrightarrow> bounded B (k + 1) (snd (a_return v a))"
  by (erule bounded_less) simp_all

lemma bounded_exec:
  assumes "bounded B k a" and "\<And>n. act = Call (Sleep n) \<Longrightarrow> n \<le> B" and "k + B + 1 \<le> INT_MAX"
  shows "bounded B (k + 1) (snd (a_exec act a))"
proof (cases "(act, a)" rule: a_exec.cases)
  case 1
  have "e \<in> set (a_sleeping a)"
    if "e \<in> set (a_sleeping (a_wake (a_update (a_running a) (\<lambda>th. th\<lparr>a_point := Preempted\<rparr>) a)))" for e
    using set_sleeping_wake [OF that] by simp
  with 1 show ?thesis
    by (intro bounded_less [OF assms(1)]) (auto simp: a_tick_def split: if_splits)
next
  case (3 tid _)
  let ?t = "size_t_of_int tid"
  have "bounded B (k + 1) (snd (a_switch (a\<lparr>a_threads := (a_threads a)(?t := None)\<rparr>)))"
    by (rule bounded_switch) (use assms(1) in \<open>simp add: bounded_def\<close>)
  moreover have "bounded B (k + 1) (snd (a_return 0 (a_forget ?t a)))"
    by (rule bounded_stay, use assms(1) set_map_erase [of ?t "a_sleeping a"] in
      \<open>auto simp: bounded_def a_forget_def\<close>)
  ultimately show ?thesis
    using 3 bounded_stay [OF assms(1)]
    by (auto simp: a_terminate_def Let_def split: option.split State.split)
next
  case (4 tid _)
  let ?t = "size_t_of_int tid"
  have "bounded B (k + 1) (snd (a_switch (a_leave BLOCKED In_call (a\<lparr>a_blocked := insert ?t (a_blocked a)\<rparr>))))"
    by (rule bounded_switch) (use assms(1) in \<open>simp add: bounded_def\<close>)
  with 4 show ?thesis
    using bounded_stay [OF assms(1)] assms(1)
    by (auto simp: a_block_def Let_def bounded_def split: option.split State.split)
next
  case (6 n _)
  then show ?thesis
    using bounded_switch [OF bounded_to_sleep, of B k a n] assms bounded_stay [OF assms(1)]
    by (auto simp: a_sleep_def bounded_def)
qed (use assms(1) in \<open>auto simp: a_spawn_def a_resume_def a_get_quantums_def bounded_def Let_def
  split: option.split State.split\<close>)

lemma bounded_act_arith:
  assumes "bounded B k a" and "\<And>n. act = Call (Sleep n) \<Longrightarrow> n \<le> B" and "k + B + 1 \<le> INT_MAX"
    and "0 \<le> B"
  shows "act_arith act a"
  using assms bounded_arith [OF assms(1,3,4)] bounded_arith [OF bounded_to_sleep]
  by (cases "(act, a)" rule: act_arith.cases) auto

lemma run_returns:
  assumes "lib_inv K s" and "sys_ok K" and "bounded B k (view K s)"
    and "\<forall>act \<in> set acts. well_typed act \<and> act \<noteq> Call (Terminate 0)"
    and "\<forall>n. Call (Sleep n) \<in> set acts \<longrightarrow> n \<le> B" and "0 \<le> B"
    and "k + int (length acts) + B + 1 \<le> INT_MAX"
  shows "\<exists>s'. exec_list K acts s = Ret (fst (a_run acts (view K s))) s' \<and>
    view K s' = snd (a_run acts (view K s)) \<and> lib_inv K s'"
  using assms
proof (induction acts arbitrary: s k)
  case Nil
  then show ?case by (simp add: ret_def)
next
  case (Cons act acts)
  note b = Cons.prems(3) and p = Cons.prems(4,5,7)
  have nB: "n \<le> B" if "act = Call (Sleep n)" for n using p(2) that by simp
  have kB: "k + B + 1 \<le> INT_MAX" using p(3) by simp
  have wt: "well_typed act" "act \<noteq> Call (Terminate 0)" using p(1) by simp_all
  obtain s1 where s1: "exec K act s = Ret (fst (a_exec act (view K s))) s1"
    "view K s1 = snd (a_exec act (view K s))" "lib_inv K s1"
    by (rule exec_returns [OF Cons.prems(1,2) wt bounded_act_arith [OF b nB kB Cons.prems(6)]])
  have "bounded B (k + 1) (view K s1)"
    unfolding s1(2) by (rule bounded_exec [OF b nB kB])
  then obtain s2 where "exec_list K acts s1 = Ret (fst (a_run acts (view K s1))) s2"
    "view K s2 = snd (a_run acts (view K s1))" "lib_inv K s2"
    using Cons.IH [OF s1(3) Cons.prems(2), of "k + 1"] p Cons.prems(6) by auto
  with s1 show ?case
    by (intro exI [of _ s2]) (simp del: a_run.simps exec_list.simps add: exec_list_Cons)
qed

lemma init_returns:
  assumes "sys_ok K" and "mangling_ok K" and "in_int q" and "0 \<le> q"
  obtains s where "uthread_init K q (printed msgs) = Ret 0 s" and "lib_start K q s"
proof -
  note i = wp_uthread_init [OF assms(2,4)]
  show ?thesis
  proof (cases "uthread_init K q (printed msgs)")
    case (Ret v s)
    then have "v = 0" using wp_RetD [OF i Ret] assms(1) by auto
    with Ret assms show ?thesis by (intro that) (auto simp: lib_start_def)
  next
    case (Jump e s)
    then show ?thesis using wp_JumpD [OF i] by blast
  next
    case (Exit n s)
    then show ?thesis using wp_ExitD [OF i] assms(1) by blast
  next
    case (Fault u)
    then show ?thesis using wp_FaultD [OF i] by blast
  qed
qed

lemmas boot_returns = init_returns [where msgs = "[]", unfolded printed_Nil]

end
