(* ===== verification/Fairness.thy ===== *)
theory Fairness
  imports Run
begin

text \<open>
  What a waiting thread can rely on. The ready queue is first-in first-out: \<open>fifo_scheduler\<close> is
  the interface a fair queue offers, with the bound on the wait proved once inside it; the
  contract is its instance. The second half follows a sleeping thread through a run.
\<close>

subsection \<open>A fair queue\<close>

definition ahead :: "'x \<Rightarrow> 'x list \<Rightarrow> nat" where
  "ahead t q = length (takeWhile (\<lambda>u. u \<noteq> t) q)"

lemma ahead_Nil [simp]: "ahead t [] = 0"
  by (simp add: ahead_def)

lemma ahead_Cons [simp]: "ahead t (u # q) = (if u = t then 0 else Suc (ahead t q))"
  by (simp add: ahead_def)

lemma ahead_append [simp]: "t \<in> set q \<Longrightarrow> ahead t (q @ r) = ahead t q"
  by (simp add: ahead_def takeWhile_append1)

lemma ahead_filter: "P t \<Longrightarrow> ahead t (filter P q) \<le> ahead t q"
  by (induction q) auto

lemma ahead_nth: "distinct q \<Longrightarrow> k < length q \<Longrightarrow> ahead (q ! k) q = k"
proof (induction q arbitrary: k)
  case (Cons u q)
  then show ?case by (cases k) (auto simp: in_set_conv_nth)
qed simp

locale fifo_scheduler =
  fixes queue :: "'s \<Rightarrow> 'x list" and now :: "'s \<Rightarrow> 'x" and clock :: "'s \<Rightarrow> int"
    and step :: "'l \<Rightarrow> 's \<Rightarrow> 's" and drops :: "'l \<Rightarrow> 'x \<Rightarrow> bool"
  assumes advance: "t \<in> set (queue s) \<Longrightarrow> \<not> drops l t \<Longrightarrow>
     (clock (step l s) = clock s \<and> t \<in> set (queue (step l s)) \<and>
        ahead t (queue (step l s)) \<le> ahead t (queue s)) \<or>
     (clock (step l s) = clock s + 1 \<and>
        (now (step l s) = t \<or>
         t \<in> set (queue (step l s)) \<and> ahead t (queue (step l s)) < ahead t (queue s)))"
begin

text \<open>Whoever has \<open>k\<close> others before it is served within \<open>k + 1\<close> ticks of the clock.\<close>

lemma bounded_wait:
  assumes "t \<in> set (queue s)" and "\<forall>l \<in> set ls. \<not> drops l t"
    and "clock s + int (ahead t (queue s)) < clock (fold step ls s)"
  shows "\<exists>i \<le> length ls. now (fold step (take i ls) s) = t"
  using assms
proof (induction ls arbitrary: s)
  case Nil
  then show ?case by simp
next
  case (Cons l ls)
  let ?s = "step l s"
  have served: ?case if "now ?s = t"
    using that by (intro exI [of _ "Suc 0"]) simp
  have later: ?case if wait: "\<exists>i \<le> length ls. now (fold step (take i ls) ?s) = t"
  proof -
    obtain i where "i \<le> length ls" "now (fold step (take i ls) ?s) = t" using wait by blast
    then show ?thesis by (intro exI [of _ "Suc i"]) simp
  qed
  have rest: "\<forall>l \<in> set ls. \<not> drops l t" using Cons.prems(2) by simp
  from advance [of t s l] Cons.prems(1,2) consider
    "clock ?s = clock s" "t \<in> set (queue ?s)" "ahead t (queue ?s) \<le> ahead t (queue s)"
    | "now ?s = t"
    | "clock ?s = clock s + 1" "t \<in> set (queue ?s)" "ahead t (queue ?s) < ahead t (queue s)"
    by auto
  then show ?case
  proof cases
    case 1
    then show ?thesis using Cons.prems(3) by (intro later Cons.IH rest) auto
  next
    case 2
    then show ?thesis by (rule served)
  next
    case 3
    then show ?thesis using Cons.prems(3) by (intro later Cons.IH rest) auto
  qed
qed

end

text \<open>The actions that can take a thread out of the queue without serving it.\<close>

fun drops :: "action \<Rightarrow> tid \<Rightarrow> bool" where
  "drops (Call (Block tid)) t = (size_t_of_int tid = t)"
| "drops (Call (Terminate tid)) t = (size_t_of_int tid = t)"
| "drops _ t = False"

definition a_next :: "action \<Rightarrow> lib \<Rightarrow> lib" where
  "a_next act a = snd (a_exec act a)"

lemma a_run_fold: "snd (a_run acts a) = fold a_next acts a"
  by (induction acts arbitrary: a) (simp_all add: a_next_def del: a_run.simps(2))

lemma a_ready_simps [simp]:
  "a_ready (snd (a_goes_on a)) = a_ready a" "a_ready (a_dispatch a) = tl (a_ready a)"
  "a_ready (snd (a_return v a)) = a_ready a" "a_ready (a_leave st p a) = a_ready a"
  "a_running (snd (a_goes_on a)) = a_running a" "a_running (snd (a_return v a)) = a_running a"
  "a_running (a_leave st p a) = a_running a"
  "a_ready (a_to_sleep n a) = a_ready a" "a_running (a_to_sleep n a) = a_running a"
  by (simp_all add: a_goes_on_def a_return_def a_defs a_to_sleep_def)

lemma a_ready_wake: "\<exists>r. a_ready (a_wake a) = a_ready a @ r"
  by (simp add: a_wake_def)

lemma a_ready_enqueue: "\<exists>r. a_ready (a_enqueue t a) = a_ready a @ r"
  by (auto simp: a_enqueue_def)

lemma decision_advance:
  assumes "t \<in> set q" and "a_ready b = q @ r"
  shows "a_total (a_dispatch b) = a_total b + 1 \<and>
    (a_running (a_dispatch b) = t \<or>
     t \<in> set (a_ready (a_dispatch b)) \<and> ahead t (a_ready (a_dispatch b)) < ahead t q)"
proof -
  obtain u q' where q: "q = u # q'" using assms(1) by (cases q) auto
  show ?thesis using assms by (cases "u = t") (auto simp: q)
qed

lemma switch_advance:
  assumes "t \<in> set q" and "a_ready b = q"
  shows "a_running (snd (a_switch b)) = t \<or>
     t \<in> set (a_ready (snd (a_switch b))) \<and> ahead t (a_ready (snd (a_switch b))) < ahead t q"
proof -
  obtain r where "a_ready (a_wake b) = q @ r" using a_ready_wake [of b] assms(2) by auto
  from decision_advance [OF assms(1) this] show ?thesis by (simp add: a_switch_def)
qed

lemma tick_queue:
  assumes "\<not> a_masked a"
  obtains b r where "a_next Tick a = snd (a_goes_on (a_dispatch b))" and "a_ready b = a_ready a @ r"
    and "a_total b = a_total a"
proof -
  let ?p = "a_update (a_running a) (\<lambda>th. th\<lparr>a_point := Preempted\<rparr>) a"
  let ?b = "a_enqueue (a_running a) (a_wake ?p)"
  obtain r1 where "a_ready (a_wake ?p) = a_ready a @ r1" using a_ready_wake [of ?p] by auto
  moreover obtain r2 where "a_ready ?b = a_ready (a_wake ?p) @ r2" using a_ready_enqueue by blast
  ultimately have "a_ready ?b = a_ready a @ (r1 @ r2)" by simp
  with assms show ?thesis
    by (intro that [of ?b "r1 @ r2"]) (simp_all add: a_next_def a_tick_def)
qed

lemma a_forget_ready: "a_ready (a_forget t a) = filter (\<lambda>u. u \<noteq> t) (a_ready a)"
  by (simp add: a_forget_def)

lemma a_advance:
  assumes "t \<in> set (a_ready a)" and "\<not> drops act t"
  shows "(a_total (a_next act a) = a_total a \<and> t \<in> set (a_ready (a_next act a)) \<and>
        ahead t (a_ready (a_next act a)) \<le> ahead t (a_ready a)) \<or>
     (a_total (a_next act a) = a_total a + 1 \<and>
        (a_running (a_next act a) = t \<or>
         t \<in> set (a_ready (a_next act a)) \<and> ahead t (a_ready (a_next act a)) < ahead t (a_ready a)))"
proof (cases "(act, a)" rule: a_exec.cases)
  case 1
  show ?thesis
  proof (cases "a_masked a")
    case True
    with 1 assms show ?thesis by (simp add: a_next_def a_tick_def)
  next
    case False
    then obtain b r where "a_next Tick a = snd (a_goes_on (a_dispatch b))" "a_ready b = a_ready a @ r"
      "a_total b = a_total a" by (rule tick_queue)
    with 1 decision_advance [OF assms(1)] show ?thesis by simp
  qed
next
  case (3 tid _)
  let ?u = "size_t_of_int tid"
  have "t \<noteq> ?u" using assms(2) 3 by auto
  moreover note switch_advance [OF assms(1), of "a\<lparr>a_threads := (a_threads a)(?u := None)\<rparr>"]
  ultimately show ?thesis using 3 assms(1)
    by (auto simp: a_next_def a_terminate_def Let_def ahead_filter a_forget_ready
      split: option.splits State.splits)
next
  case (4 tid _)
  let ?u = "size_t_of_int tid"
  have "t \<noteq> ?u" using assms(2) 4 by auto
  moreover note switch_advance [OF assms(1),
      of "a_leave BLOCKED In_call (a\<lparr>a_blocked := insert ?u (a_blocked a)\<rparr>)"]
  ultimately show ?thesis using 4 assms(1)
    by (auto simp: a_next_def a_block_def Let_def ahead_filter split: option.splits State.splits)
next
  case (6 n _)
  with switch_advance [OF assms(1), of "a_to_sleep n a"] assms(1) show ?thesis
    by (auto simp: a_next_def a_sleep_def)
next
  case (5 tid _)
  obtain r where "a_ready (a_enqueue (size_t_of_int tid) a) = a_ready a @ r"
    using a_ready_enqueue by blast
  with 5 assms(1) show ?thesis
    by (auto simp: a_next_def a_resume_def Let_def split: option.splits State.splits)
qed (use assms(1) in \<open>auto simp: a_next_def a_spawn_def a_get_quantums_def split: option.splits\<close>)

interpretation rr: fifo_scheduler a_ready a_running a_total a_next drops
  by unfold_locales (rule a_advance)

subsection \<open>The timer alone\<close>

lemma a_masked_goes_on [simp]: "a_masked (snd (a_goes_on a)) = False"
  by (simp add: a_goes_on_def)

lemma ticks_serve:
  assumes "\<not> a_masked a" and "k < length (a_ready a)"
  shows "a_running (fold a_next (replicate (Suc k) Tick) a) = a_ready a ! k"
  using assms
proof (induction k arbitrary: a)
  case 0
  obtain b r where "a_next Tick a = snd (a_goes_on (a_dispatch b))" "a_ready b = a_ready a @ r"
    using 0(1) by (rule tick_queue)
  with 0(2) show ?case by (simp add: hd_append hd_conv_nth)
next
  case (Suc k)
  obtain b r where b: "a_next Tick a = snd (a_goes_on (a_dispatch b))" "a_ready b = a_ready a @ r"
    using Suc.prems(1) by (rule tick_queue)
  obtain u q where q: "a_ready a = u # q" using Suc.prems(2) by (cases "a_ready a") auto
  have "a_running (fold a_next (replicate (Suc k) Tick) (a_next Tick a)) = a_ready (a_next Tick a) ! k"
    using Suc.prems(2) b by (intro Suc.IH) (auto simp: q)
  with Suc.prems(2) b show ?case by (simp add: q nth_append)
qed

end
