(* ===== verification/Sleeping.thy ===== *)
theory Sleeping
  imports Fairness
begin

text \<open>
  A sleeping thread through a run: what its entry in the table of sleepers means, how long the
  entry stays there, and that the first decision after its time puts the thread in the queue.
\<close>

subsection \<open>The stored number\<close>

lemma due_wake_value:
  assumes "0 \<le> tot" and "0 \<le> n" and "tot + n + 1 \<le> INT_MAX"
  shows "due (wake_value tot n) now \<longleftrightarrow> tot + n \<le> now"
proof -
  have "wake_value tot n = nat (tot + n + 1)" using assms by (simp add: wake_value_small)
  with assms show ?thesis by (auto simp: due_def int_of_size_t_small int_limits nat_less_iff)
qed

text \<open>Past \<open>INT_MAX\<close> the cast makes the number negative, so it is due at once.\<close>

lemma due_overflow:
  assumes "0 \<le> tot" and "0 \<le> n" and "tot \<le> INT_MAX" and "n \<le> INT_MAX"
    and "2 ^ 31 < tot + n + 1" and "0 \<le> now"
  shows "due (wake_value tot n) now"
proof -
  let ?k = "tot + n + 1"
  have "wake_value tot n = nat ?k" using assms by (simp add: wake_value_small)
  moreover have "?k mod 2 ^ 32 = ?k" using assms by (intro mod_pos_pos_trivial) (auto simp: int_limits)
  ultimately have "int_of_size_t (wake_value tot n) = ?k - 2 ^ 32"
    using assms by (simp add: int_of_size_t_def Let_def)
  with assms show ?thesis by (simp add: due_def int_limits)
qed

subsection \<open>One step\<close>

lemma find_switch:
  assumes "map_ok (a_sleeping b)"
  shows "map_find (a_sleeping (snd (a_switch b))) t =
     (case map_find (a_sleeping b) t of None \<Rightarrow> None | Some v \<Rightarrow> if due v (a_total b) then None else Some v)"
  using map_find_wake [OF assms] by (simp add: a_switch_def)

lemma sleeper_step:
  assumes "a_inv a" and "map_find (a_sleeping a) t = Some v"
    and "\<And>tid. act = Call (Terminate tid) \<Longrightarrow> size_t_of_int tid \<noteq> t"
  shows "(a_total (a_next act a) = a_total a \<and> map_find (a_sleeping (a_next act a)) t = Some v) \<or>
     (a_total (a_next act a) = a_total a + 1 \<and>
      map_find (a_sleeping (a_next act a)) t = (if due v (a_total a) then None else Some v))"
proof -
  note core = assms(1) [unfolded a_inv_def]
  note ok = a_core_map_ok [OF core]
  have asleep: "a_running a \<noteq> t"
    using a_core_sleep [OF core assms(2)] a_core_running [OF core] by auto
  show ?thesis
  proof (cases "(act, a)" rule: a_exec.cases)
    case 1
    with ok assms(2) show ?thesis by (simp add: a_next_def a_tick_def map_find_wake)
  next
    case (3 tid _)
    with assms(3) have "map_find (map_erase (size_t_of_int tid) (a_sleeping a)) t = Some v"
      using assms(2) std.find_erase [OF ok] by simp
    with 3 ok assms(2) show ?thesis
      by (auto simp: a_next_def a_terminate_def Let_def find_switch a_forget_def
        split: option.split State.split)
  next
    case (4 tid _)
    with ok assms(2) show ?thesis
      by (auto simp: a_next_def a_block_def Let_def find_switch split: option.split State.split)
  next
    case (6 n _)
    have "map_find (a_sleeping (a_to_sleep n a)) t = Some v" and "map_ok (a_sleeping (a_to_sleep n a))"
      using assms(2) asleep std.find_assign [OF ok] std.ok_assign [OF ok]
      by (simp_all add: a_to_sleep_def)
    with 6 assms(2) show ?thesis by (auto simp: a_next_def a_sleep_def find_switch)
  qed (use assms(2) in \<open>auto simp: a_next_def a_spawn_def a_resume_def a_get_quantums_def Let_def
    split: option.split State.split\<close>)
qed

subsection \<open>States of threads\<close>

lemma status_simps [simp]:
  "a_status (a_update u (\<lambda>th. th\<lparr>a_state := x\<rparr>) a) t =
     (if t = u \<and> a_status a t \<noteq> None then Some x else a_status a t)"
  "a_status (a_update u (\<lambda>th. th\<lparr>a_point := p\<rparr>) a) t = a_status a t"
  "a_status (a_leave x p a) t = (if t = a_running a \<and> a_status a t \<noteq> None then Some x else a_status a t)"
  "a_status (a_dispatch a) t =
     (if t = hd (a_ready a) \<and> a_status a t \<noteq> None then Some RUNNNING else a_status a t)"
  "a_status (snd (a_goes_on a)) t = a_status a t"
  "a_status (snd (a_return v a)) t = a_status a t"
  "a_status (a_forget u a) t = (if t = u then None else a_status a t)"
  "a_status (a\<lparr>a_threads := (a_threads a)(u := y)\<rparr>) t =
     (if t = u then map_option a_state y else a_status a t)"
  by (auto simp: a_defs a_goes_on_def a_return_def option.map_comp o_def)

lemma status_enqueue [simp]: "a_status (a_enqueue u a) t =
     (if t = u \<and> a_status a t \<noteq> None then Some READY else a_status a t)"
  by (auto simp: a_enqueue_def)

lemma status_switch [simp]: "a_status (snd (a_switch a)) t =
     (if t = hd (a_ready (a_wake a)) \<and> a_status a t \<noteq> None then Some RUNNNING else a_status a t)"
  by (auto simp: a_switch_def)

lemma status_to_sleep [simp]: "a_status (a_to_sleep n a) t =
     (if t = a_running a \<and> a_status a t \<noteq> None then Some READY else a_status a t)"
  by (auto simp: a_to_sleep_def)

text \<open>A thread that is READY stays READY or is dispatched, unless it is blocked or terminated.\<close>

lemma ready_step:
  assumes "a_inv a" and "a_status a t = Some READY" and "\<not> drops act t"
  shows "a_status (a_next act a) t = Some READY \<or> a_status (a_next act a) t = Some RUNNNING"
  using assms(2,3) a_inv_running [OF assms(1)]
  by (cases "(act, a)" rule: a_exec.cases)
    (auto simp: a_next_def a_tick_def a_spawn_def a_terminate_def a_block_def a_resume_def a_sleep_def
      a_get_quantums_def Let_def dest!: free_tid_Some split: option.splits State.splits)

subsection \<open>Runs\<close>

definition legal :: "action \<Rightarrow> bool" where
  "legal act \<longleftrightarrow> well_typed act \<and> act \<noteq> Call (Terminate 0)"

lemma total_step: "a_total (a_next act a) = a_total a \<or> a_total (a_next act a) = a_total a + 1"
  by (cases "(act, a)" rule: a_exec.cases)
    (auto simp: a_next_def a_tick_def a_spawn_def a_terminate_def a_block_def a_resume_def a_sleep_def
      a_get_quantums_def Let_def split: option.split State.split)

lemma total_mono: "a_total a \<le> a_total (fold a_next acts a)"
proof (induction acts arbitrary: a)
  case (Cons act acts)
  have "a_total a \<le> a_total (a_next act a)" using total_step [of act a] by auto
  with Cons.IH [of "a_next act a"] show ?case by simp
qed simp

lemma a_inv_next: "a_inv a \<Longrightarrow> legal act \<Longrightarrow> a_total (a_next act a) \<le> INT_MAX \<Longrightarrow> a_inv (a_next act a)"
  using a_inv_exec by (simp add: a_next_def legal_def)

lemma a_inv_run:
  assumes "a_inv a" and "\<forall>act \<in> set acts. legal act" and "a_total (fold a_next acts a) \<le> INT_MAX"
  shows "a_inv (fold a_next acts a)"
  using assms
proof (induction acts arbitrary: a)
  case (Cons act acts)
  have "a_total (a_next act a) \<le> INT_MAX"
    using total_mono [of "a_next act a" acts] Cons.prems(3) by simp
  with Cons show ?case by (auto intro: a_inv_next)
qed simp

text \<open>\<open>w\<close> is the number of started quantums at which the entry is due.\<close>

lemma sleeper_stays:
  assumes "a_inv a" and "\<forall>act \<in> set acts. legal act" and "map_find (a_sleeping a) t = Some v"
    and "\<And>tot. due v tot \<longleftrightarrow> w \<le> tot"
    and "\<forall>tid. Call (Terminate tid) \<in> set acts \<longrightarrow> size_t_of_int tid \<noteq> t"
    and "a_total (fold a_next acts a) \<le> w" and "a_total (fold a_next acts a) \<le> INT_MAX"
  shows "map_find (a_sleeping (fold a_next acts a)) t = Some v"
  using assms(1-3,5-7)
proof (induction acts arbitrary: a)
  case (Cons act acts)
  let ?b = "a_next act a"
  have tot: "a_total ?b \<le> w" "a_total ?b \<le> INT_MAX"
    using total_mono [of ?b acts] Cons.prems(5,6) by simp_all
  have "act = Call (Terminate tid) \<Longrightarrow> size_t_of_int tid \<noteq> t" for tid using Cons.prems(4) by auto
  then have "map_find (a_sleeping ?b) t = Some v"
    using sleeper_step [OF Cons.prems(1,3), of act] tot(1) assms(4) by auto
  with Cons tot a_inv_next [OF Cons.prems(1) _ tot(2)] show ?case by simp
qed simp

lemma sleeper_wakes:
  assumes "a_inv a" and "\<forall>act \<in> set acts. legal act" and "map_find (a_sleeping a) t = Some v"
    and "\<And>tot. due v tot \<longleftrightarrow> w \<le> tot"
    and "a_status a t = Some READY" and "\<forall>act \<in> set acts. \<not> drops act t"
    and "a_total a \<le> w" and "w < a_total (fold a_next acts a)" and "a_total (fold a_next acts a) \<le> INT_MAX"
  shows "\<exists>i \<le> length acts. a_total (fold a_next (take i acts) a) = w + 1 \<and>
    (t \<in> set (a_ready (fold a_next (take i acts) a)) \<or> a_running (fold a_next (take i acts) a) = t)"
  using assms(1-3,5-9)
proof (induction acts arbitrary: a)
  case Nil
  then show ?case by simp
next
  case (Cons act acts)
  let ?b = "a_next act a"
  have max: "a_total ?b \<le> INT_MAX" using total_mono [of ?b acts] Cons.prems(8) by simp
  have inv: "a_inv ?b" using a_inv_next [OF Cons.prems(1) _ max] Cons.prems(2) by simp
  note core = inv [unfolded a_inv_def]
  have "act = Call (Terminate tid) \<Longrightarrow> size_t_of_int tid \<noteq> t" for tid using Cons.prems(5) by auto
  note st = sleeper_step [OF Cons.prems(1,3), of act, OF this]
  have status: "a_status ?b t = Some READY \<or> a_status ?b t = Some RUNNNING"
    using ready_step [OF Cons.prems(1,4), of act] Cons.prems(5) by simp
  show ?case
  proof (cases "map_find (a_sleeping ?b) t = Some v")
    case True
    have "a_status ?b t = Some READY"
      using status a_core_sleep [OF core True] by auto
    moreover have "a_total ?b \<le> w" using st True Cons.prems(6) assms(4) by (auto split: if_splits)
    ultimately have "\<exists>i \<le> length acts. a_total (fold a_next (take i acts) ?b) = w + 1 \<and>
        (t \<in> set (a_ready (fold a_next (take i acts) ?b)) \<or> a_running (fold a_next (take i acts) ?b) = t)"
      using Cons.prems True inv by (intro Cons.IH) simp_all
    then obtain i where "i \<le> length acts" "a_total (fold a_next (take i acts) ?b) = w + 1"
      "t \<in> set (a_ready (fold a_next (take i acts) ?b)) \<or> a_running (fold a_next (take i acts) ?b) = t"
      by blast
    then show ?thesis by (intro exI [of _ "Suc i"]) simp
  next
    case False
    with st have "a_total ?b = a_total a + 1" "due v (a_total a)" "map_find (a_sleeping ?b) t = None"
      by (auto split: if_splits)
    moreover have "t \<in> set (a_ready ?b) \<or> a_running ?b = t"
      using status \<open>map_find (a_sleeping ?b) t = None\<close> a_core_ready [OF core, of t] a_inv_running [OF inv, of t]
      by auto
    ultimately show ?thesis
      using Cons.prems(6) assms(4) by (intro exI [of _ "Suc 0"]) auto
  qed
qed

lemma after_sleep:
  assumes "a_inv a" and "0 < n" and "a_running a \<noteq> 0" and "a_total a + n + 1 \<le> INT_MAX"
  shows "map_find (a_sleeping (a_next (Call (Sleep n)) a)) (a_running a) = Some (wake_value (a_total a) n)"
    and "a_total (a_next (Call (Sleep n)) a) = a_total a + 1"
    and "a_status (a_next (Call (Sleep n)) a) (a_running a) = Some READY"
proof -
  note core = assms(1) [unfolded a_inv_def] and ok = a_core_map_ok [OF assms(1) [unfolded a_inv_def]]
  let ?t = "a_running a" and ?v = "wake_value (a_total a) n"
  have tot: "1 \<le> a_total a" using a_core_total [OF core] by simp
  have ns: "a_next (Call (Sleep n)) a = snd (a_switch (a_to_sleep n a))"
    using assms(2,3) by (simp add: a_next_def a_sleep_def)
  have ok': "map_ok (a_sleeping (a_to_sleep n a))" and find: "map_find (a_sleeping (a_to_sleep n a)) ?t = Some ?v"
    using std.ok_assign [OF ok] std.find_assign [OF ok] by (simp_all add: a_to_sleep_def)
  have "\<not> due ?v (a_total a)" using due_wake_value [of "a_total a" n "a_total a"] tot assms(2,4) by simp
  then show s: "map_find (a_sleeping (a_next (Call (Sleep n)) a)) ?t = Some ?v"
    using find find_switch [OF ok'] by (simp add: ns)
  show "a_total (a_next (Call (Sleep n)) a) = a_total a + 1" by (simp add: ns)
  have "legal (Call (Sleep n))" using assms tot by (simp add: legal_def in_int_def int_limits)
  then have "a_inv (a_next (Call (Sleep n)) a)"
    using assms(1,2,4) by (intro a_inv_next) (simp_all add: ns)
  note c = this [unfolded a_inv_def]
  have "a_status a ?t = Some RUNNNING" using a_core_running [OF core] .
  then show "a_status (a_next (Call (Sleep n)) a) ?t = Some READY"
    using a_core_sleep [OF c s] by (auto simp: ns split: if_splits)
qed

end
