(* ===== verification/Observe.thy ===== *)
theory Observe
  imports Run
begin

text \<open>
  Quantities of the process the contract does not mention: how often the timer was armed, how the
  quantums are spread over the thread objects, which objects exist. The locale \<open>step_observer\<close> is
  the interface of such a quantity: what the elementary steps of the code do to it, with two phases,
  before and after the timer is armed for the next quantum. \<open>printing_observer\<close> adds messages on
  standard error, \<open>observer\<close> the creation of objects. Inside them every operation is shown to keep the
  quantity once; the interpretations are their instances.
\<close>

definition triple :: "(process \<Rightarrow> bool) \<Rightarrow> ('a \<Rightarrow> process \<Rightarrow> bool) \<Rightarrow> (process \<Rightarrow> bool) \<Rightarrow> 'a sop \<Rightarrow> bool" where
  "triple P R J m \<longleftrightarrow> (\<forall>s. P s \<longrightarrow> wp R (\<lambda>_. J) (\<lambda>_ _. True) (\<lambda>_. True) m s)"

lemma tripleD: "triple P R J m \<Longrightarrow> P s \<Longrightarrow> wp R (\<lambda>_. J) (\<lambda>_ _. True) (\<lambda>_. True) m s"
  by (simp add: triple_def)

lemma triple_bind:
  assumes "triple P Q J m" and "\<And>x. triple (Q x) R J (f x)"
  shows "triple P R J (bind_op m f)"
  unfolding triple_def wp_bind_op
proof (intro allI impI)
  fix s
  assume "P s"
  show "wp (\<lambda>x. wp R (\<lambda>_. J) (\<lambda>_ _. True) (\<lambda>_. True) (f x)) (\<lambda>_. J) (\<lambda>_ _. True) (\<lambda>_. True) m s"
    by (rule wp_mono [OF tripleD [OF assms(1) \<open>P s\<close>]]) (auto intro: tripleD [OF assms(2)])
qed

lemma triple_seq: "triple P (\<lambda>_. Q) J m \<Longrightarrow> triple Q R J n \<Longrightarrow> triple P R J (seq_op m n)"
  unfolding seq_op_def by (rule triple_bind)

text \<open>The two rules for a first part that keeps the condition.\<close>

lemma triple_bind_keep:
  "triple P (\<lambda>_. P) J m \<Longrightarrow> (\<And>x. triple P R J (f x)) \<Longrightarrow> triple P R J (bind_op m f)"
  by (rule triple_bind)

lemma triple_seq_keep: "triple P (\<lambda>_. P) J m \<Longrightarrow> triple P R J n \<Longrightarrow> triple P R J (seq_op m n)"
  by (rule triple_seq)

lemma triple_if: "(b \<Longrightarrow> triple P R J m) \<Longrightarrow> (\<not> b \<Longrightarrow> triple P R J n) \<Longrightarrow> triple P R J (if b then m else n)"
  by simp

lemma triple_ret: "triple P (\<lambda>_. P) J (ret x)"
  by (simp add: triple_def)

lemma triple_fault: "triple P R J (fault u)"
  by (simp add: triple_def)

lemma triple_exit: "triple P R J (exit_with n)"
  by (simp add: triple_def)

lemma triple_gets: "triple P (\<lambda>_. P) J (gets f)"
  by (simp add: triple_def)

lemma triple_int_check: "triple P (\<lambda>_. P) J (int_check i)"
  by (simp add: triple_def)

lemma triple_this: "triple P (\<lambda>_. P) J this"
  by (simp add: triple_def wp_def this_def split: option.split)

lemma triple_load: "triple P (\<lambda>_. P) J (load l)"
  by (simp add: triple_def wp_def load_def split: option.split)

lemma triple_get_thread: "triple P (\<lambda>_. P) J (get_thread t)"
  by (auto simp: triple_def get_thread_def wp_def comb_defs this_def split: option.split)

lemma triple_check_thread: "triple P (\<lambda>_. P) J (check_thread t)"
  by (auto simp: triple_def check_thread_def wp_def comb_defs this_def split: option.split)

lemma triple_for_each: "(\<And>x. triple P (\<lambda>_. P) J (body x)) \<Longrightarrow> triple P (\<lambda>_. P) J (for_each xs body)"
  by (induction xs) (auto intro: triple_ret triple_seq)

lemmas triple_rules = triple_bind_keep triple_seq_keep triple_if triple_ret triple_fault triple_exit triple_gets
  triple_int_check triple_this triple_load triple_get_thread triple_check_thread triple_for_each

locale step_observer =
  fixes I :: "bool \<Rightarrow> process \<Rightarrow> bool"
  assumes mask: "I b s \<Longrightarrow> I b (s\<lparr>sig_mask := M\<rparr>)"
    and mask_call: "I b s \<Longrightarrow> I b (s\<lparr>events := Sys (Sigprocmask h S) r # events s\<rparr>)"
    and sched: "I b s \<Longrightarrow> scheduler s = Some sc \<Longrightarrow> total_quantums sc' = total_quantums sc \<Longrightarrow>
      timer sc' = timer sc \<Longrightarrow> I b (s\<lparr>scheduler := Some sc'\<rparr>)"
    and obj: "I b s \<Longrightarrow> heap s l = Some th \<Longrightarrow> quantum_t th' = quantum_t th \<Longrightarrow>
      I b (s\<lparr>heap := (heap s)(l \<mapsto> th')\<rparr>)"
    and arm: "I False s \<Longrightarrow> scheduler s = Some sc \<Longrightarrow> r \<noteq> - 1 \<Longrightarrow>
      I True (s\<lparr>events := Sys (Setitimer_virtual (timer sc)) r # events s, itimer := timer sc\<rparr>)"
    and dispatch: "I True s \<Longrightarrow> scheduler s = Some sc \<Longrightarrow> heap s l = Some th \<Longrightarrow>
      in_int (total_quantums sc + 1) \<Longrightarrow> total_quantums sc' = total_quantums sc + 1 \<Longrightarrow>
      timer sc' = timer sc \<Longrightarrow>
      I False (s\<lparr>scheduler := Some sc',
        heap := (heap s)(l \<mapsto> th\<lparr>state := RUNNNING, quantum_t := size_add (quantum_t th) 1\<rparr>)\<rparr>)"
begin

lemma sys_error: "triple P R J (handleErrorSystemCall m)"
  by (simp add: triple_def wp_simps)

lemma change_mask: "triple (I b) (\<lambda>_. I b) J (sigprocmask K h S)"
  by (auto simp: triple_def wp_simps Let_def intro: mask mask_call)

lemma set_mask: "triple (I b) (\<lambda>_. I b) J (modify (\<lambda>s. s\<lparr>sig_mask := M\<rparr>))"
  by (simp add: triple_def mask)

lemma set_this: "(\<And>sc. total_quantums (f sc) = total_quantums sc) \<Longrightarrow> (\<And>sc. timer (f sc) = timer sc) \<Longrightarrow>
    triple (I b) (\<lambda>_. I b) J (set_this f)"
  by (auto simp: triple_def set_this_def wp_def comb_defs this_def intro: sched split: option.split)

lemma update_obj: "(\<And>th. quantum_t (f th) = quantum_t th) \<Longrightarrow>
    triple (I b) (\<lambda>_. I b) J (update_obj l f)"
  by (auto simp: triple_def update_obj_def wp_def comb_defs load_def intro: obj split: option.split)

lemmas rules = triple_rules sys_error change_mask set_mask set_this update_obj

lemma block_signals: "triple (I b) (\<lambda>_. I b) J (block_signals K)"
  unfolding block_signals_def by (intro rules)

lemma unblock_signals: "triple (I b) (\<lambda>_. I b) J (unblock_signals K)"
  unfolding unblock_signals_def by (intro rules)

lemma save_after: "triple (I b) (\<lambda>_. I b) J (save_after K r)"
  unfolding save_after_def by (intro rules unblock_signals)

lemma save: "triple (I b) (\<lambda>_. I b) J (save_current_execution_context K site)"
  unfolding save_current_execution_context_def by (intro rules save_after) simp

lemma ready_thread: "triple (I b) (\<lambda>_. I b) J (ready_thread t)"
  unfolding ready_thread_def by (intro rules) simp_all

lemma collect_awake: "triple (I b) (\<lambda>_. I b) J (collect_awake m awake)"
proof (induction m awake rule: collect_awake.induct)
  case (2 t n m awake)
  then show ?case by (auto intro!: rules)
qed (simp add: triple_ret)

lemma handle_sleep_threads: "triple (I b) (\<lambda>_. I b) J handle_sleep_threads"
  unfolding handle_sleep_threads_def by (intro rules collect_awake) simp_all

lemma remove_thread_from_ready: "triple (I b) (\<lambda>_. I b) J (remove_thread_from_ready t)"
  unfolding remove_thread_from_ready_def by (intro rules) simp_all

lemma unblock_thread: "triple (I b) (\<lambda>_. I b) J (unblock_thread t)"
proof -
  have "triple (I b) (\<lambda>_. I b) J (case st of
      BLOCKED \<Rightarrow> seq_op (ready_thread t) (set_this (\<lambda>sc. sc\<lparr>blocked_threads := blocked_threads sc - {t}\<rparr>))
    | _ \<Rightarrow> ret ())" for st
    by (cases st) (auto intro!: rules ready_thread)
  then show ?thesis unfolding unblock_thread_def by (intro rules)
qed

subsection \<open>A scheduling decision\<close>

lemma setitimer_failed: "triple (\<lambda>s. P s \<and> r = FAILURE_ERROR) R J
    (if r = FAILURE_ERROR then handleErrorSystemCall m else ret ())"
  by (simp add: triple_def wp_simps)

lemma reset_time: "triple (I False) (\<lambda>_. I True) J (reset_time K)"
  by (auto simp: triple_def reset_time_def wp_def comb_defs this_def setitimer_def do_syscall_def Let_def
      handleErrorSystemCall_def stderr_put_def handle_consts
      dest: arm split: option.split)

lemma run_next_thread: "triple (I True) R (I False) run_next_thread"
  unfolding triple_def
proof (intro allI impI)
  fix s
  assume I: "I True s"
  let ?P = "wp R (\<lambda>_. I False) (\<lambda>_ _. True) (\<lambda>_. True) run_next_thread s"
  show ?P
  proof (cases "scheduler s")
    case None
    then show ?thesis by (simp add: wp_def run_next_thread_def comb_defs this_def)
  next
    case (Some sc)
    show ?thesis
    proof (cases "\<not> in_int (total_quantums sc + 1) \<or> ready_threads sc = []")
      case True
      with Some show ?thesis by (auto simp: run_next_thread_def)
    next
      case False
      then obtain t q where q: "ready_threads sc = t # q" and ok: "in_int (total_quantums sc + 1)"
        by (auto simp: neq_Nil_conv)
      let ?sc = "sc\<lparr>total_quantums := total_quantums sc + 1, running_thread_tid := t, ready_threads := q\<rparr>"
      show ?thesis
      proof (cases "map_find (threads sc) t")
        case None
        with Some q ok show ?thesis by (simp add: run_next_thread_def get_thread_def)
      next
        case (Some l)
        note sc = \<open>scheduler s = Some sc\<close>
        show ?thesis
        proof (cases "heap s l")
          case None
          with sc q ok Some show ?thesis
            by (simp add: run_next_thread_def wp_def comb_defs this_def set_this_def get_thread_def
                update_obj_def load_def int_check_def)
        next
          case (Some th)
          let ?th = "th\<lparr>state := RUNNNING, quantum_t := size_add (quantum_t th) 1\<rparr>"
          have "I False (s\<lparr>scheduler := Some ?sc, heap := (heap s)(l \<mapsto> ?th)\<rparr>)"
            by (rule dispatch [OF I sc Some ok]) simp_all
          then have "I False (s\<lparr>scheduler := Some ?sc, heap := (heap s)(l \<mapsto> ?th), sig_mask := M\<rparr>)" for M
            using mask [of False "s\<lparr>scheduler := Some ?sc, heap := (heap s)(l \<mapsto> ?th)\<rparr>" M] by simp
          with sc q ok Some \<open>map_find (threads sc) t = Some l\<close> show ?thesis
            by (simp add: run_next_thread_def wp_siglongjmp)
        qed
      qed
    qed
  qed
qed

lemma decision: "triple (I True) R (I False) (seq_op handle_sleep_threads run_next_thread)"
  by (rule triple_seq_keep [OF handle_sleep_threads run_next_thread])

lemma rearm_and_decide:
  "triple (I False) R (I False) (seq_op (reset_time K) (seq_op handle_sleep_threads run_next_thread))"
  by (rule triple_seq [OF reset_time decision])

lemma change_thread_after: "r \<noteq> 1 \<Longrightarrow> triple (I True) R (I False) (change_thread_after K r)"
  unfolding change_thread_after_def
  by (simp, intro triple_seq_keep [OF handle_sleep_threads] triple_bind_keep [OF triple_this]
      triple_seq_keep [OF ready_thread] triple_seq [OF run_next_thread [where R = "\<lambda>_ _. False"]])
    (simp add: triple_def)

lemma save_then:
  assumes "triple (I b) R J (f 0)"
  shows "triple (I b) R J (bind_op (save_current_execution_context K site) f)"
proof (rule triple_bind)
  show "triple (I b) (\<lambda>r s. r = 0 \<and> I b s) J (save_current_execution_context K site)"
    unfolding save_current_execution_context_def save_after_def
    by (intro triple_bind_keep [OF triple_this] triple_bind_keep [OF triple_get_thread]
        triple_bind_keep [OF triple_gets] triple_seq_keep [OF update_obj]) (simp_all add: triple_def)
  show "triple (\<lambda>s. r = 0 \<and> I b s) R J (f r)" for r
    using assms by (simp add: triple_def)
qed

lemma change_thread: "triple (I False) R (I False) (change_thread K sig)"
  unfolding change_thread_eq
  by (intro triple_seq_keep [OF block_signals] triple_seq [OF reset_time] save_then change_thread_after) simp

lemma block_thread_after: "r \<noteq> 1 \<Longrightarrow> triple (I False) R (I False) (block_thread_after K r)"
  by (simp add: block_thread_after_def rearm_and_decide)

lemma block_thread: "triple (I False) (\<lambda>_. I False) (I False) (block_thread K t)"
proof -
  have "triple (I False) (\<lambda>_. I False) (I False) (case st of
       READY \<Rightarrow> seq_op (Scheduler.set_this (\<lambda>sc. sc\<lparr>blocked_threads := insert t (blocked_threads sc)\<rparr>))
         (seq_op (Scheduler.update_obj l (\<lambda>th. th\<lparr>state := BLOCKED\<rparr>)) (Scheduler.remove_thread_from_ready t))
     | RUNNNING \<Rightarrow> seq_op (Scheduler.set_this (\<lambda>sc. sc\<lparr>blocked_threads := insert t (blocked_threads sc)\<rparr>))
         (seq_op (Scheduler.update_obj l (\<lambda>th. th\<lparr>state := BLOCKED\<rparr>))
           (bind_op (save_current_execution_context K In_block_thread) (Scheduler.block_thread_after K)))
     | BLOCKED \<Rightarrow> ret ())" for st l
    by (cases st) (auto intro!: rules remove_thread_from_ready save_then block_thread_after)
  then show ?thesis unfolding block_thread_def by (intro rules)
qed

lemma sleep_after: "r \<noteq> 1 \<Longrightarrow> triple (I False) R (I False) (sleep_after K t r)"
  unfolding sleep_after_def by (auto intro!: rules rearm_and_decide)

lemma get_running: "triple P (\<lambda>_. P) J get_running_thread_tid"
  unfolding get_running_thread_tid_def by (intro triple_rules)

lemma sleep_running_thread: "triple (I False) R (I False) (sleep_running_thread K n)"
  unfolding sleep_running_thread_def Let_def
  by (intro rules get_running save_then sleep_after) simp_all

lemma remove_by_state: "triple (I False) (\<lambda>_. I False) (I False) (case st of
     READY \<Rightarrow> Scheduler.remove_thread_from_ready t
   | RUNNNING \<Rightarrow> seq_op (Scheduler.reset_time K) (seq_op Scheduler.handle_sleep_threads Scheduler.run_next_thread)
   | BLOCKED \<Rightarrow> Scheduler.set_this (\<lambda>sc. sc\<lparr>blocked_threads := blocked_threads sc - {t}\<rparr>))"
  by (cases st) (auto intro!: rules remove_thread_from_ready rearm_and_decide)

lemma deliver: "triple (I False) (\<lambda>_. I False) (I False) (deliver_timer K)"
proof -
  have "triple (I False) (\<lambda>_. I False) (I False) (case h of
         SIG_DFL \<Rightarrow> exit_with (- 1)
       | Callback_handler \<Rightarrow>
           seq_op (modify (\<lambda>s. s\<lparr>sig_mask := insert SIGVTALRM M\<rparr>)) (
           seq_op (callback_handler K SIGVTALRM) (modify (\<lambda>s. s\<lparr>sig_mask := M\<rparr>))))" for h M
    by (cases h) (auto simp: callback_handler_def intro!: rules change_thread)
  then show ?thesis unfolding deliver_timer_def by (intro rules)
qed

lemma resume: "triple (I False) (\<lambda>_. I False) J (resume_context K e)"
proof (cases "jmpbuf e ! JB_PC")
  case (Stored w)
  then show ?thesis by (simp add: resume_context_def Let_def triple_ret triple_fault)
next
  case (Saved site)
  have one: "triple (I False) (\<lambda>r s. r = 1 \<and> I False s) J (Scheduler.save_after K 1)"
    unfolding save_after_def by (simp, intro triple_seq_keep [OF unblock_signals]) (simp add: triple_def)
  have then_ret: "triple (I False) (\<lambda>_. I False) J (bind_op (Scheduler.save_after K 1) f)"
    if "triple (I False) (\<lambda>_. I False) J (f 1)" for f :: "int \<Rightarrow> answer sop"
    by (rule triple_bind [OF one]) (use that in \<open>simp add: triple_def\<close>)
  have unblocked: "triple (I False) (\<lambda>_. I False) J (bind_op (seq_op (Scheduler.unblock_signals K) (ret 0)) f)"
    if "triple (I False) (\<lambda>_. I False) J (f 0)" for f :: "int \<Rightarrow> answer sop"
  proof -
    have "triple (I False) (\<lambda>r s. r = 0 \<and> I False s) J (seq_op (Scheduler.unblock_signals K) (ret 0))"
      by (intro triple_seq_keep [OF unblock_signals]) (simp add: triple_def)
    then show ?thesis by (rule triple_bind) (use that in \<open>simp add: triple_def\<close>)
  qed
  have pure: "seq_op (ret x) f = f" for x :: unit and f :: "answer sop"
    by (simp add: comb_defs fun_eq_iff)
  show ?thesis
  proof (cases site)
    case In_Thread_ctor
    then show ?thesis by (simp add: Saved resume_context_def triple_fault)
  next
    case In_change_thread
    then show ?thesis unfolding resume_context_def
      by (simp add: Saved, intro then_ret) (auto simp: change_thread_after_def intro!: rules)
  next
    case In_block_thread
    then show ?thesis unfolding resume_context_def uthread_block_after_def
      by (simp add: Saved, intro then_ret) (simp add: block_thread_after_def pure unblocked triple_ret)
  next
    case In_sleep_running_thread
    then show ?thesis unfolding resume_context_def uthread_sleep_after_def
      by (simp add: Saved, intro then_ret) (simp add: sleep_after_def pure unblocked triple_ret)
  qed
qed

lemma exec_after:
  assumes run: "triple (I False) (\<lambda>_. I False) (I False) (run_action K act)"
    and "I False s" and "exec K act s = Ret v s'"
  shows "I False s'"
proof -
  note w = tripleD [OF run assms(2)]
  show ?thesis
  proof (cases "run_action K act s")
    case (Ret x s1)
    with assms(3) wp_RetD [OF w Ret] show ?thesis by (simp add: exec_def)
  next
    case (Jump e s1)
    then have "I False s1" and "resume_context K e s1 = Ret v s'"
      using assms(3) wp_JumpD [OF w Jump] by (simp_all add: exec_def)
    then show ?thesis using wp_RetD [OF tripleD [OF resume]] by blast
  qed (use assms(3) in \<open>simp_all add: exec_def\<close>)
qed

end

text \<open>The same when messages on standard error do not change the quantity.\<close>

locale printing_observer = step_observer +
  assumes stderr: "I b s \<Longrightarrow> I b (s\<lparr>events := Stderr m # events s\<rparr>)"
begin

lemma lib_error: "triple (I b) (\<lambda>_. I b) J (handleErrorLibrary m)"
  by (simp add: triple_def wp_simps stderr)

lemma set_thread: "triple (I b) (\<lambda>_. I b) J (set_thread i l)"
  unfolding set_thread_def by (intro rules lib_error) simp_all

lemma remove_thread: "triple (I False) (\<lambda>_. I False) (I False) (remove_thread K t)"
  unfolding remove_thread_def by (intro rules lib_error remove_by_state) simp_all

subsection \<open>The API functions\<close>

lemma api_other:
  assumes "f \<noteq> Terminate 0" and "\<And>ep. f \<noteq> Spawn ep"
  shows "triple (I False) (\<lambda>_. I False) (I False) (run_api K f)"
proof (cases f)
  case (Spawn ep)
  with assms(2) show ?thesis by blast
next
  case (Terminate tid)
  with assms(1) have "tid \<noteq> 0" by simp
  then show ?thesis unfolding Terminate run_api.simps uthread_terminate_def
    by (auto intro!: rules lib_error block_signals unblock_signals remove_thread)
next
  case (Block tid)
  show ?thesis unfolding Block run_api.simps uthread_block_def uthread_block_after_def
    by (intro rules lib_error block_signals unblock_signals block_thread)
next
  case (Resume tid)
  show ?thesis unfolding Resume run_api.simps uthread_resume_def
    by (intro rules lib_error block_signals unblock_signals unblock_thread)
next
  case (Sleep n)
  show ?thesis unfolding Sleep run_api.simps uthread_sleep_def uthread_sleep_after_def uthread_get_tid_def
    by (intro rules lib_error block_signals unblock_signals sleep_running_thread get_running)
next
  case Get_tid
  show ?thesis unfolding Get_tid run_api.simps uthread_get_tid_def by (rule get_running)
next
  case Get_total_quantums
  show ?thesis
    unfolding Get_total_quantums run_api.simps uthread_get_total_quantums_def get_total_quantums_def
    by (intro rules lib_error block_signals unblock_signals)
next
  case (Get_quantums tid)
  show ?thesis unfolding Get_quantums run_api.simps uthread_get_quantums_def Let_def
    by (intro rules lib_error block_signals unblock_signals)
qed

lemma timer: "triple (I False) (\<lambda>_. I False) (I False) (run_action K Tick)"
  unfolding run_action_def action.case by (intro rules deliver)

lemma exec_other:
  assumes "act \<noteq> Call (Terminate 0)" and "\<And>ep. act \<noteq> Call (Spawn ep)" and "I False s"
    and "exec K act s = Ret v s'"
  shows "I False s'"
proof (rule exec_after [OF _ assms(3,4)])
  show "triple (I False) (\<lambda>_. I False) (I False) (run_action K act)"
  proof (cases act)
    case (Call f)
    with assms(1,2) show ?thesis unfolding run_action_def by (auto intro!: triple_bind_keep triple_ret api_other)
  qed (use timer in simp)
qed

end

text \<open>The same when new thread objects do not change it either.\<close>

locale observer = printing_observer +
  assumes new: "I b s \<Longrightarrow> quantum_t th = 0 \<Longrightarrow>
      I b (s\<lparr>heap := (heap s)(next_obj s \<mapsto> th), next_obj := Suc (next_obj s)\<rparr>)"
begin

lemma new_obj: "triple (I b) (\<lambda>_. I b) J (new_Thread K st 0 al ep)"
  by (simp add: triple_def new)

lemma add_new_thread_from: "triple (I b) (\<lambda>_. I b) J (add_new_thread_from n K st 0 al ep i)"
proof (induction n arbitrary: i)
  case 0
  then show ?case by (simp add: triple_def wp_def ret_def)
next
  case (Suc n)
  have "triple (I b) (\<lambda>_. I b) J (\<lambda>s. add_new_thread_from (Suc n) K st 0 al ep i s)"
    unfolding add_new_thread_from.simps by (intro rules new_obj set_thread Suc.IH) simp_all
  then show ?case .
qed

lemma api: "f \<noteq> Terminate 0 \<Longrightarrow> triple (I False) (\<lambda>_. I False) (I False) (run_api K f)"
proof (cases "\<exists>ep. f = Spawn ep")
  case True
  then obtain ep where f: "f = Spawn ep" by blast
  show ?thesis unfolding f run_api.simps uthread_spawn_def add_new_thread_def
    by (intro rules lib_error block_signals unblock_signals add_new_thread_from)
qed (auto intro!: api_other)

lemma exec_keeps:
  assumes "act \<noteq> Call (Terminate 0)" and "I False s" and "exec K act s = Ret v s'"
  shows "I False s'"
proof (rule exec_after [OF _ assms(2,3)])
  show "triple (I False) (\<lambda>_. I False) (I False) (run_action K act)"
  proof (cases act)
    case (Call f)
    with assms(1) show ?thesis unfolding run_action_def by (auto intro!: triple_bind_keep triple_ret api)
  qed (use timer in simp)
qed

lemma reachable_keeps:
  assumes "\<And>s. lib_start K q s \<Longrightarrow> I False s" and "lib_reachable K q s"
  shows "I False s"
  using assms(2)
proof (induction rule: reachable.induct)
  case (first s)
  then show ?case by (rule assms(1))
next
  case (more s l s')
  then obtain act v where e: "well_typed act" "exec K act s = Ret v s'" by (auto elim: lib_stepE)
  have "lib_inv K s" using more(1) by (rule lib.conc.reachable_inv)
  then have "act \<noteq> Call (Terminate 0)" using exec_step(3) e by blast
  with more e show ?case using exec_keeps by blast
qed

end

subsection \<open>The state after initialisation\<close>

fun arms_timer :: "event \<Rightarrow> bool" where
  "arms_timer (Sys (Setitimer_virtual t) r) = (r \<noteq> - 1)"
| "arms_timer _ = False"

definition arm_count :: "process \<Rightarrow> nat" where
  "arm_count s = length (filter arms_timer (events s))"

lemma wp_init_observed:
  assumes "0 \<le> q"
  shows "wp (\<lambda>v s. v = 0 \<longrightarrow> scheduler s = Some (ready_scheduler q) \<and> itimer s = quantum_timer q \<and>
        arm_count s = 1 \<and> heap s = [0 \<mapsto> Thread_ctor K 0 {} RUNNNING 1 False 0] \<and> next_obj s = 1)
      (\<lambda>e s. True) (\<lambda>n s. True) (\<lambda>u. True) (uthread_init K q) (printed msgs)"
  using assms
  by (auto simp: uthread_init_def init_scheduler_def set_thread_def reset_time_def boot_def printed_def wp_simps Let_def
      handle_consts Scheduler_ctor_def MAX_THREAD_NUM_def in_int_def int_limits ready_scheduler_def
      arm_count_def)

lemma lib_start_observed:
  assumes "lib_start K q s"
  shows "scheduler s = Some (ready_scheduler q)" and "itimer s = quantum_timer q" and "arm_count s = 1"
    and "heap s = [0 \<mapsto> Thread_ctor K 0 {} RUNNNING 1 False 0]" and "next_obj s = 1"
proof -
  obtain msgs where "uthread_init K q (printed msgs) = Ret 0 s" using assms by (auto simp: lib_start_def)
  from wp_RetD [OF wp_init_observed [OF lib_start_view(4) [OF assms]] this]
  show "scheduler s = Some (ready_scheduler q)" "itimer s = quantum_timer q" "arm_count s = 1"
    "heap s = [0 \<mapsto> Thread_ctor K 0 {} RUNNNING 1 False 0]" "next_obj s = 1"
    by simp_all
qed

subsection \<open>The timer is armed once for every quantum\<close>

definition timer_obs :: "int \<Rightarrow> bool \<Rightarrow> process \<Rightarrow> bool" where
  "timer_obs q armed s \<longleftrightarrow>
     (\<exists>sc. scheduler s = Some sc \<and> timer sc = quantum_timer q \<and> itimer s = quantum_timer q \<and>
        int (arm_count s) = total_quantums sc + (if armed then 1 else 0))"

interpretation armed: observer "timer_obs q" for q
  by unfold_locales (auto simp: timer_obs_def arm_count_def)

subsection \<open>Every quantum is charged to one thread object\<close>

definition quantum_sum :: "process \<Rightarrow> nat" where
  "quantum_sum s = (\<Sum>l < next_obj s. case heap s l of None \<Rightarrow> 0 | Some th \<Rightarrow> quantum_t th)"

definition charge_obs :: "bool \<Rightarrow> process \<Rightarrow> bool" where
  "charge_obs armed s \<longleftrightarrow>
     (\<exists>sc. scheduler s = Some sc \<and> int (quantum_sum s) = total_quantums sc \<and>
        total_quantums sc \<le> INT_MAX \<and> (\<forall>l. heap s l \<noteq> None \<longrightarrow> l < next_obj s))"

lemma quantum_sum_update:
  assumes "heap s l = Some th" and "l < next_obj s"
  shows "quantum_sum (s\<lparr>heap := (heap s)(l \<mapsto> th')\<rparr>) + quantum_t th = quantum_sum s + quantum_t th'"
proof -
  let ?q = "\<lambda>h x. case h x of None \<Rightarrow> 0 | Some th \<Rightarrow> quantum_t th"
  let ?rest = "{..<next_obj s} - {l}"
  have split: "(\<Sum>x < next_obj s. ?q h x) = ?q h l + (\<Sum>x \<in> ?rest. ?q h x)" for h
    using assms(2) by (intro sum.remove) auto
  have "(\<Sum>x \<in> ?rest. ?q ((heap s)(l \<mapsto> th')) x) = (\<Sum>x \<in> ?rest. ?q (heap s) x)"
    by (intro sum.cong) auto
  with assms(1) split [of "heap s"] split [of "(heap s)(l \<mapsto> th')"] show ?thesis
    by (simp add: quantum_sum_def)
qed

lemma quantum_sum_ge:
  assumes "heap s l = Some th" and "l < next_obj s"
  shows "quantum_t th \<le> quantum_sum s"
proof -
  have "(case heap s l of None \<Rightarrow> 0 | Some th \<Rightarrow> quantum_t th) \<le> quantum_sum s"
    unfolding quantum_sum_def using assms(2) by (intro member_le_sum) auto
  with assms(1) show ?thesis by simp
qed

lemma quantum_sum_cong [simp]:
  "quantum_sum (s\<lparr>sig_mask := M\<rparr>) = quantum_sum s" "quantum_sum (s\<lparr>events := es\<rparr>) = quantum_sum s"
  "quantum_sum (s\<lparr>itimer := i\<rparr>) = quantum_sum s" "quantum_sum (s\<lparr>scheduler := x\<rparr>) = quantum_sum s"
  by (simp_all add: quantum_sum_def)

lemma quantum_sum_new:
  assumes "\<forall>l. heap s l \<noteq> None \<longrightarrow> l < next_obj s" and "quantum_t th = 0"
  shows "quantum_sum (s\<lparr>heap := (heap s)(next_obj s \<mapsto> th), next_obj := Suc (next_obj s)\<rparr>) = quantum_sum s"
  using assms(2) by (auto simp: quantum_sum_def intro!: sum.cong)

interpretation charged: observer charge_obs
proof unfold_locales
  show "charge_obs b (s\<lparr>heap := (heap s)(l \<mapsto> th')\<rparr>)"
    if "charge_obs b s" "heap s l = Some th" "quantum_t th' = quantum_t th" for b s l th th'
    using that quantum_sum_update [of s l th th'] by (auto simp: charge_obs_def)
  show "charge_obs b (s\<lparr>heap := (heap s)(next_obj s \<mapsto> th), next_obj := Suc (next_obj s)\<rparr>)"
    if "charge_obs b s" "quantum_t th = 0" for b s th
    using that quantum_sum_new [of s th] by (auto simp: charge_obs_def less_Suc_eq)
  show "charge_obs False (s\<lparr>scheduler := Some sc',
        heap := (heap s)(l \<mapsto> th\<lparr>state := RUNNNING, quantum_t := size_add (quantum_t th) 1\<rparr>)\<rparr>)"
    if "charge_obs True s" "scheduler s = Some sc" "heap s l = Some th"
      "in_int (total_quantums sc + 1)" "total_quantums sc' = total_quantums sc + 1" for s sc sc' l th
  proof -
    have l: "l < next_obj s" and sum: "int (quantum_sum s) = total_quantums sc" "total_quantums sc \<le> INT_MAX"
      and live: "\<forall>l. heap s l \<noteq> None \<longrightarrow> l < next_obj s"
      using that(1-3) by (auto simp: charge_obs_def)
    have "int (quantum_t th) \<le> INT_MAX" using quantum_sum_ge [OF that(3) l] sum by simp
    then have "size_add (quantum_t th) 1 = quantum_t th + 1"
      by (intro size_add_small) (simp add: int_limits)
    then have "quantum_sum (s\<lparr>heap := (heap s)(l \<mapsto> th\<lparr>state := RUNNNING, quantum_t := size_add (quantum_t th) 1\<rparr>)\<rparr>)
        = quantum_sum s + 1"
      using quantum_sum_update [OF that(3) l, of "th\<lparr>state := RUNNNING, quantum_t := size_add (quantum_t th) 1\<rparr>"]
      by simp
    then show ?thesis
      using that(4,5) sum live l by (auto simp: charge_obs_def quantum_sum_def in_int_def)
  qed
qed (auto simp: charge_obs_def)

subsection \<open>No thread object is ever deleted\<close>

definition object_obs :: "bool \<Rightarrow> process \<Rightarrow> bool" where
  "object_obs armed s \<longleftrightarrow> (\<forall>l. heap s l \<noteq> None \<longleftrightarrow> l < next_obj s)"

interpretation objects: observer object_obs
  by unfold_locales (auto simp: object_obs_def less_Suc_eq)

end
