(* ===== verification/Demo.thy ===== *)
theory Demo
  imports Sleeping Observe
begin

text \<open>
  Concrete runs on the platform \<open>good_platform\<close>, with a quantum of 1000 microseconds: every list
  of actions within the bounds leads to a state, and what that state looks like is computed on the
  contract. They show that the hypotheses of the properties can hold.
\<close>

definition first_state :: process where
  "first_state = (case uthread_init good_platform 1000 boot of Ret v s \<Rightarrow> s | _ \<Rightarrow> boot)"

definition state_after :: "action list \<Rightarrow> process" where
  "state_after acts = (case exec_list good_platform acts first_state of Ret v s \<Rightarrow> s | _ \<Rightarrow> boot)"

lemma first_state:
  "uthread_init good_platform 1000 boot = Ret 0 first_state" "lib_start good_platform 1000 first_state"
  "lib_inv good_platform first_state" "view good_platform first_state = a_init"
proof -
  obtain s where s: "uthread_init good_platform 1000 boot = Ret 0 s" "lib_start good_platform 1000 s"
    by (rule boot_returns [OF sys_ok_good_platform mangling_ok_good_platform, of 1000])
      (simp_all add: in_int_def int_limits)
  then have "first_state = s" by (simp add: first_state_def)
  with s lib_start_view show "uthread_init good_platform 1000 boot = Ret 0 first_state"
    "lib_start good_platform 1000 first_state" "lib_inv good_platform first_state"
    "view good_platform first_state = a_init"
    by simp_all
qed

definition small :: "action list \<Rightarrow> bool" where
  "small acts \<longleftrightarrow> (\<forall>act \<in> set acts. legal act \<and> (case act of Call (Sleep n) \<Rightarrow> n \<le> 1000 | _ \<Rightarrow> True)) \<and>
     length acts \<le> 1000"

lemma first_reachable: "lib_reachable good_platform 1000 first_state"
  using first_state(2) by (rule reachable.first)

lemma bounded_init: "bounded B 1 a_init"
  by (simp add: bounded_def a_init_def)

lemma small_run:
  assumes "small acts"
  shows "exec_list good_platform acts first_state = Ret (fst (a_run acts a_init)) (state_after acts)"
    and "view good_platform (state_after acts) = snd (a_run acts a_init)"
    and "lib_inv good_platform (state_after acts)"
    and "lib_reachable good_platform 1000 (state_after acts)"
proof -
  have legal: "\<forall>act \<in> set acts. well_typed act \<and> act \<noteq> Call (Terminate 0)"
    and sleep: "\<forall>n. Call (Sleep n) \<in> set acts \<longrightarrow> n \<le> 1000" and len: "length acts \<le> 1000"
    using assms by (auto simp: small_def legal_def)
  obtain s where s: "exec_list good_platform acts first_state = Ret (fst (a_run acts a_init)) s"
    "view good_platform s = snd (a_run acts a_init)" "lib_inv good_platform s"
    using run_returns [OF first_state(3) sys_ok_good_platform _ legal sleep, of 1] len bounded_init
    by (auto simp: first_state(4) int_limits)
  then have "state_after acts = s" by (simp add: state_after_def)
  with s show e: "exec_list good_platform acts first_state = Ret (fst (a_run acts a_init)) (state_after acts)"
    "view good_platform (state_after acts) = snd (a_run acts a_init)"
    "lib_inv good_platform (state_after acts)" by simp_all
  show "lib_reachable good_platform 1000 (state_after acts)"
    by (rule reachable_exec_list [OF first_reachable _ e(1)]) (use legal in blast)
qed

lemma small_step:
  assumes "small (acts @ [act])"
  shows "exec good_platform act (state_after acts) =
    Ret (fst (a_exec act (snd (a_run acts a_init)))) (state_after (acts @ [act]))"
proof -
  have "small acts" using assms by (simp add: small_def)
  note a = small_run(1) [OF this] and b = small_run(1) [OF assms]
  from b obtain us s1 where "exec_list good_platform [act] (state_after acts) = Ret us (state_after (acts @ [act]))"
    by (auto simp: exec_list_append a)
  then obtain v where v: "exec good_platform act (state_after acts) = Ret v (state_after (acts @ [act]))"
    by (auto simp: exec_list_Cons ret_def simp del: exec_list.simps(2))
  have "well_typed act" using assms by (simp add: small_def legal_def)
  from exec_step(2) [OF small_run(3) [OF \<open>small acts\<close>] this v] v small_run(2) [OF \<open>small acts\<close>]
  show ?thesis by simp
qed

lemma small_ext:
  assumes "small (xs @ ys)"
  shows "exec_list good_platform ys (state_after xs) =
    Ret (fst (a_run ys (snd (a_run xs a_init)))) (state_after (xs @ ys))"
proof -
  have "small xs" using assms by (simp add: small_def)
  note a = small_run [OF this] and b = small_run(1) [OF assms]
  from b obtain us where u: "exec_list good_platform ys (state_after xs) = Ret us (state_after (xs @ ys))"
    by (auto simp: exec_list_append a(1))
  have "\<forall>act \<in> set ys. well_typed act" using assms by (auto simp: small_def legal_def)
  from exec_list_run(2) [OF a(3) this u] u show ?thesis by (simp add: a(2))
qed

text \<open>Computing a run on the contract.\<close>

lemma find_upt:
  "List.find P [i..<n] = (if i < n then if P i then Some i else List.find P [Suc i..<n] else None)"
  by (simp add: upt_conv_Cons)

lemmas a_run_simps = a_init_def a_tick_def a_spawn_def a_terminate_def a_block_def a_resume_def a_sleep_def
  a_get_quantums_def a_switch_def a_wake_def a_enqueue_def a_dispatch_def a_goes_on_def a_point_of_def
  a_leave_def a_to_sleep_def a_return_def a_forget_def a_update_def a_status_def free_tid_def
  MAX_THREAD_NUM_def Let_def due_def wake_value_def size_t_of_int_def size_add_def int_of_size_t_def
  find_upt

end
