(* ===== verification/Behaviour.thy ===== *)
theory Behaviour
  imports Demo
begin

text \<open>
  From the contract to the process: the fields of a process state read through its view, calls
  that return without a scheduling decision, and what a step leaves alone.
\<close>

subsection \<open>Reading a process state\<close>

definition sched :: "process \<Rightarrow> Scheduler" where
  "sched s = the (scheduler s)"

definition state_of :: "process \<Rightarrow> tid \<Rightarrow> State option" where
  "state_of s t = map_option state (thr s t)"

lemma view_sched [simp]:
  "a_ready (view K s) = ready_threads (sched s)" "a_blocked (view K s) = blocked_threads (sched s)"
  "a_sleeping (view K s) = sleeping_threads (sched s)" "a_running (view K s) = running_thread_tid (sched s)"
  "a_total (view K s) = total_quantums (sched s)" "a_masked (view K s) = (SIGVTALRM \<in> sig_mask s)"
  "a_status (view K s) t = state_of s t"
  by (simp_all add: view_def sched_def Let_def state_of_def a_status_def abs_thread_def
      option.map_comp o_def)

lemma reachable_lib_inv: "lib_reachable K q s \<Longrightarrow> lib_inv K s"
  by (rule lib.conc.reachable_inv)

lemma reachable_core: "lib_reachable K q s \<Longrightarrow> a_inv (view K s)"
  using reachable_lib_inv by (simp add: lib_inv_def)

lemma reachable_rep: "lib_reachable K q s \<Longrightarrow> rep_ok s"
  using reachable_lib_inv by (simp add: lib_inv_def)

lemma reachable_sched: "lib_reachable K q s \<Longrightarrow> scheduler s = Some (sched s)"
  by (drule reachable_rep) (auto simp: sched_def elim: rep_okE)

lemma reachable_mangling: "lib_reachable K q s \<Longrightarrow> mangling_ok K"
  using reachable_lib_inv by (simp add: lib_inv_def)

text \<open>A call that gives up nothing returns.\<close>

lemma call_returns:
  assumes "lib_reachable K q s" and "sys_ok K" and "legal act" and "act_arith act (view K s)"
    and "a_exec act (view K s) = (v, a)"
  obtains s' where "exec K act s = Ret v s'" and "view K s' = a" and "lib_reachable K q s'"
proof -
  have act: "well_typed act" "act \<noteq> Call (Terminate 0)" using assms(3) by (simp_all add: legal_def)
  obtain s' where "exec K act s = Ret v s'" "view K s' = a"
    using exec_returns [OF reachable_lib_inv [OF assms(1)] assms(2) act assms(4)] assms(5) by auto
  with that reachable_exec [OF assms(1) act(1)] show ?thesis by blast
qed

lemma step_view:
  assumes "lib_reachable K q s" and "well_typed act" and "exec K act s = Ret v s'"
  shows "a_exec act (view K s) = (v, view K s')" and "view K s' = a_next act (view K s)"
    and "lib_reachable K q s'" and "legal act" and "total_quantums (sched s') \<le> INT_MAX"
  using exec_step [OF reachable_lib_inv [OF assms(1)] assms(2,3)] reachable_exec [OF assms] assms(2)
  by (auto simp: a_next_def legal_def)

lemma run_view:
  assumes "lib_reachable K q s" and "\<forall>act \<in> set acts. well_typed act" and "exec_list K acts s = Ret vs s'"
  shows "a_run acts (view K s) = (vs, view K s')" and "view K s' = fold a_next acts (view K s)"
    and "lib_reachable K q s'" and "total_quantums (sched s') \<le> INT_MAX"
proof -
  note r = exec_list_run [OF reachable_lib_inv [OF assms(1)] assms(2,3)]
  then show "a_run acts (view K s) = (vs, view K s')" by simp
  then show "view K s' = fold a_next acts (view K s)" by (simp add: a_run_fold [symmetric])
  show r': "lib_reachable K q s'" by (rule reachable_exec_list [OF assms])
  show "total_quantums (sched s') \<le> INT_MAX"
    using a_core_total(2) [OF reachable_core [OF r', unfolded a_inv_def]] by simp
qed

lemma run_legal:
  assumes "lib_inv K s" and "\<forall>act \<in> set acts. well_typed act" and "exec_list K acts s = Ret vs s'"
  shows "\<forall>act \<in> set acts. legal act"
  using assms
proof (induction acts arbitrary: s vs)
  case (Cons act acts)
  then obtain v s1 ws where e: "exec K act s = Ret v s1" "exec_list K acts s1 = Ret ws s'"
    by (auto simp only: exec_list_Cons)
  have wt: "well_typed act" "\<forall>act \<in> set acts. well_typed act" using Cons.prems(2) by simp_all
  note st = exec_step [OF Cons.prems(1) wt(1) e(1)]
  show ?case using Cons.IH [OF st(1) wt(2) e(2)] st(3) wt(1) by (simp add: legal_def)
qed simp

lemma run_prefix:
  assumes "lib_reachable K q s" and "\<forall>act \<in> set acts. well_typed act" and "exec_list K acts s = Ret vs s'"
  obtains ws s1 where "exec_list K (take i acts) s = Ret ws s1"
    and "view K s1 = fold a_next (take i acts) (view K s)"
proof -
  obtain ws s1 where e: "exec_list K (take i acts) s = Ret ws s1" using assms(3) by (rule exec_list_take)
  have "\<forall>act \<in> set (take i acts). well_typed act" using assms(2) by (auto dest: in_set_takeD)
  from run_view(2) [OF assms(1) this e] e that show ?thesis by blast
qed

subsection \<open>Threads that wait\<close>

lemma switch_blocked:
  assumes "a_core None b" and "a_status b t = Some BLOCKED"
  shows "a_status (snd (a_switch b)) t = Some BLOCKED"
  using front_exists(1) [OF a_core_wake [OF assms(1)]] assms(2) by auto

lemma blocked_next:
  assumes "a_inv a" and "legal act" and "a_status a t = Some BLOCKED"
    and "\<And>tid. act = Call (Resume tid) \<or> act = Call (Terminate tid) \<Longrightarrow> size_t_of_int tid \<noteq> t"
  shows "a_status (a_next act a) t = Some BLOCKED"
proof -
  note core = assms(1) [unfolded a_inv_def]
  have run: "t \<noteq> a_running a" using assms(3) a_inv_running [OF assms(1), of t] by auto
  have nonzero: "size_t_of_int tid \<noteq> 0" if "act = Call (Terminate tid) \<or> act = Call (Block tid) \<and> tid \<noteq> 0" for tid
    using that assms(2) by (auto simp: legal_def size_t_of_int_eq_0)
  show ?thesis
  proof (cases "(act, a)" rule: a_exec.cases)
    case 1
    let ?p = "a_update (a_running a) (\<lambda>th. th\<lparr>a_point := Preempted\<rparr>) a"
    let ?b = "a_enqueue (a_running a) (a_wake ?p)"
    have "a_core (Some (a_running a)) (a_wake ?p)" by (intro a_core_wake a_core_point core)
    moreover have "resumable (a_point_of (a_wake ?p) (a_running a))"
      using a_core_running [OF core] by (auto simp: a_point_of_def a_update_def a_status_def resumable_def)
    ultimately have "a_core None ?b" by (rule a_core_requeue)
    then have "t \<noteq> hd (a_ready ?b)" using front_exists(1) [of ?b] assms(3) run by auto
    with 1 assms(3) run show ?thesis by (simp add: a_next_def a_tick_def)
  next
    case (2 ep _)
    have "u \<noteq> t" if "free_tid a = Some u" for u
      using free_tid_Some(1) [OF that] assms(3) by (auto simp: a_status_def)
    with 2 assms(3) show ?thesis
      by (auto simp: a_next_def a_spawn_def split: option.split)
  next
    case (3 tid _)
    let ?u = "size_t_of_int tid" and ?b = "a\<lparr>a_threads := (a_threads a)(size_t_of_int tid := None)\<rparr>"
    have u: "?u \<noteq> t" using assms(4) 3 by blast
    have "a_status (snd (a_switch ?b)) t = Some BLOCKED" if "a_status a ?u = Some RUNNNING"
    proof (rule switch_blocked)
      show "a_core None ?b"
        by (rule a_core_terminate_running [of ?u])
          (use that a_inv_running [OF assms(1)] core nonzero 3 in auto)
    qed (use assms(3) u in simp)
    with 3 assms(3) u show ?thesis
      by (auto simp: a_next_def a_terminate_def Let_def simp del: status_switch split: option.split State.split)
  next
    case (4 tid _)
    let ?u = "size_t_of_int tid" and ?b = "a_leave BLOCKED In_call (a\<lparr>a_blocked := insert (size_t_of_int tid) (a_blocked a)\<rparr>)"
    have "a_status (snd (a_switch ?b)) t = Some BLOCKED" if "a_status a ?u = Some RUNNNING" "tid \<noteq> 0"
    proof (rule switch_blocked)
      show "a_core None ?b"
        by (rule a_core_block_running) (use that a_inv_running [OF assms(1)] core nonzero 4 in auto)
    qed (use assms(3) run in simp)
    with 4 assms(3) show ?thesis
      by (auto simp: a_next_def a_block_def Let_def simp del: status_switch split: option.split State.split)
  next
    case (5 tid _)
    then have "size_t_of_int tid \<noteq> t" using assms(4) by blast
    with 5 assms(3) show ?thesis
      by (auto simp: a_next_def a_resume_def Let_def split: option.split State.split)
  next
    case (6 n _)
    have "a_status (snd (a_switch (a_to_sleep n a))) t = Some BLOCKED" if "a_running a \<noteq> 0"
      by (rule switch_blocked, rule a_core_to_sleep [OF core that]) (use assms(3) run in simp_all)
    with 6 assms(3) show ?thesis
      by (simp add: a_next_def a_sleep_def del: status_switch)
  qed (use assms(3) in \<open>auto simp: a_next_def a_get_quantums_def split: option.split\<close>)
qed

lemma blocked_run:
  assumes "a_inv a" and "\<forall>act \<in> set acts. legal act" and "a_status a t = Some BLOCKED"
    and "\<forall>tid. Call (Resume tid) \<in> set acts \<or> Call (Terminate tid) \<in> set acts \<longrightarrow> size_t_of_int tid \<noteq> t"
    and "a_total (fold a_next acts a) \<le> INT_MAX"
  shows "a_status (fold a_next acts a) t = Some BLOCKED"
  using assms
proof (induction acts arbitrary: a)
  case (Cons act acts)
  have max: "a_total (a_next act a) \<le> INT_MAX"
    using total_mono [of "a_next act a" acts] Cons.prems(5) by simp
  have act: "legal act" using Cons.prems(2) by simp
  have "a_status (a_next act a) t = Some BLOCKED"
    by (rule blocked_next [OF Cons.prems(1) act Cons.prems(3)]) (use Cons.prems(4) in auto)
  then show ?case
    using Cons.prems a_inv_next [OF Cons.prems(1) act max] by (auto intro!: Cons.IH)
qed simp

text \<open>
  A step after which another thread runs continues that thread at its saved context: the point
  is the one the thread had before the step.
\<close>

lemma point_other [simp]:
  "t \<noteq> u \<Longrightarrow> a_point_of (a_update u f a) t = a_point_of a t"
  "t \<noteq> a_running a \<Longrightarrow> a_point_of (a_leave x p a) t = a_point_of a t"
  "t \<noteq> u \<Longrightarrow> a_point_of (a\<lparr>a_threads := (a_threads a)(u := None)\<rparr>) t = a_point_of a t"
  by (simp_all add: a_point_of_def a_leave_def a_update_def)

lemma point_simps [simp]:
  "a_point_of (a_wake a) t = a_point_of a t"
  "a_point_of (a_enqueue u a) t = a_point_of a t"
  "a_point_of (a_dispatch a) t = a_point_of a t"
  "a_point_of (a\<lparr>a_blocked := b\<rparr>) t = a_point_of a t"
  "a_point_of (a\<lparr>a_sleeping := m\<rparr>) t = a_point_of a t"
  "a_point_of (a\<lparr>a_masked := x\<rparr>) t = a_point_of a t"
  by (auto simp: a_point_of_def a_enqueue_def a_dispatch_def a_update_def split: option.splits)

lemma point_to_sleep [simp]: "t \<noteq> a_running a \<Longrightarrow> a_point_of (a_to_sleep n a) t = a_point_of a t"
  by (simp add: a_to_sleep_def)

lemma switch_outcome:
  "a_running (snd (a_switch b)) = hd (a_ready (a_wake b))"
  "fst (a_switch b) = answer_at (a_point_of b (hd (a_ready (a_wake b))))"
  "\<not> a_masked (snd (a_switch b))"
  by (simp_all add: a_switch_def a_goes_on_def)

lemma switch_answer:
  assumes "a_exec act a = (v, a')" and "a_running a' \<noteq> a_running a" and "a_inv a"
  shows "v = answer_at (a_point_of a (a_running a')) \<and> \<not> a_masked a' \<and> a_total a' = a_total a + 1"
proof -
  have v: "v = fst (a_exec act a)" and a': "a' = snd (a_exec act a)" using assms(1) by simp_all
  show ?thesis
  proof (cases "(act, a)" rule: a_exec.cases)
    case 1
    with assms(2) show ?thesis unfolding v a' by (auto simp: a_tick_def a_goes_on_def)
  next
    case (2 ep _)
    with assms(2) show ?thesis unfolding v a' by (auto simp: a_spawn_def split: option.splits if_splits)
  next
    case (3 tid _)
    with assms(2,3) a_inv_running [OF assms(3), of "size_t_of_int tid"] show ?thesis unfolding v a'
      by (auto simp: a_terminate_def Let_def switch_outcome split: option.splits State.splits)
  next
    case (4 tid _)
    with assms(2) a_inv_running [OF assms(3), of "size_t_of_int tid"] show ?thesis unfolding v a'
      by (auto simp: a_block_def Let_def switch_outcome split: option.splits State.splits if_splits)
  next
    case (5 tid _)
    with assms(2) show ?thesis unfolding v a'
      by (auto simp: a_resume_def Let_def split: option.splits State.splits)
  next
    case (6 n _)
    with assms(2) show ?thesis unfolding v a'
      by (auto simp: a_sleep_def switch_outcome split: if_splits)
  qed (use assms(2) in \<open>auto simp: a' a_get_quantums_def split: option.splits\<close>)
qed

text \<open>Only \<open>uthread_spawn\<close> creates a thread.\<close>

lemma status_next:
  assumes "a_status (a_next act a) t \<noteq> None" and "\<And>ep. act \<noteq> Call (Spawn ep)"
  shows "a_status a t \<noteq> None"
  using assms
  by (cases "(act, a)" rule: a_exec.cases)
    (auto simp: a_next_def a_tick_def a_terminate_def a_block_def a_resume_def a_sleep_def
      a_get_quantums_def Let_def split: option.splits State.splits if_splits)

lemma spawn_running: "a_running (a_next (Call (Spawn ep)) a) = a_running a"
  by (auto simp: a_next_def a_spawn_def split: option.split)

subsection \<open>The signal mask\<close>

lemma masked_simps [simp]:
  "a_masked (snd (a_goes_on a)) = False" "a_masked (snd (a_return v a)) = False"
  "a_masked (snd (a_switch a)) = False"
  by (simp_all add: a_goes_on_def a_return_def a_switch_def)

lemma mask_next:
  "a_masked (a_next act a) \<longleftrightarrow>
     act = Call (Spawn 0) \<or> (\<exists>n \<le> 0. act = Call (Sleep n)) \<or>
     a_masked a \<and> (act = Tick \<or> act = Call Get_tid)"
  by (cases "(act, a)" rule: a_exec.cases)
    (auto simp: a_next_def a_tick_def a_spawn_def a_terminate_def a_block_def a_resume_def a_sleep_def
      a_get_quantums_def Let_def split: option.split State.split)

lemma masked_ticks: "a_masked a \<Longrightarrow> a_run (replicate k Tick) a = (replicate k Continued, a)"
  by (induction k) (simp_all add: a_tick_def)

subsection \<open>The thread objects\<close>

interpretation kept: observer "\<lambda>_ s. D \<subseteq> dom (heap s)" for D
  by unfold_locales auto

lemma objects_kept:
  assumes "lib_reachable K q s" and "well_typed act" and "exec K act s = Ret v s'"
  shows "dom (heap s) \<subseteq> dom (heap s')"
  using kept.exec_keeps [OF exec_step(3) [OF reachable_lib_inv [OF assms(1)] assms(2,3)] _ assms(3), of "dom (heap s)"]
  by simp

lemma objects_all:
  assumes "lib_reachable K q s"
  shows "dom (heap s) = {..<next_obj s}"
proof -
  have "object_obs False s"
    by (rule objects.reachable_keeps [OF _ assms])
      (auto simp: object_obs_def lib_start_observed split: if_splits)
  then show ?thesis by (auto simp: object_obs_def)
qed

lemma charges:
  assumes "lib_reachable K q s"
  shows "charge_obs False s"
  by (rule charged.reachable_keeps [OF _ assms])
    (auto simp: charge_obs_def lib_start_observed ready_scheduler_def quantum_sum_def int_limits
      split: if_splits)

lemma quantum_bound:
  assumes "lib_reachable K q s" and "thr s t = Some th"
  shows "int (quantum_t th) \<le> total_quantums (sched s)" and "total_quantums (sched s) \<le> INT_MAX"
proof -
  note sc = reachable_sched [OF assms(1)]
  obtain l where l: "heap s l = Some th" using assms(2) sc by (auto simp: thr_def split: option.splits)
  have "l < next_obj s" and sum: "int (quantum_sum s) = total_quantums (sched s)"
    and "total_quantums (sched s) \<le> INT_MAX"
    using charges [OF assms(1)] sc l by (auto simp: charge_obs_def)
  then show "int (quantum_t th) \<le> total_quantums (sched s)" "total_quantums (sched s) \<le> INT_MAX"
    using quantum_sum_ge [OF l] by simp_all
qed

lemma armings:
  assumes "lib_reachable K q s"
  shows "timer_obs q False s"
  by (rule armed.reachable_keeps [OF _ assms])
    (auto simp: timer_obs_def lib_start_observed ready_scheduler_def)

end
