(* ===== verification/Compute.thy ===== *)
theory Compute
  imports Demo
begin

text \<open>
  Symbolic execution of the detailed definitions: \<open>run_simps\<close> unfolds an operation that is
  applied to a state, call by call, so that \<open>simp\<close> computes a run on \<open>good_platform\<close>.
\<close>

lemmas op_unfold =
  set_this_def update_obj_def get_thread_def check_thread_def block_signals_def unblock_signals_def
  reset_time_def save_after_def save_current_execution_context_def ready_thread_def
  handle_sleep_threads_def run_next_thread_def change_thread_after_def change_thread_def
  set_thread_def init_scheduler_def add_new_thread_def remove_thread_from_ready_def
  remove_thread_def block_thread_after_def block_thread_def unblock_thread_def
  get_total_quantums_def get_running_thread_tid_def sleep_after_def sleep_running_thread_def
  remove_all_def callback_handler_def uthread_init_def uthread_spawn_def uthread_terminate_def
  uthread_block_after_def uthread_block_def uthread_resume_def uthread_get_tid_def
  uthread_sleep_after_def uthread_sleep_def uthread_get_total_quantums_def
  uthread_get_quantums_def deliver_timer_def resume_context_def run_action_def
  sigprocmask_def setitimer_def sigaction_def stderr_put_def handleErrorLibrary_def
  handleErrorSystemCall_def handleForcedExit_def int_check_def

lemma good_sys_ret: "sys_ret good_platform es c = 0"
  by (simp add: good_platform_def)

lemma good_demangle: "demangle good_platform (translate_address (pointer_guard good_platform) a) = a"
  using mangling_ok_good_platform by (simp add: mangling_ok_def)

lemma add_new_thread_from_step:
  "0 < n \<Longrightarrow> add_new_thread_from n K st quantum al ep tid s =
     bind_op (check_thread (size_t_of_int tid)) (\<lambda>found.
     if \<not> found
     then bind_op (new_Thread K st quantum al ep) (\<lambda>l.
          seq_op (set_thread (size_t_of_int tid) l) (
          seq_op (if st = READY
                  then set_this (\<lambda>sc. sc\<lparr>ready_threads := ready_threads sc @ [size_t_of_int tid]\<rparr>)
                  else ret ())
                 (ret tid)))
     else add_new_thread_from (n - 1) K st quantum al ep (tid + 1)) s"
  by (cases n) (simp_all cong: if_cong)

lemmas run_simps =
  op_unfold [THEN fun_cong] run_api.simps [THEN fun_cong] collect_awake.simps [THEN fun_cong]
  exec_list.simps [THEN fun_cong] for_each.simps [THEN fun_cong] comb_defs this_def load_def
  new_Thread_def delete_Thread_def do_syscall_def siglongjmp_def exec_def boot_def handle_consts
  Scheduler_ctor_def in_int_def int_limits MAX_THREAD_NUM_def change_mask_def size_t_of_int_def
  int_of_size_t_def size_add_def Let_def add_new_thread_from_step remove_from_deque.simps
  good_sys_ret good_demangle

lemmas stop_unfolding = run_api.simps collect_awake.simps exec_list.simps for_each.simps
  add_new_thread_from.simps

text \<open>The first timer signal: the only thread is preempted and continued.\<close>

lemma first_tick: "\<exists>e s'. run_action good_platform Tick first_state = Jump e s'"
proof -
  have "\<exists>e s'. bind_op (uthread_init good_platform 1000) (\<lambda>_. run_action good_platform Tick) boot = Jump e s'"
    by (simp add: run_simps del: stop_unfolding cong: if_cong)
  then show ?thesis by (simp add: bind_op_def first_state(1))
qed

end
