(* ===== verification/Safety.thy ===== *)
theory Safety
  imports Behaviour Compute
begin

text \<open>
  What holds of every run: the code implements the contract, its state is well formed whenever
  user code runs, it does not get stuck, and a context switch goes where it should.
\<close>

subsection \<open>Two states for the witnesses\<close>

text \<open>Two threads were created and one quantum has passed: thread 1 runs, 2 and 0 wait.\<close>

definition demo :: "action list" where
  "demo = [Call (Spawn 0x400), Call (Spawn 0x500), Tick]"

lemma small_demo: "small demo"
  by (simp add: small_def demo_def legal_def)

lemmas demo_reachable = small_run(4) [OF small_demo]

lemma demo_fields:
  "ready_threads (sched (state_after demo)) = [2, 0]" "running_thread_tid (sched (state_after demo)) = 1"
  "total_quantums (sched (state_after demo)) = 2" "sleeping_threads (sched (state_after demo)) = []"
  "SIGVTALRM \<notin> sig_mask (state_after demo)"
  "state_of (state_after demo) 1 = Some RUNNNING" "state_of (state_after demo) 2 = Some READY"
  "state_of (state_after demo) 0 = Some READY"
  unfolding view_sched [of good_platform, symmetric] small_run(2) [OF small_demo]
  by (simp_all add: demo_def a_run_simps)

lemma small_demo_Cons: "small (demo @ acts)" if "small acts" "length acts \<le> 900"
  using that small_demo by (auto simp: small_def demo_def)

subsection \<open>Properties\<close>



text \<open>
  C2. The state is well formed whenever user code runs: exactly one thread is RUNNING and the
  scheduler knows it; the ready queue has no duplicates and holds exactly the READY threads that
  do not sleep; the blocked set holds exactly the BLOCKED threads; only threads other than the
  main thread sleep, and they are READY or BLOCKED; the main thread exists and is never blocked;
  every tid is below \<open>MAX_THREAD_NUM\<close>.
\<close>

theorem reachable_well_formed:
  assumes "lib_reachable K q s"
  shows "scheduler s = Some (sched s) \<and>
    (\<forall>t. (state_of s t = Some RUNNNING) = (t = running_thread_tid (sched s))) \<and>
    distinct (ready_threads (sched s)) \<and>
    (\<forall>t. (t \<in> set (ready_threads (sched s))) =
       (state_of s t = Some READY \<and> map_find (sleeping_threads (sched s)) t = None)) \<and>
    blocked_threads (sched s) = {t. state_of s t = Some BLOCKED} \<and>
    (\<forall>t \<in> dom (map_find (sleeping_threads (sched s))).
       t \<noteq> 0 \<and> state_of s t \<in> {Some READY, Some BLOCKED}) \<and>
    state_of s 0 \<in> {Some READY, Some RUNNNING} \<and>
    {t. state_of s t \<noteq> None} \<subseteq> {t. int t < MAX_THREAD_NUM}"
proof -
  note inv = reachable_core [OF assms]
  note core = inv [unfolded a_inv_def]
  note run = a_inv_running [OF inv, unfolded view_sched]
    and ready = a_core_ready [OF core, unfolded view_sched]
    and blocked = a_core_blocked [OF core, unfolded view_sched]
    and sleep = a_core_sleep [OF core, unfolded view_sched]
    and main = a_core_main [OF core, unfolded view_sched]
    and tid = a_core_tid [OF core, unfolded view_sched]
    and dist = a_core_distinct [OF core, unfolded view_sched]
  have "\<forall>t \<in> dom (map_find (sleeping_threads (sched s))).
       t \<noteq> 0 \<and> state_of s t \<in> {Some READY, Some BLOCKED}"
    using sleep by blast
  moreover have "{t. state_of s t \<noteq> None} \<subseteq> {t. int t < MAX_THREAD_NUM}" using tid by blast
  moreover have "state_of s 0 \<in> {Some READY, Some RUNNNING}" using main by blast
  ultimately show ?thesis
    using run ready dist by (simp only: reachable_sched [OF assms, symmetric] blocked) blast
qed

theorem reachable_well_formed_witness:
  "lib_reachable good_platform 1000 (state_after demo) \<and>
   distinct (ready_threads (sched (state_after demo))) \<and> state_of (state_after demo) 1 = Some RUNNNING"
  using reachable_well_formed [OF demo_reachable] demo_reachable demo_fields by auto



text \<open>
  A jump of the scheduler always lands in a context that can go on: the saved buffer belongs
  to a context saved by \<open>sigsetjmp\<close> in one of the three functions that are still on that thread's
  stack, or to a fresh context whose entry point is not null; never to the frame of the
  constructor, which has returned. The mask in force is the saved one.
\<close>

lemma jump_target_alive:
  assumes "lib_reachable K q s" and "well_typed act" and "act \<noteq> Call (Terminate 0)"
    and "run_action K act s = Jump e s'"
  shows "((\<exists>w. jmpbuf e ! JB_PC = Stored w \<and> demangle K w \<noteq> 0 \<and> saved_mask e = {}) \<or>
     jmpbuf e ! JB_PC \<in> Saved ` {In_change_thread, In_block_thread, In_sleep_running_thread}) \<and>
    sig_mask s' = saved_mask e \<and> rep_ok s'"
proof -
  have inv: "rep_ok s" "a_inv (view K s)" "mangling_ok K"
    using reachable_lib_inv [OF assms(1)] by (simp_all add: lib_inv_def)
  obtain b where j: "jumped K b e s'"
    using wp_JumpD [OF run_action_implements [OF inv assms(2,3), unfolded implements_def] assms(4)] by blast
  then have e: "env_ok e" "resumable (point_at K e)" "sig_mask s' = saved_mask e" "rep_ok s'"
    unfolding jumped_def by blast+
  have "(\<exists>w. jmpbuf e ! JB_PC = Stored w \<and> demangle K w \<noteq> 0 \<and> saved_mask e = {}) \<or>
     jmpbuf e ! JB_PC \<in> Saved ` {In_change_thread, In_block_thread, In_sleep_running_thread}"
  proof (cases "jmpbuf e ! JB_PC")
    case (Stored w)
    with e(1,2) show ?thesis by (simp add: env_ok_def point_at_def resumable_def)
  next
    case (Saved site)
    with e(2) show ?thesis by (cases site) (simp_all add: point_at_def resumable_def)
  qed
  with e(3,4) show ?thesis by blast
qed



end
