(* ===== verification/Messages.thy ===== *)
theory Messages
  imports Behaviour
begin

text \<open>
  The messages of the library: an API function that answers -1 has printed a line that starts with
  the prefix of the library errors, and any other action prints nothing.
\<close>

definition error_prefix :: string where
  "error_prefix = ''thread library error: ''"

fun library_message :: "event \<Rightarrow> bool" where
  "library_message (Stderr m) = (take (length error_prefix) m = error_prefix)"
| "library_message (Sys c r) = False"

text \<open>What was added to the record of events since \<open>s\<close> has a library error in it.\<close>

definition reported :: "process \<Rightarrow> process \<Rightarrow> bool" where
  "reported s s' \<longleftrightarrow> list_ex library_message (take (length (events s') - length (events s)) (events s'))"

definition said :: "event list \<Rightarrow> process \<Rightarrow> bool" where
  "said es s \<longleftrightarrow> (\<exists>new. events s = new @ es \<and> list_ex library_message new)"

lemma said_reported: "said (events s) s' \<Longrightarrow> reported s s'"
  by (auto simp: said_def reported_def)

lemma error_line: "format_s LIBRARY_ERROR m = error_prefix @ m @ [CHR 0x0A]"
  by (simp add: LIBRARY_ERROR_def error_prefix_def)

text \<open>Nothing was printed since the events were \<open>es\<close>.\<close>

fun printed_line :: "event \<Rightarrow> bool" where
  "printed_line (Stderr m) = True"
| "printed_line (Sys c r) = False"

definition quiet :: "event list \<Rightarrow> process \<Rightarrow> bool" where
  "quiet es s \<longleftrightarrow> (\<exists>new. events s = new @ es \<and> \<not> list_ex printed_line new)"

lemma quiet_refl [simp]: "events s = es \<Longrightarrow> quiet es s"
  by (simp add: quiet_def)

lemma quiet_Sys: "quiet es s \<Longrightarrow> events s' = Sys c r # events s \<Longrightarrow> quiet es s'"
  by (auto simp: quiet_def intro: exI [of _ "Sys c r # _"])

interpretation silent: step_observer "\<lambda>_. quiet es" for es
  by unfold_locales (auto simp: quiet_def intro: exI [of _ "Sys _ _ # _"])

interpretation spoken: observer "\<lambda>_. said es" for es
  by unfold_locales (auto simp: said_def intro: exI [of _ "_ # _"])

text \<open>
  The answer of a call that started with the events \<open>es\<close>: -1 after a report, anything else after
  silence.
\<close>

definition answered :: "event list \<Rightarrow> int \<Rightarrow> process \<Rightarrow> bool" where
  "answered es r s \<longleftrightarrow> (if r = - 1 then said es s else quiet es s)"

lemma error_said:
  "quiet es s \<Longrightarrow> said es (s\<lparr>events := Stderr (format_s LIBRARY_ERROR m) # events s\<rparr>)"
  by (auto simp: said_def quiet_def error_line Cons_eq_append_conv)

lemma answered_error: "triple (quiet es) (answered es) J (handleErrorLibrary m)"
  by (simp add: triple_def wp_simps answered_def error_said)

lemma answered_ret: "r \<noteq> - 1 \<Longrightarrow> triple (quiet es) (answered es) J (ret r)"
  by (simp add: triple_def answered_def)

lemma answered_said: "triple (said es) (answered es) J (ret (- 1))"
  by (simp add: triple_def answered_def)

lemma answered_after:
  assumes "triple P (answered es) J m"
    and "triple (said es) R J (f (- 1))"
    and "\<And>r. r \<noteq> - 1 \<Longrightarrow> triple (quiet es) R J (f r)"
  shows "triple P R J (bind_op m f)"
proof (rule triple_bind [OF assms(1)])
  fix r
  show "triple (answered es r) R J (f r)"
    using assms(2,3) by (cases "r = - 1") (simp_all add: triple_def answered_def)
qed

lemmas silent_keep = triple_seq_keep [OF silent.block_signals] triple_seq_keep [OF silent.unblock_signals]
  triple_seq_keep [OF triple_ret] triple_bind_keep [OF triple_check_thread] triple_bind_keep [OF triple_get_thread]
  triple_bind_keep [OF triple_load] triple_bind_keep [OF triple_this] triple_if

lemma remove_thread_answered: "triple (quiet es) (answered es) (quiet es) (remove_thread K t)"
  unfolding remove_thread_def
  by (intro silent_keep answered_error triple_seq_keep [OF silent.set_this] triple_seq_keep [OF silent.remove_by_state]
      triple_seq_keep [OF triple_if] answered_ret silent.rules) simp_all

text \<open>
  \<open>set_thread\<close> does not complain as long as the table is not overfull.
\<close>

definition roomy :: "event list \<Rightarrow> process \<Rightarrow> bool" where
  "roomy es s \<longleftrightarrow> quiet es s \<and> int (length (threads (the (scheduler s)))) \<le> MAX_THREAD_NUM"

lemma set_thread_quiet: "triple (roomy es) (\<lambda>_. quiet es) J (set_thread i l)"
  by (auto simp: triple_def set_thread_def wp_def comb_defs this_def set_this_def roomy_def quiet_def split: option.split)

lemma add_new_thread_from_quiet:
  "0 \<le> i \<Longrightarrow> triple (roomy es) (\<lambda>_. quiet es) J (add_new_thread_from n K READY 0 al ep i)"
proof (induction n arbitrary: i)
  case 0
  then show ?case by (simp add: triple_def wp_def ret_def roomy_def)
next
  case (Suc n)
  have new: "triple (roomy es) (\<lambda>_. roomy es) J (new_Thread K READY 0 al ep)"
    by (simp add: triple_def roomy_def quiet_def)
  have "triple (roomy es) (\<lambda>_. quiet es) J (\<lambda>s. add_new_thread_from (Suc n) K READY 0 al ep i s)"
    unfolding add_new_thread_from.simps
    by (intro triple_bind_keep [OF triple_check_thread] triple_if triple_bind_keep [OF new] triple_seq [OF set_thread_quiet]
        triple_seq_keep [OF silent.set_this] triple_ret Suc.IH silent.rules) (use Suc.prems in auto)
  then show ?case .
qed

lemma roomy_block: "triple (roomy es) (\<lambda>_. roomy es) J (block_signals K)"
  by (auto simp: triple_def block_signals_def this_def sigprocmask_def do_syscall_def wp_def comb_defs Let_def roomy_def
      handleErrorSystemCall_def stderr_put_def change_mask_def handle_consts intro: quiet_Sys split: option.split)

lemma triple_pre: "triple P R J m \<Longrightarrow> (\<And>s. P' s \<Longrightarrow> P s) \<Longrightarrow> triple P' R J m"
  by (simp add: triple_def)

lemma roomy_quiet: "triple (quiet es) R J m \<Longrightarrow> triple (roomy es) R J m"
  by (erule triple_pre) (simp add: roomy_def)

lemma api_answered:
  assumes "f \<noteq> Terminate 0" and "\<And>tid. f \<noteq> Get_quantums tid" and "f \<notin> {Get_tid, Get_total_quantums}"
  shows "triple (roomy es) (answered es) (quiet es) (run_api K f)"
proof (cases f)
  case (Spawn ep)
  have "triple (quiet es) (answered es) (quiet es)
      (seq_op (if tid = FAILURE_ERROR then handleErrorLibrary m else ret 0) (seq_op (unblock_signals K) (ret tid)))"
    for tid m
  proof (cases "tid = - 1")
    case True
    have "triple (quiet es) (\<lambda>_. said es) (quiet es) (handleErrorLibrary m)"
      by (simp add: triple_def wp_simps error_said)
    with True show ?thesis
      by (simp add: handle_consts, elim triple_seq)
        (intro triple_seq_keep [OF spoken.unblock_signals] answered_said)
  qed (auto simp: handle_consts intro!: silent_keep answered_ret)
  then show ?thesis unfolding Spawn run_api.simps uthread_spawn_def add_new_thread_def
    by (intro triple_seq_keep [OF roomy_block] triple_if roomy_quiet [OF answered_error]
        triple_bind [OF add_new_thread_from_quiet]) simp_all
next
  case (Terminate tid)
  with assms(1) have "tid \<noteq> 0" by simp
  then show ?thesis unfolding Terminate run_api.simps uthread_terminate_def
    by (intro roomy_quiet) (simp add: handle_consts, intro silent_keep answered_after [OF remove_thread_answered],
      auto simp: handle_consts intro!: silent_keep answered_ret triple_seq_keep [OF spoken.unblock_signals] answered_said)
next
  case (Block tid)
  show ?thesis unfolding Block run_api.simps uthread_block_def uthread_block_after_def
    by (intro roomy_quiet silent_keep answered_error triple_seq_keep [OF silent.block_thread] answered_ret) simp
next
  case (Resume tid)
  show ?thesis unfolding Resume run_api.simps uthread_resume_def
    by (intro roomy_quiet silent_keep answered_error triple_seq_keep [OF silent.unblock_thread] answered_ret) simp
next
  case (Sleep n)
  show ?thesis unfolding Sleep run_api.simps uthread_sleep_def uthread_sleep_after_def uthread_get_tid_def
    by (intro roomy_quiet silent_keep answered_error triple_bind_keep [OF silent.get_running]
        triple_seq_keep [OF silent.sleep_running_thread] answered_ret) simp
qed (use assms in auto)

text \<open>
  The functions that read: \<open>uthread_get_quantums\<close> fails only for a tid without a thread.
\<close>

lemma get_quantums_answered:
  assumes "scheduler s = Some sc"
  shows "wp (\<lambda>_ s'. if map_find (threads sc) (size_t_of_int tid) = None then said (events s) s' else quiet (events s) s')
    (\<lambda>_ _. False) (\<lambda>_ _. True) (\<lambda>_. True) (uthread_get_quantums K tid) s"
  using assms
  by (auto simp: uthread_get_quantums_def block_signals_def unblock_signals_def check_thread_def get_thread_def load_def
      wp_def comb_defs this_def sigprocmask_def do_syscall_def change_mask_def handleErrorSystemCall_def
      handleErrorLibrary_def stderr_put_def Let_def handle_consts said_def quiet_def error_line Cons_eq_append_conv
      split: option.split)

lemma getters_silent:
  "triple (quiet es) (\<lambda>_. quiet es) J uthread_get_tid"
  "triple (quiet es) (\<lambda>_. quiet es) J (uthread_get_total_quantums K)"
  unfolding uthread_get_tid_def uthread_get_total_quantums_def get_total_quantums_def
  by (intro silent.get_running silent.rules silent.block_signals silent.unblock_signals)+

lemma resume_not_error:
  assumes "resume_context K e s = Ret v s'"
  shows "v \<noteq> Returned (- 1)"
proof -
  have "uthread_block_after K s1 = Ret r s2 \<Longrightarrow> r = 0" "uthread_sleep_after K s1 = Ret r s2 \<Longrightarrow> r = 0"
    for r s1 s2
    by (auto simp: uthread_block_after_def uthread_sleep_after_def comb_defs split: outcome.splits)
  with assms show ?thesis
    by (fastforce simp: resume_context_def comb_defs Let_def
        split: slot.splits call_site.splits outcome.splits if_splits)
qed

lemma tick_not_error: "exec K Tick s \<noteq> Ret (Returned (- 1)) s'"
proof
  assume e: "exec K Tick s = Ret (Returned (- 1)) s'"
  show False
  proof (cases "deliver_timer K s")
    case (Jump x s1)
    with e have "resume_context K x s1 = Ret (Returned (- 1)) s'"
      by (simp add: exec_def run_action_def seq_op_def bind_op_def)
    then show ?thesis using resume_not_error by blast
  qed (use e in \<open>simp_all add: exec_def run_action_def seq_op_def bind_op_def ret_def\<close>)
qed

subsection \<open>Every action\<close>

lemma reachable_roomy:
  assumes "lib_reachable K q s"
  shows "roomy (events s) s"
proof -
  obtain sc where sc: "scheduler s = Some sc" "rep_with sc s"
    using reachable_rep [OF assms] by (rule rep_okE)
  have "dom (map_find (threads sc)) \<subseteq> {..<nat MAX_THREAD_NUM}"
  proof
    fix t
    assume "t \<in> dom (map_find (threads sc))"
    then have "a_status (view K s) t \<noteq> None"
      using a_threads_None_iff [OF sc(2), of K t] by (auto simp: a_status_def simp del: view_sched)
    then show "t \<in> {..<nat MAX_THREAD_NUM}"
      using a_core_tid [OF reachable_core [OF assms, unfolded a_inv_def], of t] by (simp add: MAX_THREAD_NUM_def del: view_sched)
  qed
  then have "card (dom (map_find (threads sc))) \<le> nat MAX_THREAD_NUM"
    using card_mono [of "{..<nat MAX_THREAD_NUM}"] by simp
  then have "int (length (threads sc)) \<le> MAX_THREAD_NUM"
    using std.length_entries [OF rep_withD(2) [OF sc(2)]] by (simp add: MAX_THREAD_NUM_def)
  with sc(1) show ?thesis by (simp add: roomy_def)
qed

text \<open>
  An action whose answer is -1 has reported an error; any other prints nothing.
\<close>

lemma call_messages:
  assumes run: "wp (\<lambda>r s'. if r = - 1 then said es s' else quiet es s') (\<lambda>_. quiet es) (\<lambda>_ _. True) (\<lambda>_. True)
      (run_api K f) s"
    and "exec K (Call f) s = Ret v s'"
  shows "if v = Returned (- 1) then said es s' else quiet es s'"
proof (cases "run_api K f s")
  case (Ret r s1)
  with assms(2) wp_RetD [OF run Ret] show ?thesis by (auto simp: exec_def run_action_def comb_defs split: if_splits)
next
  case (Jump e s1)
  then have r: "resume_context K e s1 = Ret v s'" using assms(2) by (simp add: exec_def run_action_def bind_op_def)
  have "quiet es s'" by (rule wp_RetD [OF tripleD [OF silent.resume wp_JumpD [OF run Jump]] r])
  with resume_not_error [OF r] show ?thesis by simp
qed (use assms(2) in \<open>simp_all add: exec_def run_action_def bind_op_def\<close>)

lemma exec_messages:
  assumes "lib_reachable K q s" and "well_typed act" and "exec K act s = Ret v s'"
  shows "if v = Returned (- 1) then said (events s) s' else quiet (events s) s'"
proof (cases act)
  case Tick
  have "triple (quiet (events s)) (\<lambda>_. quiet (events s)) (quiet (events s)) (run_action K Tick)"
    unfolding run_action_def action.case by (intro silent.rules silent.deliver)
  from silent.exec_after [OF this _ assms(3) [unfolded Tick]] have "quiet (events s) s'" by simp
  moreover have "v \<noteq> Returned (- 1)" using assms(3) tick_not_error unfolding Tick by blast
  ultimately show ?thesis by simp
next
  case (Call f)
  note e = assms(3) [unfolded Call]
  note roomy = reachable_roomy [OF assms(1)]
  then have quiet: "quiet (events s) s" by simp
  have main: "f \<noteq> Terminate 0" using step_view(4) [OF assms] Call by (auto simp: legal_def)
  consider tid where "f = Get_quantums tid" | "f \<in> {Get_tid, Get_total_quantums}"
    | "\<And>tid. f \<noteq> Get_quantums tid" "f \<notin> {Get_tid, Get_total_quantums}" by blast
  then show ?thesis
  proof cases
    case 1
    obtain sc where sc: "scheduler s = Some sc" "rep_with sc s"
      using reachable_rep [OF assms(1)] by (rule rep_okE)
    let ?t = "size_t_of_int tid"
    obtain r where v: "v = Returned r" and run: "run_api K f s = Ret r s'"
    proof (cases "run_api K f s")
      case (Jump x s1)
      then show ?thesis using wp_JumpD [OF get_quantums_answered [OF sc(1)], of K tid] 1 by simp
    qed (use e in \<open>auto simp: exec_def run_action_def comb_defs\<close>)
    have "int_of_size_t (quantum_t th) \<noteq> - 1" if "thr s ?t = Some th" for th
      using quantum_bound [OF assms(1) that] by (simp add: int_of_size_t_small int_limits)
    then have "r = - 1 \<longleftrightarrow> thr s ?t = None"
      using step_view(1) [OF assms] v Call 1
      by (auto simp: a_get_quantums_def a_return_def view_def Let_def abs_thread_def split: option.splits)
    then have "r = - 1 \<longleftrightarrow> map_find (threads sc) ?t = None" using thr_None_iff [OF sc(2)] by simp
    with v wp_RetD [OF get_quantums_answered [OF sc(1)], of K tid r s'] run 1 show ?thesis by simp
  next
    case 2
    have "triple (quiet (events s)) (\<lambda>_. quiet (events s)) (quiet (events s)) (run_api K f)"
      using 2 getters_silent by auto
    moreover have "v \<noteq> Returned (- 1)"
      using step_view(1) [OF assms] Call 2 a_core_total [OF reachable_core [OF assms(1), unfolded a_inv_def]]
      by (auto simp: a_return_def)
    moreover have "run_action K (Call f) = bind_op (run_api K f) (\<lambda>v. ret (Returned v))" by (simp add: run_action_def)
    ultimately show ?thesis
      using silent.exec_after [of "events s" K "Call f" s v s'] e quiet by (auto intro: triple_bind_keep triple_ret)
  next
    case 3
    from call_messages [OF wp_mono [OF tripleD [OF api_answered [OF main 3] roomy]] e]
    show ?thesis by (simp add: answered_def)
  qed
qed

lemma failure_said:
  assumes "lib_reachable K q s" and "well_typed (Call f)" and "exec K (Call f) s = Ret (Returned (- 1)) s'"
  shows "said (events s) s'"
  using exec_messages [OF assms] by simp

end
