(* ===== verification/Calls.thy ===== *)
theory Calls
  imports Safety Messages
begin

text \<open>
  The API functions one by one, on every branch: what they return and what they change, on a
  platform whose system calls succeed. The last property is what happens when one fails.
\<close>

subsection \<open>Spawn\<close>

lemma free_tid_status:
  assumes "a_inv a"
  shows "free_tid a = None \<longleftrightarrow> {t. a_status a t \<noteq> None} = {t. int t < MAX_THREAD_NUM}"
proof -
  note tid = a_core_tid [OF assms [unfolded a_inv_def]]
  have "free_tid a = None \<longleftrightarrow> (\<forall>t < nat MAX_THREAD_NUM. a_threads a t \<noteq> None)"
    by (auto simp: free_tid_def find_None_iff)
  also have "\<dots> \<longleftrightarrow> (\<forall>t. int t < MAX_THREAD_NUM \<longrightarrow> a_status a t \<noteq> None)"
    by (auto simp: a_status_def MAX_THREAD_NUM_def)
  also have "\<dots> \<longleftrightarrow> {t. a_status a t \<noteq> None} = {t. int t < MAX_THREAD_NUM}"
    using tid by blast
  finally show ?thesis .
qed

text \<open>
  C9. \<open>uthread_spawn\<close> gives the new thread the smallest tid that is not in use, puts it at the end
  of the ready queue in state READY, with no quantum, to start at its entry point, and unblocks the
  timer signal; it changes nothing else: the other threads, the blocked and the sleeping threads,
  the running thread, the number of quantums and the armed timer are those before the call. It
  fails with -1 exactly when the entry point is null, which leaves everything but the signal mask
  alone and the timer signal blocked, or when all \<open>MAX_THREAD_NUM\<close> tids are in use, which leaves
  everything alone and the timer signal unblocked.
\<close>

theorem spawn_smallest_free_tid:
  assumes "lib_reachable K q s" and "sys_ok K"
  shows "\<exists>v s'. exec K (Call (Spawn ep)) s = Ret (Returned v) s' \<and>
    itimer s' = itimer s \<and> arm_count s' = arm_count s \<and>
    (if ep = 0 then v = - 1 \<and> view K s' = (view K s)\<lparr>a_masked := True\<rparr>
     else if {t. state_of s t \<noteq> None} = {t. int t < MAX_THREAD_NUM}
     then v = - 1 \<and> view K s' = (view K s)\<lparr>a_masked := False\<rparr>
     else \<exists>t. v = int t \<and> int t < MAX_THREAD_NUM \<and> state_of s t = None \<and>
       {u. u < t} \<subseteq> {u. state_of s u \<noteq> None} \<and>
       view K s' = (view K s)
         \<lparr>a_threads := (a_threads (view K s))(t \<mapsto> \<lparr>a_state = READY, a_quantums = 0, a_point = Entry ep\<rparr>),
          a_ready := a_ready (view K s) @ [t], a_masked := False\<rparr>)"
proof -
  note inv = reachable_core [OF assms(1)]
  obtain w a where e: "a_exec (Call (Spawn ep)) (view K s) = (w, a)" by force
  obtain s' where s': "exec K (Call (Spawn ep)) s = Ret w s'" "view K s' = a" "lib_reachable K q s'"
    by (rule call_returns [OF assms(1,2) _ _ e]) (simp_all add: legal_def)
  have "a_total a = a_total (view K s)"
    using e by (auto simp: a_create_return a_return_def a_create_def split: if_splits option.splits)
  then have timer: "itimer s' = itimer s" "arm_count s' = arm_count s"
    using armings [OF assms(1)] armings [OF s'(3)] reachable_sched [OF assms(1)] reachable_sched [OF s'(3)]
    unfolding s'(2) [symmetric] by (auto simp: timer_obs_def)
  show ?thesis
  proof (cases "ep = 0")
    case True
    with e s' timer show ?thesis by (auto simp: a_spawn_def)
  next
    case ep: False
    show ?thesis
    proof (cases "free_tid (view K s)")
      case None
      with free_tid_status [OF inv] have "{t. state_of s t \<noteq> None} = {t. int t < MAX_THREAD_NUM}" by simp
      with None e s' timer ep show ?thesis by (auto simp: a_spawn_def a_return_def)
    next
      case (Some t)
      then have "{t. state_of s t \<noteq> None} \<noteq> {t. int t < MAX_THREAD_NUM}"
        using free_tid_status [OF inv] by simp
      moreover have "state_of s t = None" "int t < MAX_THREAD_NUM" "\<And>u. u < t \<Longrightarrow> state_of s u \<noteq> None"
        using free_tid_Some [OF Some] unfolding view_sched(7) [of K, symmetric]
        by (simp_all add: a_status_def del: view_sched)
      moreover have "w = Returned (int t)" and "view K s' = (a_create t ep (view K s))\<lparr>a_masked := False\<rparr>"
        using Some e s'(2) ep by (simp_all add: a_create_return a_return_def del: view_sched)
      ultimately show ?thesis using s'(1) timer ep
        by (intro exI [of _ "int t"] exI [of _ s']) (auto simp: a_create_def simp del: view_sched)
    qed
  qed
qed

theorem spawn_smallest_free_tid_witness:
  "\<exists>v s'. exec good_platform (Call (Spawn 0x600)) (state_after demo) = Ret (Returned v) s' \<and>
    itimer s' = itimer (state_after demo) \<and> arm_count s' = arm_count (state_after demo) \<and>
    (if (0x600::addr) = 0 then v = - 1 \<and> view good_platform s' = (view good_platform (state_after demo))\<lparr>a_masked := True\<rparr>
     else if {t. state_of (state_after demo) t \<noteq> None} = {t. int t < MAX_THREAD_NUM}
     then v = - 1 \<and> view good_platform s' = (view good_platform (state_after demo))\<lparr>a_masked := False\<rparr>
     else \<exists>t. v = int t \<and> int t < MAX_THREAD_NUM \<and> state_of (state_after demo) t = None \<and>
       {u. u < t} \<subseteq> {u. state_of (state_after demo) u \<noteq> None} \<and>
       view good_platform s' = (view good_platform (state_after demo))
         \<lparr>a_threads := (a_threads (view good_platform (state_after demo)))
            (t \<mapsto> \<lparr>a_state = READY, a_quantums = 0, a_point = Entry 0x600\<rparr>),
          a_ready := a_ready (view good_platform (state_after demo)) @ [t], a_masked := False\<rparr>)"
  by (rule spawn_smallest_free_tid [OF demo_reachable sys_ok_good_platform])

subsection \<open>Errors\<close>

text \<open>
  C25. No failure is silent and nothing else is printed: an action whose answer is -1, on any branch
  and in any reachable state, has printed a line that starts with \<open>thread library error: \<close>, and an
  action with any other answer, a timer signal included, has printed nothing on standard error; all
  it added to the events are system calls.
\<close>

theorem failure_is_reported:
  assumes "lib_reachable K q s" and "well_typed act" and "exec K act s = Ret v s'"
  shows "\<exists>new. events s' = new @ events s \<and>
    (if v = Returned (- 1) then \<exists>m. Stderr (''thread library error: '' @ m) \<in> set new
     else set new \<subseteq> {e. \<exists>c r. e = Sys c r})"
proof (cases "v = Returned (- 1)")
  case True
  then obtain new e where new: "events s' = new @ events s" "e \<in> set new" "library_message e"
    using exec_messages [OF assms] by (auto simp: said_def list_ex_iff)
  then obtain m where m: "e = Stderr m" "take (length error_prefix) m = error_prefix"
    by (cases e) auto
  then have "m = ''thread library error: '' @ drop (length error_prefix) m"
    unfolding error_prefix_def by (metis append_take_drop_id)
  then have "Stderr (''thread library error: '' @ drop (length error_prefix) m) \<in> set new"
    using new(2) m(1) by simp
  then have "\<exists>m. Stderr (''thread library error: '' @ m) \<in> set new" by (rule exI)
  with new(1) True show ?thesis by (intro exI [of _ new]) simp
next
  case False
  then obtain new where new: "events s' = new @ events s" "\<forall>e \<in> set new. \<not> printed_line e"
    using exec_messages [OF assms] by (auto simp: quiet_def list_ex_iff)
  moreover have "\<exists>c r. e = Sys c r" if "\<not> printed_line e" for e using that by (cases e) simp_all
  ultimately have "set new \<subseteq> {e. \<exists>c r. e = Sys c r}" by blast
  with new(1) False show ?thesis by (intro exI [of _ new]) simp
qed

theorem failure_is_reported_witness:
  "\<exists>s' new m. exec good_platform (Call (Spawn 0)) (state_after demo) = Ret (Returned (- 1)) s' \<and>
     events s' = new @ events (state_after demo) \<and> Stderr (''thread library error: '' @ m) \<in> set new"
proof -
  have e: "a_exec (Call (Spawn 0)) (view good_platform (state_after demo)) =
      (Returned (- 1), (view good_platform (state_after demo))\<lparr>a_masked := True\<rparr>)"
    by (simp add: a_spawn_def)
  obtain s' where s': "exec good_platform (Call (Spawn 0)) (state_after demo) = Ret (Returned (- 1)) s'"
    by (rule call_returns [OF demo_reachable sys_ok_good_platform _ _ e]) (simp_all add: legal_def)
  from failure_is_reported [OF demo_reachable _ s'] s' show ?thesis by auto
qed

text \<open>
  C28. The functions that take a tid reject every tid without a thread, negative and too large
  ones included: they return -1 and change nothing but to leave the timer signal unblocked.
\<close>

theorem invalid_tid_rejected:
  assumes "lib_reachable K q s" and "sys_ok K" and "in_int tid"
    and "{t. int t = tid \<and> state_of s t \<noteq> None} = {}"
    and "f \<in> {Terminate tid, Block tid, Resume tid, Get_quantums tid}"
  shows "\<exists>s'. exec K (Call f) s = Ret (Returned (- 1)) s' \<and> view K s' = (view K s)\<lparr>a_masked := False\<rparr>"
proof -
  note inv = reachable_core [OF assms(1)]
  note core = inv [unfolded a_inv_def]
  let ?t = "size_t_of_int tid"
  have none: "a_status (view K s) ?t = None"
  proof (cases "0 \<le> tid")
    case True
    then have "?t = nat tid" using assms(3) by (simp add: size_t_of_int_nonneg in_int_def)
    with True assms(4) show ?thesis by auto
  next
    case False
    then have "2 ^ 63 \<le> ?t" using assms(3) by (intro size_t_of_int_neg) (simp_all add: in_int_def)
    then have "\<not> int ?t < MAX_THREAD_NUM" by (simp add: MAX_THREAD_NUM_def)
    then show ?thesis using a_core_tid [OF core, of ?t] by blast
  qed
  have "tid \<noteq> 0"
    using a_core_main [OF core] none by (auto simp: size_t_of_int_def)
  moreover have "?t \<noteq> a_running (view K s)" using none a_inv_running [OF inv, of ?t] by auto
  moreover have "a_threads (view K s) ?t = None" using none unfolding a_status_def by simp
  ultimately have "a_exec (Call f) (view K s) = (Returned (- 1), (view K s)\<lparr>a_masked := False\<rparr>)"
    "legal (Call f)" "act_arith (Call f) (view K s)"
    using assms(3,5) none
    by (auto simp: a_terminate_def a_block_def a_resume_def a_get_quantums_def a_return_def legal_def Let_def)
  from call_returns [OF assms(1,2) this(2,3,1)] show ?thesis by blast
qed

theorem invalid_tid_rejected_witness:
  "\<exists>s'. exec good_platform (Call (Terminate (- 7))) (state_after demo) = Ret (Returned (- 1)) s' \<and>
    view good_platform s' = (view good_platform (state_after demo))\<lparr>a_masked := False\<rparr>"
  by (rule invalid_tid_rejected [OF demo_reachable sys_ok_good_platform, where tid = "- 7"])
    (simp_all add: in_int_def int_limits)

text \<open>
  Two error paths leave the timer signal blocked: \<open>uthread_spawn\<close> with a null entry point and
  \<open>uthread_sleep\<close> with a number that is not positive return -1 without unblocking it. From then
  on timer signals have no effect, however many are sent: the thread is not preempted until it
  makes another call.
\<close>

lemma error_paths_stop_preemption:
  assumes "lib_reachable K q s" and "sys_ok K" and "legal (Call f)"
    and "f \<in> insert (Spawn 0) (Sleep ` {..0})"
  shows "\<exists>s'. exec K (Call f) s = Ret (Returned (- 1)) s' \<and> SIGVTALRM \<in> sig_mask s' \<and>
    (\<forall>k. \<exists>s2. exec_list K (replicate k Tick) s' = Ret (replicate k Continued) s2 \<and> view K s2 = view K s')"
proof -
  let ?b = "(view K s)\<lparr>a_masked := True\<rparr>"
  have e: "a_exec (Call f) (view K s) = (Returned (- 1), ?b)" and ar: "act_arith (Call f) (view K s)"
    using assms(4) by (auto simp: a_spawn_def a_sleep_def)
  obtain s' where s': "exec K (Call f) s = Ret (Returned (- 1)) s'" "view K s' = ?b" "lib_reachable K q s'"
    by (rule call_returns [OF assms(1-3) ar e])
  have masked: "a_masked (view K s')" using s'(2) by simp
  have "\<exists>s2. exec_list K (replicate k Tick) s' = Ret (replicate k Continued) s2 \<and> view K s2 = view K s'
      \<and> lib_reachable K q s2" for k
  proof (induction k)
    case 0
    then show ?case using s'(3) by (simp add: ret_def)
  next
    case (Suc k)
    then obtain s2 where s2: "exec_list K (replicate k Tick) s' = Ret (replicate k Continued) s2"
      "view K s2 = view K s'" "lib_reachable K q s2" by blast
    have "a_exec Tick (view K s2) = (Continued, view K s2)" "act_arith Tick (view K s2)"
      using masked s2(2) by (simp_all add: a_tick_def del: view_sched)
    then obtain s3 where "exec K Tick s2 = Ret Continued s3" "view K s3 = view K s2" "lib_reachable K q s3"
      using call_returns [OF s2(3) assms(2), of Tick Continued] by (auto simp: legal_def)
    then have "exec_list K (replicate k Tick @ [Tick]) s' = Ret (replicate k Continued @ [Continued]) s3"
      using s2(1) by (auto simp: exec_list_append exec_list_Cons ret_def simp del: exec_list.simps(2))
    then show ?case
      using s2(2) \<open>view K s3 = view K s2\<close> \<open>lib_reachable K q s3\<close> by (auto simp: replicate_append_same)
  qed
  then show ?thesis using s'(1) masked unfolding view_sched by blast
qed

text \<open>
  C24. The mask discipline, exactly: after an action the timer signal is blocked in user code if and
  only if the action was one of those two error paths, or it was blocked before and the action
  was one of the two that do not touch the mask (a timer signal, which then stays pending, and
  \<open>uthread_get_tid\<close>). Every other call returns, and every thread goes on, with it unblocked.
\<close>

theorem timer_signal_blocked_iff:
  assumes "lib_reachable K q s" and "well_typed act" and "exec K act s = Ret v s'"
  shows "(SIGVTALRM \<in> sig_mask s') =
    (act \<in> insert (Call (Spawn 0)) ((\<lambda>n. Call (Sleep n)) ` {..0}) \<or>
     SIGVTALRM \<in> sig_mask s \<and> act \<in> {Tick, Call Get_tid})"
  using mask_next [of act "view K s"] unfolding step_view(2) [OF assms, symmetric] view_sched by auto

theorem timer_signal_blocked_iff_witness:
  "(SIGVTALRM \<in> sig_mask (state_after (demo @ [Call (Sleep 2)]))) =
    (Call (Sleep 2) \<in> insert (Call (Spawn 0)) ((\<lambda>n. Call (Sleep n)) ` {..0}) \<or>
     SIGVTALRM \<in> sig_mask (state_after demo) \<and> Call (Sleep 2) \<in> {Tick, Call Get_tid})"
proof -
  have sm: "small (demo @ [Call (Sleep 2)])"
    by (rule small_demo_Cons) (simp_all add: small_def legal_def in_int_def int_limits)
  show ?thesis
    by (rule timer_signal_blocked_iff [OF demo_reachable _ small_step [OF sm]])
      (simp add: in_int_def int_limits)
qed

subsection \<open>Terminate\<close>

lemma tid_cast:
  assumes "a_inv a" and "a_status a t \<noteq> None"
  shows "size_t_of_int (int t) = t" and "in_int (int t)"
  using a_core_tid [OF assms(1) [unfolded a_inv_def] assms(2)]
  by (simp_all add: size_t_of_int_nonneg in_int_def int_limits MAX_THREAD_NUM_def)

text \<open>
  C15. Terminating a thread that waits returns 0 and removes it from every structure: the thread
  table, the ready queue (the others keep their order), the blocked set and the sleepers. The
  other threads are as before and the caller goes on. The thread object and its stack, however,
  are not released: every object that existed still exists.
\<close>

theorem terminate_waiting_thread:
  assumes "lib_reachable K q s" and "sys_ok K" and "t \<noteq> 0" and "state_of s t \<in> {Some READY, Some BLOCKED}"
  shows "\<exists>s'. exec K (Call (Terminate (int t))) s = Ret (Returned 0) s' \<and>
    a_threads (view K s') = (a_threads (view K s))(t := None) \<and>
    ready_threads (sched s') = filter (\<lambda>u. u \<noteq> t) (ready_threads (sched s)) \<and>
    blocked_threads (sched s') = blocked_threads (sched s) - {t} \<and>
    sleeping_threads (sched s') = map_erase t (sleeping_threads (sched s)) \<and>
    running_thread_tid (sched s') = running_thread_tid (sched s) \<and>
    total_quantums (sched s') = total_quantums (sched s) \<and> dom (heap s) \<subseteq> dom (heap s')"
proof -
  let ?a = "view K s"
  note inv = reachable_core [OF assms(1)]
  have st: "a_status ?a t \<in> {Some READY, Some BLOCKED}" using assms(4) by simp
  then have some: "a_status ?a t \<noteq> None" by auto
  note t = tid_cast [OF inv some]
  have run: "t \<noteq> a_running ?a" using st a_inv_running [OF inv, of t] by auto
  let ?b = "(a_forget t ?a)\<lparr>a_masked := False\<rparr>"
  have e: "a_exec (Call (Terminate (int t))) ?a = (Returned 0, ?b)"
    using st t by (auto simp: a_terminate_def a_return_def Let_def simp del: view_sched)
  have lg: "legal (Call (Terminate (int t)))" using t assms(3) by (simp add: legal_def)
  obtain s' where s': "exec K (Call (Terminate (int t))) s = Ret (Returned 0) s'" "view K s' = ?b"
    by (rule call_returns [OF assms(1,2) lg _ e]) (use t run in simp)
  have "dom (heap s) \<subseteq> dom (heap s')"
    by (rule objects_kept [OF assms(1) _ s'(1)]) (use t in simp)
  with s' show ?thesis
    unfolding view_sched [of K, symmetric] by (intro exI [of _ s']) (simp add: a_forget_def del: view_sched)
qed

theorem terminate_waiting_thread_witness:
  "\<exists>s'. exec good_platform (Call (Terminate (int 2))) (state_after demo) = Ret (Returned 0) s' \<and>
    a_threads (view good_platform s') = (a_threads (view good_platform (state_after demo)))(2 := None) \<and>
    ready_threads (sched s') = filter (\<lambda>u. u \<noteq> 2) (ready_threads (sched (state_after demo))) \<and>
    blocked_threads (sched s') = blocked_threads (sched (state_after demo)) - {2} \<and>
    sleeping_threads (sched s') = map_erase 2 (sleeping_threads (sched (state_after demo))) \<and>
    running_thread_tid (sched s') = running_thread_tid (sched (state_after demo)) \<and>
    total_quantums (sched s') = total_quantums (sched (state_after demo)) \<and>
    dom (heap (state_after demo)) \<subseteq> dom (heap s')"
  by (rule terminate_waiting_thread [OF demo_reachable sys_ok_good_platform]) (simp_all add: demo_fields)

text \<open>
  C16. A thread that terminates itself is gone: it is in no structure, another thread runs in a new
  quantum, and no later dispatch can reach the terminated thread.
\<close>

theorem terminate_self_is_final:
  assumes "lib_reachable K q s" and "t = running_thread_tid (sched s)" and "t \<noteq> 0"
    and "exec K (Call (Terminate (int t))) s = Ret v s'"
  shows "state_of s' t = None \<and> t \<notin> set (ready_threads (sched s')) \<and> t \<notin> blocked_threads (sched s') \<and>
    map_find (sleeping_threads (sched s')) t = None \<and> running_thread_tid (sched s') \<noteq> t \<and>
    total_quantums (sched s') = total_quantums (sched s) + 1"
proof -
  let ?a = "view K s"
  note inv = reachable_core [OF assms(1)]
  have st: "a_status ?a t = Some RUNNNING" using a_inv_running [OF inv, of t] assms(2) by simp
  then have some: "a_status ?a t \<noteq> None" by simp
  note t = tid_cast [OF inv some]
  have wt: "well_typed (Call (Terminate (int t)))" using t by simp
  note step = step_view [OF assms(1) wt assms(4)]
  note inv' = reachable_core [OF step(3)]
  note core' = inv' [unfolded a_inv_def]
  have v': "view K s' = snd (a_switch (?a\<lparr>a_threads := (a_threads ?a)(t := None)\<rparr>))"
    using step(2) st t by (simp add: a_next_def a_terminate_def Let_def del: view_sched)
  have none: "a_status (view K s') t = None" "a_total (view K s') = a_total ?a + 1"
    unfolding v' by (simp_all del: view_sched)
  then have "a_running (view K s') \<noteq> t" "t \<notin> set (a_ready (view K s'))" "t \<notin> a_blocked (view K s')"
    using a_inv_running [OF inv', of t] a_core_ready [OF core', of t] a_core_blocked [OF core']
    by (auto simp del: view_sched)
  moreover have "map_find (a_sleeping (view K s')) t = None"
    using a_core_sleep [OF core', of t] none(1) by (cases "map_find (a_sleeping (view K s')) t") auto
  ultimately have "a_running (view K s') \<noteq> t" "t \<notin> set (a_ready (view K s'))" "t \<notin> a_blocked (view K s')"
    "map_find (a_sleeping (view K s')) t = None" by blast+
  with none show ?thesis by simp
qed

theorem terminate_self_is_final_witness:
  "state_of (state_after (demo @ [Call (Terminate (int 1))])) 1 = None \<and>
   running_thread_tid (sched (state_after (demo @ [Call (Terminate (int 1))]))) \<noteq> 1"
proof -
  have sm: "small (demo @ [Call (Terminate (int 1))])"
    by (rule small_demo_Cons) (simp_all add: small_def legal_def in_int_def int_limits)
  from terminate_self_is_final [OF demo_reachable _ _ small_step [OF sm]] show ?thesis
    by (simp add: demo_fields)
qed

text \<open>
  C27. Terminating the main thread ends the process with exit code 0, from whichever thread the call
  comes. Before that every object of the thread table is deleted, the one of the calling thread
  with the stack it is running on included.
\<close>

theorem terminate_main_exits:
  assumes "lib_reachable K q s" and "sys_ok K"
  shows "\<exists>s'. exec K (Call (Terminate 0)) s = Exit 0 s' \<and> threads (sched s') = [] \<and>
    (\<forall>l. heap s' l = (if l \<in> ran (map_find (threads (sched s))) then None else heap s l)) \<and>
    map_find (threads (sched s)) (running_thread_tid (sched s)) \<noteq> None"
proof -
  have rep: "rep_ok s" using assms(1) by (rule reachable_rep)
  obtain sc where sc: "scheduler s = Some sc" "rep_with sc s" using rep by (rule rep_okE)
  have "a_threads (view K s) (running_thread_tid (sched s)) \<noteq> None"
    by (rule status_SomeD [of _ _ RUNNNING])
      (use a_inv_running [OF reachable_core [OF assms(1)], of "running_thread_tid (sched s)"] in simp)
  then have live: "map_find (threads (sched s)) (running_thread_tid (sched s)) \<noteq> None"
    using a_threads_None_iff [OF sc(2)] sc(1) by (simp add: sched_def)
  note i = wp_terminate_main [OF rep, of K]
  show ?thesis
  proof (cases "run_action K (Call (Terminate 0)) s")
    case (Exit n s')
    then have "n = 0" "all_deleted s s'" using wp_ExitD [OF i Exit] assms(2) by auto
    with Exit live show ?thesis
      by (intro exI [of _ s']) (auto simp: exec_def all_deleted_def sched_def ran_def)
  qed (use i in \<open>simp_all add: wp_def\<close>)
qed

theorem terminate_main_exits_witness:
  "\<exists>s'. exec good_platform (Call (Terminate 0)) (state_after demo) = Exit 0 s' \<and> threads (sched s') = [] \<and>
    (\<forall>l. heap s' l = (if l \<in> ran (map_find (threads (sched (state_after demo)))) then None
      else heap (state_after demo) l)) \<and>
    map_find (threads (sched (state_after demo))) (running_thread_tid (sched (state_after demo))) \<noteq> None"
  by (rule terminate_main_exits [OF demo_reachable sys_ok_good_platform])

subsection \<open>Block, resume and sleep\<close>

text \<open>
  Resuming a thread that was blocked while asleep does not end its sleep: the call returns 0,
  the thread is no longer blocked, but it enters the ready queue only when its time is over; its
  entry among the sleepers is untouched.
\<close>

lemma resume_keeps_sleeper_asleep:
  assumes "lib_reachable K q s" and "sys_ok K" and "state_of s t = Some BLOCKED"
    and "map_find (sleeping_threads (sched s)) t = Some v"
  shows "\<exists>s'. exec K (Call (Resume (int t))) s = Ret (Returned 0) s' \<and> state_of s' t = Some READY \<and>
    t \<notin> blocked_threads (sched s') \<and> ready_threads (sched s') = ready_threads (sched s) \<and>
    t \<notin> set (ready_threads (sched s')) \<and> sleeping_threads (sched s') = sleeping_threads (sched s)"
proof -
  let ?a = "view K s"
  note inv = reachable_core [OF assms(1)]
  have st: "a_status ?a t = Some BLOCKED" "map_find (a_sleeping ?a) t = Some v" using assms(3,4) by simp_all
  have some: "a_status ?a t \<noteq> None" using st(1) by simp
  note t = tid_cast [OF inv some]
  let ?b = "(a_update t (\<lambda>th. th\<lparr>a_state := READY\<rparr>) ?a)\<lparr>a_blocked := a_blocked ?a - {t}, a_masked := False\<rparr>"
  have e: "a_exec (Call (Resume (int t))) ?a = (Returned 0, ?b)"
    using st t by (simp add: a_resume_def a_return_def a_enqueue_def Let_def del: view_sched)
  obtain s' where s': "exec K (Call (Resume (int t))) s = Ret (Returned 0) s'" "view K s' = ?b"
    by (rule call_returns [OF assms(1,2) _ _ e]) (use t in \<open>simp_all add: legal_def\<close>)
  have "t \<notin> set (a_ready ?a)" using a_core_ready [OF inv [unfolded a_inv_def], of t] st by simp
  with s' st some show ?thesis
    unfolding view_sched [of K, symmetric] by (intro exI [of _ s']) (simp add: del: view_sched)
qed

subsection \<open>Getters\<close>

text \<open>
  The getters tell the truth and change nothing: \<open>uthread_get_tid\<close> returns the running thread,
  \<open>uthread_get_total_quantums\<close> the number of started quantums, \<open>uthread_get_quantums\<close> the number of
  quantums of an existing thread (the cast to \<open>int\<close> never truncates it).
\<close>

lemma getters_exact:
  assumes "lib_reachable K q s" and "sys_ok K" and "thr s t = Some th"
  shows "\<exists>s1 s2 s3.
    exec K (Call Get_tid) s = Ret (Returned (int (running_thread_tid (sched s)))) s1 \<and> view K s1 = view K s \<and>
    exec K (Call Get_total_quantums) s = Ret (Returned (total_quantums (sched s))) s2 \<and>
    view K s2 = (view K s)\<lparr>a_masked := False\<rparr> \<and>
    exec K (Call (Get_quantums (int t))) s = Ret (Returned (int (quantum_t th))) s3 \<and>
    view K s3 = (view K s)\<lparr>a_masked := False\<rparr>"
proof -
  note inv = reachable_core [OF assms(1)]
  have at: "a_threads (view K s) t = Some (abs_thread K th)" using assms(3) by (simp add: view_def Let_def)
  then have some: "a_status (view K s) t \<noteq> None" unfolding a_status_def by simp
  note t = tid_cast [OF inv some]
  have q: "int_of_size_t (quantum_t th) = int (quantum_t th)"
    using quantum_bound [OF assms(1,3)] by (intro int_of_size_t_small) (simp add: int_limits)
  have e1: "a_exec (Call Get_tid) (view K s) = (Returned (int (running_thread_tid (sched s))), view K s)"
    and e2: "a_exec (Call Get_total_quantums) (view K s) =
      (Returned (total_quantums (sched s)), (view K s)\<lparr>a_masked := False\<rparr>)"
    and e3: "a_exec (Call (Get_quantums (int t))) (view K s) =
      (Returned (int (quantum_t th)), (view K s)\<lparr>a_masked := False\<rparr>)"
    using t at q by (simp_all add: a_return_def a_get_quantums_def abs_thread_def)
  obtain s1 where s1: "exec K (Call Get_tid) s = Ret (Returned (int (running_thread_tid (sched s)))) s1"
    "view K s1 = view K s"
    by (rule call_returns [OF assms(1,2) _ _ e1]) (simp_all add: legal_def)
  obtain s2 where s2: "exec K (Call Get_total_quantums) s = Ret (Returned (total_quantums (sched s))) s2"
    "view K s2 = (view K s)\<lparr>a_masked := False\<rparr>"
    by (rule call_returns [OF assms(1,2) _ _ e2]) (simp_all add: legal_def)
  obtain s3 where s3: "exec K (Call (Get_quantums (int t))) s = Ret (Returned (int (quantum_t th))) s3"
    "view K s3 = (view K s)\<lparr>a_masked := False\<rparr>"
    by (rule call_returns [OF assms(1,2) _ _ e3]) (use t in \<open>simp_all add: legal_def\<close>)
  from s1 s2 s3 show ?thesis by blast
qed

subsection \<open>A failed system call\<close>

text \<open>
  C32. When blocking the timer signal fails, every API function but \<open>uthread_get_tid\<close> (which makes no
  system call) prints the error and ends the process with code 1, having changed nothing else.
\<close>

theorem failed_mask_call_exits:
  assumes "f \<noteq> Get_tid" and "scheduler s = Some sc"
    and "sys_ret K (events s) (Sigprocmask SIG_BLOCK (sig_set sc)) = - 1"
  shows "run_api K f s = Exit 1 (s\<lparr>events :=
    Stderr (''system error: Signal Block failed'' @ [CHR 0x0A]) #
    Sys (Sigprocmask SIG_BLOCK (sig_set sc)) (- 1) # events s\<rparr>)"
proof -
  have "block_signals K s = Exit 1 (s\<lparr>events :=
      Stderr (''system error: Signal Block failed'' @ [CHR 0x0A]) #
      Sys (Sigprocmask SIG_BLOCK (sig_set sc)) (- 1) # events s\<rparr>)"
    using assms(2,3)
    by (simp add: block_signals_def this_def sigprocmask_def do_syscall_def handleErrorSystemCall_def
        SYSTEM_CALL_ERROR_def stderr_put_def comb_defs handle_consts Let_def)
  with assms(1) show ?thesis
    by (cases f) (simp_all add: uthread_spawn_def uthread_terminate_def uthread_block_def uthread_resume_def
      uthread_sleep_def uthread_get_total_quantums_def uthread_get_quantums_def seq_op_def bind_op_def)
qed

theorem failed_mask_call_exits_witness:
  "run_api (good_platform\<lparr>sys_ret := \<lambda>_ _. - 1\<rparr>) (Spawn 0x400)
     (boot\<lparr>scheduler := Some (ready_scheduler 1000)\<rparr>) =
   Exit 1 (boot\<lparr>scheduler := Some (ready_scheduler 1000), events :=
     [Stderr (''system error: Signal Block failed'' @ [CHR 0x0A]), Sys (Sigprocmask SIG_BLOCK {SIGVTALRM}) (- 1)]\<rparr>)"
  using failed_mask_call_exits [of "Spawn 0x400" "boot\<lparr>scheduler := Some (ready_scheduler 1000)\<rparr>"
      "ready_scheduler 1000" "good_platform\<lparr>sys_ret := \<lambda>_ _. - 1\<rparr>"]
  by (simp add: ready_scheduler_def boot_def)

end
