(* ===== verification/Numbers.thy ===== *)
theory Numbers
  imports Safety
begin

text \<open>
  The integers of the program: in every state it can reach they are values of their C types, and
  the one signed computation that can overflow does so exactly when a counter is at its limit.
\<close>

subsection \<open>The stored numbers of the sleepers\<close>

lemma sleeping_next:
  assumes "e \<in> set (a_sleeping (a_next act a))"
  shows "e \<in> set (a_sleeping a) \<or>
    (\<exists>n > 0. act = Call (Sleep n) \<and> e = (a_running a, wake_value (a_total a) n))"
proof (cases "(act, a)" rule: a_exec.cases)
  case (3 tid _)
  with assms set_map_erase [of "size_t_of_int tid" "a_sleeping a"] show ?thesis
    by (auto simp: a_next_def a_terminate_def a_switch_def a_forget_def Let_def
      dest!: set_sleeping_wake split: option.splits State.splits)
next
  case (6 n _)
  have "set (a_sleeping (a_to_sleep n a)) \<subseteq> insert (a_running a, wake_value (a_total a) n) (set (a_sleeping a))"
    using set_map_assign [of "a_running a" "wake_value (a_total a) n" "a_sleeping a"]
    by (simp add: a_to_sleep_def)
  with 6 assms show ?thesis
    by (auto simp: a_next_def a_sleep_def a_switch_def dest!: set_sleeping_wake split: if_splits)
qed (use assms in \<open>auto simp: a_next_def a_tick_def a_spawn_def a_block_def a_resume_def a_get_quantums_def
    a_switch_def Let_def dest!: set_sleeping_wake split: option.splits State.splits if_splits\<close>)

lemma wake_value_int:
  assumes "1 \<le> tot" and "tot \<le> INT_MAX" and "0 < n" and "n \<le> INT_MAX"
  shows "int (wake_value tot n) = tot + n + 1"
  using assms by (simp add: wake_value_small)

definition numbers_ok :: "lib \<Rightarrow> bool" where
  "numbers_ok a \<longleftrightarrow> (\<forall>e \<in> set (a_sleeping a). 0 < snd e \<and> snd e < 2 ^ 32)"

lemma numbers_init: "numbers_ok a_init"
  by (simp add: numbers_ok_def a_init_def)

lemma numbers_step:
  assumes "a_inv a" and "numbers_ok a" and "a_step a l a'"
  shows "numbers_ok a'"
proof -
  obtain act v where l: "l = (act, v)" and act: "legal act" and e: "a_exec act a = (v, a')"
    using assms(3) by (auto simp: legal_def elim: a_stepE)
  then have a': "a' = a_next act a" by (simp add: a_next_def)
  note tot = a_core_total [OF assms(1) [unfolded a_inv_def]]
  have "0 < wake_value (a_total a) n \<and> wake_value (a_total a) n < 2 ^ 32" if "act = Call (Sleep n)" "0 < n" for n
  proof -
    have "n \<le> INT_MAX" using act that(1) by (simp add: legal_def in_int_def)
    from wake_value_int [OF tot that(2) this] this tot that(2) show ?thesis by (simp add: int_limits)
  qed
  then show ?thesis
    using assms(2) sleeping_next [of _ act a] unfolding a' numbers_ok_def by fastforce
qed

interpretation numbers: transition_system a_start a_step "\<lambda>a. a_inv a \<and> numbers_ok a"
  by unfold_locales (auto intro: a_inv_init numbers_init dest: a_step_inv numbers_step)

lemma reachable_numbers:
  assumes "lib_reachable K q s"
  shows "numbers_ok (view K s)"
  by (rule lib.transfer [OF _ assms]) (use numbers.reachable_inv in blast)

subsection \<open>Types\<close>

lemma answers_in_int:
  assumes "lib_reachable K q s" and "well_typed act" and "exec K act s = Ret (Returned v) s'"
  shows "in_int v"
proof -
  note st = step_view [OF assms]
  note inv = reachable_core [OF assms(1)]
  note core = inv [unfolded a_inv_def]
  have neg: "in_int (- 1)" "in_int 0" by (simp_all add: in_int_def int_limits)
  have small: "in_int (int t)" if "int t < MAX_THREAD_NUM" for t
    using that by (simp add: in_int_def int_limits MAX_THREAD_NUM_def)
  have go: "in_int w" if "fst (a_goes_on b) = Returned w" for b w
    using that neg by (cases "a_point_of b (a_running b)") (simp_all add: a_goes_on_def)
  then have sw: "in_int w" if "fst (a_switch b) = Returned w" for b w
    using that unfolding a_switch_def by blast
  have ans: "fst (a_exec act (view K s)) = Returned v" using st(1) by simp
  show ?thesis
  proof (cases "(act, view K s)" rule: a_exec.cases)
    case 1
    with ans go show ?thesis by (auto simp: a_tick_def split: if_splits)
  next
    case (2 ep _)
    with ans neg small free_tid_Some(2) show ?thesis
      by (auto simp: a_spawn_def a_return_def split: if_splits option.splits)
  next
    case (3 tid _)
    with ans neg sw show ?thesis
      by (auto simp: a_terminate_def a_return_def Let_def split: option.splits State.splits)
  next
    case (4 tid _)
    with ans neg sw show ?thesis
      by (auto simp: a_block_def a_return_def Let_def split: if_splits option.splits State.splits)
  next
    case (5 tid _)
    with ans neg show ?thesis
      by (auto simp: a_resume_def a_return_def Let_def split: option.splits State.splits)
  next
    case (6 n _)
    with ans neg sw show ?thesis by (auto simp: a_sleep_def a_return_def split: if_splits)
  next
    case 7
    have "int (a_running (view K s)) < MAX_THREAD_NUM"
      using a_core_tid [OF core, of "a_running (view K s)"] a_inv_running [OF inv, of "a_running (view K s)"] by simp
    with 7 ans small show ?thesis by auto
  next
    case 8
    with ans a_core_total [OF core] show ?thesis by (auto simp: a_return_def in_int_def int_limits)
  next
    case (9 tid _)
    with ans neg in_int_of_size_t show ?thesis
      by (auto simp: a_get_quantums_def a_return_def split: option.splits)
  qed
qed

text \<open>
  C11. The program is well typed at run time: in every state it can reach all its integers are
  values of their C types, and small ones. The number of quantums is a positive \<open>int\<close>; the quantum
  is the \<open>int\<close> given to \<open>uthread_init\<close> and not negative; every tid in the scheduler is below
  \<open>MAX_THREAD_NUM\<close>, and so is the length of the ready queue; the stored number of a sleeper is
  positive and below \<open>2 ^ 32\<close>, so its \<open>size_t\<close> additions never wrapped; the counter of every thread
  fits an \<open>int\<close>; and every value an API function answers is an \<open>int\<close>.
\<close>

theorem reachable_well_typed:
  assumes "lib_reachable K q s"
  shows "total_quantums (sched s) \<in> {1..INT_MAX} \<and> q \<in> {0..INT_MAX} \<and>
    timer (sched s) = quantum_timer q \<and>
    insert (running_thread_tid (sched s)) (set (ready_threads (sched s)) \<union> blocked_threads (sched s) \<union>
      fst ` set (sleeping_threads (sched s))) \<subseteq> {t. int t < MAX_THREAD_NUM} \<and>
    int (length (ready_threads (sched s))) < MAX_THREAD_NUM \<and>
    snd ` set (sleeping_threads (sched s)) \<subseteq> {0<..<2 ^ 32} \<and>
    quantum_t ` ran (thr s) \<subseteq> {n. int n \<le> INT_MAX} \<and>
    (\<forall>act v s'. well_typed act \<longrightarrow> exec K act s = Ret (Returned v) s' \<longrightarrow> in_int v)"
proof -
  note inv = reachable_core [OF assms]
  note core = inv [unfolded a_inv_def]
  let ?sc = "sched s" and ?T = "{t. int t < MAX_THREAD_NUM}"
  have tid: "t \<in> ?T" if "state_of s t \<noteq> None" for t
    using a_core_tid [OF core, of t] that by simp
  have "state_of s (running_thread_tid ?sc) = Some RUNNNING"
    using a_inv_running [OF inv, of "running_thread_tid ?sc"] by simp
  then have run: "running_thread_tid ?sc \<in> ?T" using tid [of "running_thread_tid ?sc"] by simp
  have ready: "set (ready_threads ?sc) \<subseteq> ?T"
    using a_core_ready [OF core] tid by (auto simp: subset_iff)
  have blocked: "blocked_threads ?sc \<subseteq> ?T" using a_core_blocked [OF core] tid by auto
  have sleep: "fst ` set (sleeping_threads ?sc) \<subseteq> ?T"
  proof -
    have "t \<in> ?T" if "map_find (sleeping_threads ?sc) t \<noteq> None" for t
      using a_core_sleep [OF core, of t] that tid [of t] by auto
    then show ?thesis using std.keys_entries [OF a_core_map_ok [OF core]] by auto
  qed
  have "int (length (ready_threads ?sc)) < MAX_THREAD_NUM"
  proof -
    have "set (ready_threads ?sc) \<subseteq> {..<nat MAX_THREAD_NUM} - {running_thread_tid ?sc}"
      using ready a_core_ready [OF core, of "running_thread_tid ?sc"] a_inv_running [OF inv, of "running_thread_tid ?sc"]
      by auto
    then have "card (set (ready_threads ?sc)) \<le> card ({..<nat MAX_THREAD_NUM} - {running_thread_tid ?sc})"
      by (intro card_mono) auto
    also have "\<dots> = nat MAX_THREAD_NUM - 1" using run by (auto simp: card_Diff_singleton_if)
    finally show ?thesis
      using distinct_card [OF a_core_distinct [OF core]] by (simp add: MAX_THREAD_NUM_def)
  qed
  moreover have "0 \<le> q \<and> q \<le> INT_MAX"
  proof -
    obtain s0 where "lib_start K q s0" using assms by (induction rule: reachable.induct) auto
    then show ?thesis using lib_start_view(4) by (auto simp: lib_start_def in_int_def)
  qed
  moreover have "timer ?sc = quantum_timer q"
    using armings [OF assms] reachable_sched [OF assms] by (auto simp: timer_obs_def)
  moreover have "snd ` set (sleeping_threads ?sc) \<subseteq> {0<..<2 ^ 32}"
    using reachable_numbers [OF assms] by (auto simp: numbers_ok_def)
  moreover have "quantum_t ` ran (thr s) \<subseteq> {n. int n \<le> INT_MAX}"
    using quantum_bound [OF assms] by (force simp: ran_def)
  ultimately show ?thesis
    using a_core_total [OF core] run ready blocked sleep answers_in_int [OF assms] by auto
qed

theorem reachable_well_typed_witness:
  "lib_reachable good_platform 1000 (state_after demo) \<and> timer (sched (state_after demo)) = quantum_timer 1000 \<and>
   length (ready_threads (sched (state_after demo))) < 100"
  using reachable_well_typed [OF demo_reachable] demo_reachable by (simp add: MAX_THREAD_NUM_def)

subsection \<open>Overflow\<close>

lemma cast_limit:
  assumes "v < 2 ^ 32"
  shows "in_int (int_of_size_t v - 1) \<longleftrightarrow> v \<noteq> 2 ^ 31"
  using assms by (auto simp: int_of_size_t_def Let_def in_int_def int_limits)

lemma arith_ok_iff:
  assumes "numbers_ok a" and "1 \<le> a_total a" and "a_total a \<le> INT_MAX"
  shows "arith_ok a \<longleftrightarrow> a_total a \<noteq> INT_MAX \<and> 2 ^ 31 \<notin> snd ` set (a_sleeping a)"
proof -
  have "in_int (a_total a + 1) \<longleftrightarrow> a_total a \<noteq> INT_MAX" using assms(2,3) by (auto simp: in_int_def int_limits)
  moreover have "in_int (int_of_size_t (snd e) - 1) \<longleftrightarrow> snd e \<noteq> 2 ^ 31" if "e \<in> set (a_sleeping a)" for e
    using that assms(1) by (intro cast_limit) (simp add: numbers_ok_def)
  ultimately show ?thesis unfolding arith_ok_def by (auto simp: image_iff)
qed

lemma sleeping_to_sleep:
  assumes "a_inv a"
  shows "set (a_sleeping (a_to_sleep n a)) = insert (a_running a, wake_value (a_total a) n) (set (a_sleeping a))"
proof -
  note core = assms [unfolded a_inv_def]
  have ok: "map_ok (a_sleeping a)" by (rule a_core_map_ok [OF core])
  have "map_find (a_sleeping a) (a_running a) = None" using running_apart(2) [OF core] .
  then have "(t, v) \<in> set (map_assign (a_running a) w (a_sleeping a)) \<longleftrightarrow>
      (t, v) = (a_running a, w) \<or> (t, v) \<in> set (a_sleeping a)" for t v w
    using std.entries_find [OF ok] std.entries_find [OF std.ok_assign [OF ok]] std.find_assign [OF ok] by auto
  then show ?thesis by (auto simp: a_to_sleep_def)
qed

text \<open>Calls that sleep at the limit: the number they store is \<open>2 ^ 31\<close>.\<close>

definition sleeps_at_limit :: "int \<Rightarrow> action \<Rightarrow> bool" where
  "sleeps_at_limit tot act \<longleftrightarrow> (case act of Call (Sleep n) \<Rightarrow> tot + n + 1 = 2 ^ 31 | _ \<Rightarrow> False)"

lemma act_arith_iff:
  assumes "a_inv a" and "numbers_ok a" and "legal act"
  shows "act_arith act a \<longleftrightarrow> \<not> (gives_up act a \<and> (a_total a = INT_MAX \<or> 2 ^ 31 \<in> snd ` set (a_sleeping a) \<or>
    sleeps_at_limit (a_total a) act))"
proof (cases "\<exists>n. act = Call (Sleep n)")
  case True
  then obtain n where n: "act = Call (Sleep n)" by blast
  note tot = a_core_total [OF assms(1) [unfolded a_inv_def]]
  show ?thesis
  proof (cases "gives_up act a")
    case gives: True
    then have pos: "0 < n" "n \<le> INT_MAX" using n assms(3) by (simp_all add: legal_def in_int_def)
    let ?b = "a_to_sleep n a"
    note wv = wake_value_int [OF tot pos] and set = sleeping_to_sleep [OF assms(1), of n]
    have "numbers_ok ?b"
      using assms(2) wv tot pos unfolding numbers_ok_def set by (auto simp: int_limits)
    moreover have "a_total ?b = a_total a" by (simp add: a_to_sleep_def a_leave_def)
    ultimately have "arith_ok ?b \<longleftrightarrow> a_total a \<noteq> INT_MAX \<and> 2 ^ 31 \<notin> snd ` set (a_sleeping ?b)"
      using arith_ok_iff [of ?b] tot by simp
    moreover have "2 ^ 31 = wake_value (a_total a) n \<longleftrightarrow> a_total a + n + 1 = 2 ^ 31" using wv by auto
    ultimately show ?thesis using gives n unfolding set by (auto simp: sleeps_at_limit_def)
  qed (use n act_arith_stay in auto)
next
  case False
  then have "act_arith act a \<longleftrightarrow> (gives_up act a \<longrightarrow> arith_ok a)"
    by (cases "(act, a)" rule: act_arith.cases) auto
  moreover have "\<not> sleeps_at_limit (a_total a) act"
    using False by (auto simp: sleeps_at_limit_def split: action.split api.split)
  ultimately show ?thesis
    using arith_ok_iff [OF assms(2) a_core_total [OF assms(1) [unfolded a_inv_def]]] by auto
qed



end
