(* ===== verification/Objects.thy ===== *)
theory Objects
  imports Safety
begin

text \<open>
  The thread objects through a run: a successful \<open>uthread_spawn\<close> creates exactly one, nothing else
  creates any, and none is deleted.
\<close>

interpretation counted: printing_observer "\<lambda>_ s. next_obj s = n" for n
  by unfold_locales simp_all

lemma other_objects:
  assumes "lib_inv K s" and "well_typed act" and "exec K act s = Ret v s'" and "\<And>ep. act \<noteq> Call (Spawn ep)"
  shows "next_obj s' = next_obj s"
  by (rule counted.exec_other [OF exec_step(3) [OF assms(1-3)] assms(4) refl assms(3)])

lemma add_new_thread_from_objects:
  "0 \<le> i \<Longrightarrow> triple (\<lambda>s. next_obj s = n) (\<lambda>r s. next_obj s = (if r = - 1 then n else Suc n)) J
     (add_new_thread_from k K READY 0 al ep i)"
proof (induction k arbitrary: i)
  case 0
  then show ?case by (simp add: triple_def wp_def ret_def)
next
  case (Suc k)
  have "triple (\<lambda>s. next_obj s = n) (\<lambda>_ s. next_obj s = Suc n) J (new_Thread K READY 0 al ep)"
    by (simp add: triple_def)
  moreover have "triple (\<lambda>s. next_obj s = Suc n) (\<lambda>r s. next_obj s = (if r = - 1 then n else Suc n)) J
      (seq_op (set_thread (size_t_of_int i) l) (seq_op (if READY = READY
         then set_this (\<lambda>sc. sc\<lparr>ready_threads := ready_threads sc @ [size_t_of_int i]\<rparr>) else ret ()) (ret i)))" for l
    by (intro triple_seq_keep [OF counted.set_thread] triple_seq_keep [OF triple_if [OF counted.set_this triple_ret]])
      (use Suc.prems in \<open>simp_all add: triple_def\<close>)
  moreover have "triple (\<lambda>s. next_obj s = n) (\<lambda>r s. next_obj s = (if r = - 1 then n else Suc n)) J
      (add_new_thread_from k K READY 0 al ep (i + 1))"
    by (rule Suc.IH) (use Suc.prems in simp)
  ultimately have "triple (\<lambda>s. next_obj s = n) (\<lambda>r s. next_obj s = (if r = - 1 then n else Suc n)) J
      (\<lambda>s. add_new_thread_from (Suc k) K READY 0 al ep i s)"
    unfolding add_new_thread_from.simps
    by (intro triple_bind_keep [OF triple_check_thread] triple_if triple_bind)
  then show ?case .
qed

lemma spawn_objects:
  assumes "exec K (Call (Spawn ep)) s = Ret v s'"
  shows "next_obj s' = (if v = Returned (- 1) then next_obj s else Suc (next_obj s))"
proof -
  let ?P = "\<lambda>r s'. next_obj s' = (if r = - 1 then next_obj s else Suc (next_obj s))"
  have keep: "triple (\<lambda>s'. next_obj s' = k) (\<lambda>_ s'. next_obj s' = k) J
      (if tid = FAILURE_ERROR then handleErrorLibrary m else ret 0)" for k tid m J
    by (intro triple_if counted.lib_error triple_ret)
  have "triple (\<lambda>s'. ?P tid s') ?P (\<lambda>_. False) (seq_op (if tid = FAILURE_ERROR then handleErrorLibrary m else ret 0)
      (seq_op (unblock_signals K) (ret tid)))" for tid m
    by (intro triple_seq_keep [OF keep] triple_seq_keep [OF counted.unblock_signals]) (simp add: triple_def)
  then have "triple (\<lambda>s'. next_obj s' = next_obj s) ?P (\<lambda>_. False) (uthread_spawn K ep)"
    unfolding uthread_spawn_def add_new_thread_def
    by (intro triple_seq_keep [OF counted.block_signals] triple_if triple_bind [OF add_new_thread_from_objects])
      (simp_all add: triple_def wp_simps)
  from tripleD [OF this refl] assms show ?thesis
    by (auto simp: wp_def exec_def run_action_def bind_op_def ret_def split: outcome.splits)
qed

text \<open>An action and its answer that created a thread.\<close>

definition created :: "action \<times> answer \<Rightarrow> bool" where
  "created l \<longleftrightarrow> (case fst l of Call (Spawn ep) \<Rightarrow> snd l \<noteq> Returned (- 1) | _ \<Rightarrow> False)"

lemma exec_objects:
  assumes "lib_inv K s" and "well_typed act" and "exec K act s = Ret v s'"
  shows "next_obj s' = next_obj s + (if created (act, v) then 1 else 0)"
proof (cases "\<exists>ep. act = Call (Spawn ep)")
  case True
  then obtain ep where act: "act = Call (Spawn ep)" by blast
  from spawn_objects [OF assms(3) [unfolded act]] show ?thesis by (simp add: created_def act)
next
  case False
  then have "\<not> created (act, v)" by (auto simp: created_def split: action.split api.split)
  with other_objects [OF assms] False show ?thesis by simp
qed

lemma run_objects:
  assumes "lib_inv K s" and "\<forall>act \<in> set acts. well_typed act" and "exec_list K acts s = Ret vs s'"
  shows "next_obj s' = next_obj s + length (filter created (zip acts vs))"
  using assms
proof (induction acts arbitrary: s vs)
  case Nil
  then show ?case by (simp add: ret_def)
next
  case (Cons act acts)
  then obtain v s1 ws where e: "exec K act s = Ret v s1" "exec_list K acts s1 = Ret ws s'" "vs = v # ws"
    by (auto simp only: exec_list_Cons)
  have wt: "well_typed act" "\<forall>act \<in> set acts. well_typed act" using Cons.prems(2) by simp_all
  have "next_obj s' = next_obj s1 + length (filter created (zip acts ws))"
    by (rule Cons.IH [OF exec_step(1) [OF Cons.prems(1) wt(1) e(1)] wt(2) e(2)])
  with exec_objects [OF Cons.prems(1) wt(1) e(1)] e(3) show ?case by simp
qed

text \<open>The objects that belong to threads of the table.\<close>

definition owned :: "process \<Rightarrow> nat set" where
  "owned s = {l. \<exists>t. map_find (threads (sched s)) t = Some l}"

lemma owned_objects:
  assumes "lib_reachable K q s"
  shows "owned s \<subseteq> dom (heap s)" and "card (owned s) = card {t. state_of s t \<noteq> None}"
    and "finite {t. state_of s t \<noteq> None}"
proof -
  obtain sc where sc: "scheduler s = Some sc" "rep_with sc s" using reachable_rep [OF assms] by (rule rep_okE)
  then have s: "sched s = sc" by (simp add: sched_def)
  note w = rep_withD [OF sc(2)]
  show "owned s \<subseteq> dom (heap s)" using w(5) by (auto simp: owned_def s)
  have T: "{t. state_of s t \<noteq> None} = dom (map_find (threads sc))"
    using thr_None_iff [OF sc(2)] by (auto simp: state_of_def dom_def)
  then show "finite {t. state_of s t \<noteq> None}" using std.finite_dom [OF w(2)] by simp
  have "owned s = (\<lambda>t. the (map_find (threads sc) t)) ` dom (map_find (threads sc))"
    by (auto simp: owned_def s image_iff dom_def) force
  moreover have "inj_on (\<lambda>t. the (map_find (threads sc) t)) (dom (map_find (threads sc)))"
    using w(6) by (auto simp: inj_on_def)
  ultimately show "card (owned s) = card {t. state_of s t \<noteq> None}" by (simp only: T card_image)
qed

text \<open>
  C20. Thread objects and their stacks are never released while the process runs, and this is how
  many are lost: after any run from \<open>uthread_init\<close> all objects ever created are still there, one for
  the main thread and one for every successful \<open>uthread_spawn\<close>, whereas only those of the living
  threads, at most \<open>MAX_THREAD_NUM\<close>, are in the table; all others can not be reached any more. A
  program that keeps creating and terminating threads keeps growing.
\<close>

theorem objects_never_released:
  assumes "lib_start K q s0" and "\<forall>act \<in> set acts. well_typed act" and "exec_list K acts s0 = Ret vs s"
  shows "dom (heap s) = {..<next_obj s} \<and>
    next_obj s = 1 + length (filter created (zip acts vs)) \<and>
    card (dom (heap s) - owned s) = next_obj s - card {t. state_of s t \<noteq> None} \<and>
    card {t. state_of s t \<noteq> None} \<le> nat MAX_THREAD_NUM"
proof -
  have reach: "lib_reachable K q s"
    by (rule reachable_exec_list [OF reachable.first assms(2,3)]) (rule assms(1))
  note o = owned_objects [OF reach]
  have dom: "dom (heap s) = {..<next_obj s}" by (rule objects_all [OF reach])
  have "card (dom (heap s) - owned s) = card (dom (heap s)) - card (owned s)"
    using o(1) dom finite_subset [OF o(1)] by (intro card_Diff_subset) simp_all
  moreover have "card {t. state_of s t \<noteq> None} \<le> card {..<nat MAX_THREAD_NUM}"
    using a_core_tid [OF reachable_core [OF reach, unfolded a_inv_def]]
    by (intro card_mono) (force simp: MAX_THREAD_NUM_def)+
  moreover have "next_obj s = 1 + length (filter created (zip acts vs))"
    using run_objects [OF lib_start_view(1) [OF assms(1)] assms(2,3)] lib_start_observed(5) [OF assms(1)] by simp
  ultimately show ?thesis using dom o(2) by simp
qed

theorem objects_never_released_witness:
  "next_obj (state_after [Call (Spawn 4), Call (Terminate 1), Call (Spawn 0)]) = 2 \<and>
   card (dom (heap (state_after [Call (Spawn 4), Call (Terminate 1), Call (Spawn 0)])) -
     owned (state_after [Call (Spawn 4), Call (Terminate 1), Call (Spawn 0)])) = 1"
proof -
  let ?acts = "[Call (Spawn 4), Call (Terminate 1), Call (Spawn 0)]" and ?s = "state_after [Call (Spawn 4), Call (Terminate 1), Call (Spawn 0)]"
  have sm: "small ?acts" by (simp add: small_def legal_def in_int_def int_limits)
  have wt: "\<forall>act \<in> set ?acts. well_typed act" by (simp add: in_int_def int_limits)
  have v: "view good_platform ?s = snd (a_run ?acts a_init)" by (rule small_run(2) [OF sm])
  have "state_of ?s t = (if t = 0 then Some RUNNNING else None)" for t
    unfolding view_sched(7) [of good_platform, symmetric] v by (simp add: a_run_simps)
  then have "{t. state_of ?s t \<noteq> None} = {0}" by auto
  moreover have "fst (a_run ?acts a_init) = [Returned 1, Returned 0, Returned (- 1)]" by (simp add: a_run_simps)
  moreover note o = objects_never_released [OF first_state(2) wt small_run(1) [OF sm]]
  ultimately have "next_obj ?s = 2" by (simp add: created_def del: a_run.simps)
  moreover have "card (dom (heap ?s) - owned ?s) = next_obj ?s - card {t. state_of ?s t \<noteq> None}" using o by blast
  ultimately show ?thesis using \<open>{t. state_of ?s t \<noteq> None} = {0}\<close> by simp
qed

end
