(* ===== verification/Tails.thy ===== *)
theory Tails
  imports Safety
begin

text \<open>
  Theory \<open>Uthreads\<close> runs an API call as one action. The timer can also expire while a thread is
  still inside library code: between the call of \<open>unblock_signals\<close> at the end of an API function and
  its return, and in a signal handler that was resumed and has not returned yet. Here every API
  function is split at its last \<open>unblock_signals\<close> into a core, during which the signal is
  blocked, and a tail; an API function is proved to be its core followed by its tail.
\<close>

subsection \<open>Cores and tails\<close>

text \<open>
  What is left of an API call once the signal may arrive again: the value is on its way to the
  caller; the error report is still to be printed; or the call was continued by \<open>siglongjmp\<close>, the
  signal was unblocked by \<open>save_current_execution_context\<close>, and the function unblocks it once more
  and returns 0.
\<close>

datatype tail =
    Done int
  | Report string
  | Reopen

definition finish :: "platform \<Rightarrow> tail \<Rightarrow> int sop" where
  "finish K T =
     (case T of
        Done v \<Rightarrow> ret v
      | Report m \<Rightarrow> handleErrorLibrary m
      | Reopen \<Rightarrow> seq_op (unblock_signals K) (ret 0))"

fun tail_value :: "tail \<Rightarrow> int" where
  "tail_value (Done v) = v"
| "tail_value (Report m) = - 1"
| "tail_value Reopen = 0"

text \<open>Each API function up to its last \<open>unblock_signals\<close>, with the tail that it leaves.\<close>

definition spawn_core :: "platform \<Rightarrow> addr \<Rightarrow> tail sop" where
  "spawn_core K entry_point =
     seq_op (block_signals K) (
     if entry_point = 0
     then bind_op (handleErrorLibrary ''Null entry_point'') (\<lambda>r. ret (Done r))
     else
       bind_op (add_new_thread K READY 0 True entry_point) (\<lambda>tid.
       seq_op (if tid = FAILURE_ERROR
               then handleErrorLibrary ''Maximum number of threads delimited''
               else ret 0) (
       seq_op (unblock_signals K) (ret (Done tid)))))"

definition terminate_core :: "platform \<Rightarrow> int \<Rightarrow> tail sop" where
  "terminate_core K tid =
     seq_op (block_signals K) (
     seq_op (if tid = 0 then seq_op remove_all handleForcedExit else ret ()) (
     bind_op (remove_thread K (size_t_of_int tid)) (\<lambda>r.
     if r = FAILURE_ERROR then seq_op (unblock_signals K) (ret (Done FAILURE_ERROR))
     else seq_op (unblock_signals K) (ret (Done 0)))))"

definition block_core :: "platform \<Rightarrow> int \<Rightarrow> tail sop" where
  "block_core K tid =
     seq_op (block_signals K) (
     bind_op (check_thread (size_t_of_int tid)) (\<lambda>found.
     if \<not> found \<or> tid = 0
     then seq_op (unblock_signals K) (ret (Report ''The id is invalid''))
     else seq_op (block_thread K (size_t_of_int tid))
            (seq_op (unblock_signals K) (ret (Done 0)))))"

definition resume_thread_core :: "platform \<Rightarrow> int \<Rightarrow> tail sop" where
  "resume_thread_core K tid =
     seq_op (block_signals K) (
     bind_op (check_thread (size_t_of_int tid)) (\<lambda>found.
     if \<not> found
     then seq_op (unblock_signals K) (ret (Report ''The id is invalid''))
     else seq_op (unblock_thread (size_t_of_int tid)) (
          seq_op (unblock_signals K) (ret (Done 0)))))"

definition get_tid_core :: "tail sop" where
  "get_tid_core = bind_op get_running_thread_tid (\<lambda>v. ret (Done v))"

definition sleep_core :: "platform \<Rightarrow> int \<Rightarrow> tail sop" where
  "sleep_core K num_quantums =
     seq_op (block_signals K) (
     if num_quantums \<le> 0
     then bind_op (handleErrorLibrary ''non-positive quantum error'') (\<lambda>r. ret (Done r))
     else
       bind_op uthread_get_tid (\<lambda>tid.
       if tid = 0
       then seq_op (unblock_signals K)
              (ret (Report ''The main thread can't go on sleep state''))
       else seq_op (sleep_running_thread K (size_t_of_int num_quantums))
              (seq_op (unblock_signals K) (ret (Done 0)))))"

definition get_total_quantums_core :: "platform \<Rightarrow> tail sop" where
  "get_total_quantums_core K =
     seq_op (block_signals K) (
     bind_op get_total_quantums (\<lambda>total.
     seq_op (unblock_signals K) (ret (Done total))))"

definition get_quantums_core :: "platform \<Rightarrow> int \<Rightarrow> tail sop" where
  "get_quantums_core K tid =
     seq_op (block_signals K) (
     bind_op (check_thread (size_t_of_int tid)) (\<lambda>found.
     if \<not> found
     then seq_op (unblock_signals K) (ret (Report ''no thread with ID tid exists''))
     else
       bind_op (get_thread (size_t_of_int tid)) (\<lambda>l.
       bind_op (load l) (\<lambda>th.
       let quantum_thread = int_of_size_t (quantum_t th) in
       seq_op (unblock_signals K) (ret (Done quantum_thread))))))"

fun api_core :: "platform \<Rightarrow> api \<Rightarrow> tail sop" where
  "api_core K (Spawn ep) = spawn_core K ep"
| "api_core K (Terminate tid) = terminate_core K tid"
| "api_core K (Block tid) = block_core K tid"
| "api_core K (Resume tid) = resume_thread_core K tid"
| "api_core K (Sleep n) = sleep_core K n"
| "api_core K Get_tid = get_tid_core"
| "api_core K Get_total_quantums = get_total_quantums_core K"
| "api_core K (Get_quantums tid) = get_quantums_core K tid"

lemma bind_ret_op: "bind_op (ret x) f = f x"
  by (rule ext) (simp add: comb_defs)

lemma bind_fault_op: "bind_op (fault u) f = fault u"
  by (rule ext) (simp add: comb_defs)

lemma bind_seq_op: "bind_op (seq_op m n) f = seq_op m (bind_op n f)"
  by (simp add: seq_op_def bind_op_assoc)

lemma bind_if: "bind_op (if b then m else n) f = (if b then bind_op m f else bind_op n f)"
  by simp

lemmas split_core = bind_op_assoc bind_seq_op bind_ret_op bind_fault_op bind_if finish_def

text \<open>An API function is its core followed by its tail.\<close>

lemma run_api_core: "run_api K f = bind_op (api_core K f) (finish K)"
proof (cases f)
  case (Spawn ep)
  then show ?thesis by (simp add: uthread_spawn_def spawn_core_def split_core bind_op_ret cong: if_cong)
next
  case (Terminate tid)
  then show ?thesis by (simp add: uthread_terminate_def terminate_core_def split_core cong: if_cong)
next
  case (Block tid)
  then show ?thesis
    by (simp add: uthread_block_def uthread_block_after_def block_core_def split_core cong: if_cong)
next
  case (Resume tid)
  then show ?thesis by (simp add: uthread_resume_def resume_thread_core_def split_core cong: if_cong)
next
  case (Sleep n)
  then show ?thesis
    by (simp add: uthread_sleep_def uthread_sleep_after_def sleep_core_def split_core bind_op_ret cong: if_cong)
next
  case Get_tid
  then show ?thesis by (simp add: uthread_get_tid_def get_tid_core_def split_core bind_op_ret cong: if_cong)
next
  case Get_total_quantums
  then show ?thesis
    by (simp add: uthread_get_total_quantums_def get_total_quantums_core_def split_core cong: if_cong)
next
  case (Get_quantums tid)
  then show ?thesis
    by (simp add: uthread_get_quantums_def get_quantums_core_def split_core Let_def cong: if_cong)
qed

text \<open>
  The same for a context switch: \<open>siglongjmp\<close> leads to the code up to the \<open>unblock_signals\<close> of
  \<open>save_current_execution_context\<close>; what follows is the tail of the function that had saved the
  context.
\<close>

definition resume_core :: "platform \<Rightarrow> sigjmp_buf \<Rightarrow> answer sop" where
  "resume_core K e =
     (case jmpbuf e ! JB_PC of
        Stored w \<Rightarrow>
          (let pc = demangle K w in if pc = 0 then fault Null_call else ret (Started pc))
      | Saved site \<Rightarrow>
          (case site of
             In_Thread_ctor \<Rightarrow> fault Stale_context
           | In_change_thread \<Rightarrow>
               bind_op (save_after K 1) (\<lambda>r. seq_op (change_thread_after K r) (ret Continued))
           | In_block_thread \<Rightarrow>
               bind_op (save_after K 1) (\<lambda>r. seq_op (block_thread_after K r) (ret (Returned 0)))
           | In_sleep_running_thread \<Rightarrow>
               bind_op (save_after K 1) (\<lambda>r. seq_op (sleep_after K 0 r) (ret (Returned 0)))))"

definition resume_tail :: "platform \<Rightarrow> sigjmp_buf \<Rightarrow> answer \<Rightarrow> answer sop" where
  "resume_tail K e v =
     (case v of
        Started pc \<Rightarrow> ret (Started pc)
      | Continued \<Rightarrow> seq_op (modify (\<lambda>s. s\<lparr>sig_mask := saved_mask e - {SIGVTALRM}\<rparr>)) (ret Continued)
      | Returned _ \<Rightarrow> bind_op (finish K Reopen) (\<lambda>r. ret (Returned r)))"

lemma resume_context_core: "resume_context K e = bind_op (resume_core K e) (resume_tail K e)"
  by (simp add: resume_context_def resume_core_def resume_tail_def uthread_block_after_def
      uthread_sleep_after_def Let_def split_core split: slot.split call_site.split)

subsection \<open>What the cores do\<close>

text \<open>The core of a call does what the contract says; only a call that left the signal blocked
  has its value ready in that case.\<close>

lemma core_masked_done:
  assumes "api_core K f s = Ret T s'" and "f = Spawn 0 \<or> (\<exists>n \<le> 0. f = Sleep n) \<or> f = Get_tid"
  shows "\<exists>v. T = Done v"
  using assms by (auto simp: spawn_core_def sleep_core_def get_tid_core_def handleErrorLibrary_def
      comb_defs split: outcome.splits)

lemma not_main:
  assumes "lib_inv K s" and "run_action K act s = Ret v s' \<or> run_action K act s = Jump e s'"
  shows "act \<noteq> Call (Terminate 0)"
  using assms wp_terminate_main [of s K] by (auto simp: lib_inv_def wp_def)

lemma core_Ret:
  assumes "lib_inv K s" and "well_typed (Call f)" and "api_core K f s = Ret T s'"
  shows "lib_inv K s'" and "a_exec (Call f) (view K s) = (Returned (tail_value T), view K s')"
    and "a_masked (view K s') \<Longrightarrow> \<exists>v. T = Done v" and "legal (Call f)"
    and "\<not> gives_up (Call f) (view K s)" and "a_total (view K s') \<le> INT_MAX"
proof -
  have not_reopen: "T \<noteq> Reopen"
    using assms(3) by (cases f) (auto simp: spawn_core_def terminate_core_def block_core_def
        resume_thread_core_def get_tid_core_def sleep_core_def get_total_quantums_core_def
        get_quantums_core_def comb_defs Let_def split: outcome.splits if_splits)
  obtain s2 where r: "run_action K (Call f) s = Ret (Returned (tail_value T)) s2"
    and s2: "view K s2 = view K s'" "rep_ok s2 = rep_ok s'"
  proof (cases T)
    case (Done v)
    with assms(3) that show ?thesis
      by (simp add: run_action_def run_api_core finish_def comb_defs)
  next
    case (Report m)
    with assms(3) that show ?thesis
      by (simp add: run_action_def run_api_core finish_def comb_defs handleErrorLibrary_def
          stderr_put_def handle_consts)
  next
    case Reopen
    with not_reopen show ?thesis by simp
  qed
  note st = exec_step [OF assms(1,2), of "Returned (tail_value T)" s2]
  have e: "exec K (Call f) s = Ret (Returned (tail_value T)) s2" using r by (simp add: exec_def)
  show "lib_inv K s'" using st(1) [OF e] by (simp add: lib_inv_def s2)
  show a: "a_exec (Call f) (view K s) = (Returned (tail_value T), view K s')" using st(2) [OF e] by (simp add: s2)
  show "a_total (view K s') \<le> INT_MAX" using st(4) [OF e] by (simp add: s2 del: view_sched)
  show "legal (Call f)" using st(3) [OF e] assms(2) by (simp add: legal_def)
  have "rep_ok s" "a_inv (view K s)" "mangling_ok K" using assms(1) by (simp_all add: lib_inv_def)
  from wp_RetD [OF run_action_implements [OF this assms(2) st(3) [OF e], unfolded implements_def] r]
  show "\<not> gives_up (Call f) (view K s)" by blast
  assume m: "a_masked (view K s')"
  have "a_masked (a_next (Call f) (view K s))" using a m by (simp add: a_next_def del: view_sched)
  then have "f = Spawn 0 \<or> (\<exists>n \<le> 0. f = Sleep n) \<or> f = Get_tid" unfolding mask_next by auto
  with core_masked_done [OF assms(3)] show "\<exists>v. T = Done v" .
qed

lemma wp_resume_core:
  assumes j: "jumped K a e s"
    and R: "\<And>s'. rep_ok s' \<Longrightarrow> view K s' = snd (a_goes_on (a_dispatch a)) \<Longrightarrow>
      R (fst (a_goes_on (a_dispatch a))) s'"
    and E: "\<And>s'. \<not> sys_ok K \<Longrightarrow> E 1 s'"
  shows "wp R J E F (resume_core K e) s"
proof -
  have s: "rep_ok s" and e: "env_ok e" "resumable (point_at K e)"
    and v: "view K s = (a_dispatch a)\<lparr>a_masked := (SIGVTALRM \<in> saved_mask e)\<rparr>"
    and p: "point_at K e = a_point_of a (hd (a_ready a))"
    using j by (auto simp: jumped_def)
  have "a_point_of (a_dispatch a) (hd (a_ready a)) = point_at K e" unfolding p by simp
  then have ans: "fst (a_goes_on (a_dispatch a)) = answer_at (point_at K e)"
    and snd: "snd (a_goes_on (a_dispatch a)) = (view K s)\<lparr>a_masked := False\<rparr>"
    by (simp_all add: a_goes_on_def v del: view_sched)
  note R = R [unfolded ans snd]
  have go: "wp R J E F (bind_op (save_after K 1) (\<lambda>r. seq_op (g r) (ret w))) s"
    if "g 1 = ret ()" "answer_at (point_at K e) = w" for g w
    unfolding wp_bind_op by (rule wp_save_after_1 [OF s]) (use that R E in auto)
  show ?thesis
  proof (cases "jmpbuf e ! JB_PC")
    case (Stored w)
    then have "saved_mask e = {}" using e(1) by (simp add: env_ok_def)
    then have "R (Started (demangle K w)) s"
      using R [OF s] Stored v by (simp add: point_at_def)
    with Stored e(2) show ?thesis
      by (simp add: resume_core_def resumable_def point_at_def Let_def)
  next
    case (Saved site)
    with e(2) show ?thesis
      by (cases site) (auto simp: resume_core_def point_at_def resumable_def
        change_thread_after_def block_thread_after_def sleep_after_def
        simp del: wp_bind_op wp_seq_op intro!: go)
  qed
qed

lemma action_jump:
  assumes "lib_inv K s" and "well_typed act" and "run_action K act s = Jump e s1"
    and "resume_core K e s1 = Ret v s'"
  shows "lib_inv K s'" and "a_exec act (view K s) = (v, view K s')" and "legal act"
    and "gives_up act (view K s)" and "a_total (view K s') \<le> INT_MAX"
proof -
  have inv: "rep_ok s" "a_inv (view K s)" "mangling_ok K" using assms(1) by (simp_all add: lib_inv_def)
  have main: "act \<noteq> Call (Terminate 0)" using not_main [OF assms(1)] assms(3) by blast
  then show "legal act" using assms(2) by (simp add: legal_def)
  obtain b where b: "jumped K b e s1" "a_exec act (view K s) = a_goes_on (a_dispatch b)"
    and "gives_up act (view K s)"
    using wp_JumpD [OF run_action_implements [OF inv assms(2) main, unfolded implements_def] assms(3)]
    by blast
  then show "gives_up act (view K s)" by blast
  have s': "rep_ok s' \<and> a_exec act (view K s) = (v, view K s')"
    by (rule wp_RetD [OF wp_resume_core [OF b(1), where J = "\<lambda>_ _. True" and E = "\<lambda>_ _. True"
        and F = "\<lambda>_. True"] assms(4)])
      (simp_all add: b(2) prod_eq_iff)
  then show "a_exec act (view K s) = (v, view K s')" by blast
  show tot: "a_total (view K s') \<le> INT_MAX"
    using s' by (auto simp: view_fields rep_withD(8) simp del: view_sched elim!: rep_okE)
  have "a_inv (snd (a_exec act (view K s)))"
    by (rule a_inv_exec [OF inv(2) _ assms(2) main]) (use s' tot in simp)
  with s' inv(3) show "lib_inv K s'" by (simp add: lib_inv_def)
qed

lemma call_jump:
  "api_core K f s = Jump e s1 \<Longrightarrow> run_action K (Call f) s = Jump e s1"
  by (simp add: run_action_def run_api_core bind_op_def)

lemma timer_jump:
  "deliver_timer K s = Jump e s1 \<Longrightarrow> run_action K Tick s = Jump e s1"
  by (simp add: run_action_def comb_defs)

lemma timer_pending:
  assumes "lib_inv K s" and "deliver_timer K s = Ret () s'"
  shows "lib_inv K s'" and "view K s' = view K s" and "a_masked (view K s)"
proof -
  have inv: "rep_ok s" "a_inv (view K s)" "mangling_ok K" using assms(1) by (simp_all add: lib_inv_def)
  have "run_action K Tick s = Ret Continued s'" using assms(2) by (simp add: run_action_def comb_defs)
  from wp_RetD [OF run_action_implements [OF inv, of Tick, unfolded implements_def] this]
  have s': "rep_ok s'" "a_masked (view K s)" "a_tick (view K s) = (Continued, view K s')"
    by (auto simp del: view_sched)
  then show "view K s' = view K s" "a_masked (view K s)" by (simp_all add: a_tick_def del: view_sched)
  with s' inv show "lib_inv K s'" by (simp add: lib_inv_def)
qed

lemma finish_Ret:
  assumes "lib_inv K s" and "finish K T s = Ret v s'"
  shows "lib_inv K s'" and "v = tail_value T"
    and "view K s' = (view K s)\<lparr>a_masked := a_masked (view K s) \<and> T \<noteq> Reopen\<rparr>"
proof -
  have "rep_ok s' \<and> v = tail_value T \<and>
      view K s' = (view K s)\<lparr>a_masked := a_masked (view K s) \<and> T \<noteq> Reopen\<rparr>"
  proof (cases T)
    case Reopen
    have "rep_ok s" using assms(1) by (simp add: lib_inv_def)
    from wp_RetD [OF wp_unblock_ret [OF this, where K = K and v = 0
        and R = "\<lambda>v s'. rep_ok s' \<and> v = 0 \<and> view K s' = (view K s)\<lparr>a_masked := False\<rparr>"
        and J = "\<lambda>_ _. True" and E = "\<lambda>_ _. True" and F = "\<lambda>_. True"], of v s'] assms(2) Reopen
    show ?thesis by (simp add: finish_def)
  qed (use assms in \<open>auto simp: finish_def comb_defs handleErrorLibrary_def stderr_put_def handle_consts
      lib_inv_def\<close>)
  then show "v = tail_value T" "view K s' = (view K s)\<lparr>a_masked := a_masked (view K s) \<and> T \<noteq> Reopen\<rparr>"
    and "lib_inv K s'" using assms(1) by (auto simp: lib_inv_def)
qed

subsection \<open>What an action does to the saved contexts\<close>

lemma stays_running: "\<not> gives_up act a \<Longrightarrow> a_inv a \<Longrightarrow> a_running (a_next act a) = a_running a"
  using a_inv_running [of a]
  by (cases "(act, a)" rule: a_exec.cases)
    (auto simp: a_next_def a_tick_def a_spawn_def a_terminate_def a_block_def a_resume_def a_sleep_def
      a_get_quantums_def Let_def split: option.split State.split)

lemma gives_up_decides:
  assumes "gives_up act a" and "a_inv a" and "legal act"
  shows "a_total (a_next act a) = a_total a + 1" and "\<not> a_masked (a_next act a)"
    and "a_status (a_next act a) (a_running a) \<noteq> None \<Longrightarrow>
      a_point_of (a_next act a) (a_running a) = (if act = Tick then Preempted else In_call)"
proof -
  have st: "a_status a (a_running a) = Some RUNNNING" using a_inv_running [OF assms(2)] by blast
  then have th: "a_threads a (a_running a) \<noteq> None" by (rule status_SomeD)
  have upd: "a_point_of (a_update t f b) t = a_point (f (the (a_threads b t)))" if "a_threads b t \<noteq> None" for t f b
    using that by (auto simp: a_point_of_def a_update_def)
  show "a_total (a_next act a) = a_total a + 1" "\<not> a_masked (a_next act a)"
    using assms(1,3) st
    by (cases "(act, a)" rule: a_exec.cases; auto simp: a_next_def a_tick_def a_terminate_def a_block_def
      a_sleep_def Let_def legal_def)+
  assume ex: "a_status (a_next act a) (a_running a) \<noteq> None"
  show "a_point_of (a_next act a) (a_running a) = (if act = Tick then Preempted else In_call)"
    using assms(1) st th ex
    by (cases "(act, a)" rule: a_exec.cases)
      (auto simp: a_next_def a_tick_def a_terminate_def a_block_def a_sleep_def a_switch_def a_goes_on_def
        a_to_sleep_def a_leave_def upd Let_def simp del: status_switch)
qed

lemma point_next:
  assumes "a_inv a" and "u \<noteq> a_running a" and "a_status (a_next act a) u \<noteq> None"
  shows "if a_status a u = None then \<exists>ep. a_point_of (a_next act a) u = Entry ep
    else a_point_of (a_next act a) u = a_point_of a u"
proof (cases "(act, a)" rule: a_exec.cases)
  case 1
  with assms(2,3) show ?thesis
    by (auto simp: a_next_def a_tick_def a_goes_on_def split: if_splits)
next
  case (2 ep _)
  show ?thesis
  proof (cases "free_tid a")
    case (Some t)
    have "a_point_of (a_next act a) u = (if u = t then Entry ep else a_point_of a u)" if "ep \<noteq> 0"
      using 2 Some that by (simp add: a_next_def a_spawn_def a_return_def a_point_of_def)
    moreover have "a_status (a_next act a) u = (if u = t then Some READY else a_status a u)" if "ep \<noteq> 0"
      using 2 Some that by (simp add: a_next_def a_spawn_def a_return_def a_status_def)
    moreover have "a_status a t = None" using free_tid_Some(1) [OF Some] by (simp add: a_status_def)
    ultimately show ?thesis using 2 assms(3) by (cases "ep = 0") (auto simp: a_next_def a_spawn_def)
  qed (use 2 assms(3) in \<open>auto simp: a_next_def a_spawn_def a_return_def split: if_splits\<close>)
next
  case (3 tid _)
  have "a_point_of (a_forget t a) u = a_point_of a u" if "t \<noteq> u" for t
    using that by (simp add: a_point_of_def a_forget_def)
  with 3 assms(2,3) show ?thesis
    by (auto simp: a_next_def a_terminate_def a_return_def a_switch_def a_goes_on_def Let_def
      split: option.splits State.splits if_splits)
next
  case (4 tid _)
  have "a_point_of (a_update t (\<lambda>th. th\<lparr>a_state := x\<rparr>) b) u = a_point_of b u" for t x b
    by (auto simp: a_point_of_def a_update_def split: option.split)
  moreover have "a_point_of (a\<lparr>a_ready := q, a_blocked := b\<rparr>) u = a_point_of a u" for q b
    by (simp add: a_point_of_def)
  ultimately show ?thesis using 4 assms(2,3)
    by (auto simp: a_next_def a_block_def a_return_def a_switch_def a_goes_on_def Let_def
      split: option.splits State.splits if_splits)
next
  case (5 tid _)
  with assms(2,3) show ?thesis
    by (auto simp: a_next_def a_resume_def a_return_def Let_def split: option.splits State.splits if_splits)
next
  case (6 n _)
  with assms(2,3) show ?thesis
    by (auto simp: a_next_def a_sleep_def a_return_def a_switch_def a_goes_on_def split: if_splits)
qed (use assms in \<open>auto simp: a_next_def a_return_def a_get_quantums_def split: option.splits\<close>)

lemma status_kept:
  assumes "a_status a t \<noteq> None" and "\<And>tid. act = Call (Terminate tid) \<Longrightarrow> size_t_of_int tid \<noteq> t"
  shows "a_status (a_next act a) t \<noteq> None"
proof (cases "(act, a)" rule: a_exec.cases)
  case (2 ep _)
  with assms show ?thesis
    by (auto simp: a_next_def a_spawn_def split: option.split dest: free_tid_Some)
qed (use assms in \<open>auto simp: a_next_def a_tick_def a_terminate_def a_block_def a_resume_def a_sleep_def
    a_get_quantums_def Let_def split: option.split State.split\<close>)

end
