(* ===== verification/Interrupts.thy ===== *)
theory Interrupts
  imports Tails
begin

text \<open>
  The timer inside the library: the machine that interleaves the cores of the API calls, their
  tails, the returns of signal handlers and the expiries of the timer, with the stack of unfinished
  library code of every thread. Its runs are runs of the contract, in which every call is one step.
\<close>

subsection \<open>The machine\<close>

text \<open>
  The unfinished library code of a thread, innermost frame first: handlers that were resumed and
  have not returned, each with the mask of the code it interrupted, and at the bottom the tail of an
  API call. User code runs when there is no frame.
\<close>

datatype frame = Handler "signal set" | Api tail

record config =
  proc :: process
  frames :: "tid \<Rightarrow> frame list"

text \<open>What a step of the machine is to the outside.\<close>

datatype effect =
    Acts action answer   \<comment> \<open>the core of a call, or an expiry of the timer\<close>
  | Leaves               \<comment> \<open>a signal handler returns\<close>
  | Gives tid int        \<comment> \<open>an API call of the thread returns to user code\<close>

definition now :: "config \<Rightarrow> tid" where
  "now c = running_thread_tid (sched (proc c))"

text \<open>The stack of a thread that was terminated is out of reach.\<close>

definition settle :: "process \<Rightarrow> (tid \<Rightarrow> frame list) \<Rightarrow> config" where
  "settle s F = \<lparr>proc = s, frames = (\<lambda>t. if thr s t = None then [] else F t)\<rparr>"

inductive fine_step :: "platform \<Rightarrow> config \<Rightarrow> effect \<Rightarrow> config \<Rightarrow> bool" for K :: platform where
  call: "frames c (now c) = [] \<Longrightarrow> well_typed (Call f) \<Longrightarrow> api_core K f (proc c) = Ret T s' \<Longrightarrow>
    fine_step K c (Acts (Call f) (Returned (tail_value T)))
      (settle s' ((frames c)(now c := [Api T])))"
| call_switch: "frames c (now c) = [] \<Longrightarrow> well_typed (Call f) \<Longrightarrow>
    api_core K f (proc c) = Jump e s1 \<Longrightarrow> resume_core K e s1 = Ret v s' \<Longrightarrow>
    fine_step K c (Acts (Call f) v) (settle s' ((frames c)(now c := [Api Reopen])))"
| pending: "deliver_timer K (proc c) = Ret () s' \<Longrightarrow>
    fine_step K c (Acts Tick Continued) (settle s' (frames c))"
| expire: "deliver_timer K (proc c) = Jump e s1 \<Longrightarrow> resume_core K e s1 = Ret v s' \<Longrightarrow>
    fine_step K c (Acts Tick v)
      (settle s' ((frames c)(now c := Handler (sig_mask (proc c)) # frames c (now c))))"
| sigreturn: "frames c (now c) = Handler M # fs \<Longrightarrow>
    fine_step K c Leaves
      \<lparr>proc = (proc c)\<lparr>sig_mask := M\<rparr>, frames = (frames c)(now c := fs)\<rparr>"
| give: "frames c (now c) = Api T # fs \<Longrightarrow> finish K T (proc c) = Ret v s' \<Longrightarrow>
    fine_step K c (Gives (now c) v) \<lparr>proc = s', frames = (frames c)(now c := fs)\<rparr>"

inductive_cases fine_stepE: "fine_step K c eff c'"

definition fine_start :: "platform \<Rightarrow> int \<Rightarrow> config \<Rightarrow> bool" where
  "fine_start K q c \<longleftrightarrow> lib_start K q (proc c) \<and> frames c = (\<lambda>_. [])"

lemma fine_start_view:
  assumes "fine_start K q c"
  shows "lib_inv K (proc c)" and "view K (proc c) = a_init" and "frames c t = []"
  using assms by (auto simp: fine_start_def dest: lib_start_view(1,2))

subsection \<open>The stacks agree with the saved contexts\<close>

text \<open>The unfinished code of a thread that waits, by the point where its context continues.\<close>

fun matches :: "point \<Rightarrow> frame list \<Rightarrow> bool" where
  "matches (Entry pc) fs \<longleftrightarrow> fs = []"
| "matches Preempted fs \<longleftrightarrow> fs \<noteq> [] \<and> hd fs \<in> range Handler"
| "matches In_call fs \<longleftrightarrow> fs = [Api Reopen]"
| "matches Nowhere fs \<longleftrightarrow> False"

definition frames_ok :: "lib \<Rightarrow> (tid \<Rightarrow> frame list) \<Rightarrow> bool" where
  "frames_ok a F \<longleftrightarrow>
     (\<forall>t. a_status a t = None \<longrightarrow> F t = []) \<and>
     (\<forall>t. a_status a t \<noteq> None \<longrightarrow> t \<noteq> a_running a \<longrightarrow> matches (a_point_of a t) (F t)) \<and>
     (\<forall>t. set (butlast (F t)) \<subseteq> range Handler) \<and>
     (\<forall>t M. Handler M \<in> set (F t) \<longrightarrow> SIGVTALRM \<notin> M) \<and>
     (a_masked a \<longrightarrow> F (a_running a) \<in> insert [] (range (\<lambda>v. [Api (Done v)]))) \<and>
     (\<forall>t. int (length (F t)) \<le> a_total a)"

lemma frames_okD:
  assumes "frames_ok a F"
  shows "\<And>t. a_status a t = None \<Longrightarrow> F t = []"
    and "\<And>t. a_status a t \<noteq> None \<Longrightarrow> t \<noteq> a_running a \<Longrightarrow> matches (a_point_of a t) (F t)"
    and "\<And>t. set (butlast (F t)) \<subseteq> range Handler"
    and "\<And>t M. Handler M \<in> set (F t) \<Longrightarrow> SIGVTALRM \<notin> M"
    and "a_masked a \<Longrightarrow> F (a_running a) = [] \<or> (\<exists>v. F (a_running a) = [Api (Done v)])"
    and "\<And>t. int (length (F t)) \<le> a_total a"
  using assms unfolding frames_ok_def by blast+

definition live_frames :: "lib \<Rightarrow> (tid \<Rightarrow> frame list) \<Rightarrow> tid \<Rightarrow> frame list" where
  "live_frames a F t = (if a_status a t = None then [] else F t)"

text \<open>One action of the running thread, which leaves \<open>fs\<close> as its stack.\<close>

lemma frames_ok_action:
  assumes ok: "frames_ok a F" and inv: "a_inv a" and act: "legal act" and nx: "b = a_next act a"
    and handlers: "set (butlast fs) \<subseteq> range Handler" "\<And>M. Handler M \<in> set fs \<Longrightarrow> SIGVTALRM \<notin> M"
    and gone: "gives_up act a \<Longrightarrow> matches (if act = Tick then Preempted else In_call) fs"
    and mask: "\<not> gives_up act a \<Longrightarrow> a_masked b \<Longrightarrow> fs = [] \<or> (\<exists>v. fs = [Api (Done v)])"
    and len: "int (length fs) \<le> a_total b"
  shows "frames_ok b (live_frames b (F(a_running a := fs)))"
proof -
  note f = frames_okD [OF ok]
  let ?G = "live_frames b (F(a_running a := fs))"
  have tot: "a_total a \<le> a_total b" using total_step [of act a] by (auto simp: nx)
  have "matches (a_point_of b t) (?G t)" if "a_status b t \<noteq> None" "t \<noteq> a_running b" for t
  proof (cases "t = a_running a")
    case True
    then have "gives_up act a" using stays_running [OF _ inv, of act] that(2) nx by auto
    with gives_up_decides(3) [OF this inv act] gone that(1) True nx show ?thesis
      by (auto simp: live_frames_def)
  next
    case False
    have "?G t = F t" using that(1) False by (auto simp: live_frames_def)
    moreover have "if a_status a t = None then \<exists>ep. a_point_of b t = Entry ep
        else a_point_of b t = a_point_of a t"
      using point_next [OF inv False, of act] that(1) by (simp add: nx)
    ultimately show ?thesis using f(1) [of t] f(2) [of t] False by (auto split: if_splits)
  qed
  moreover have "?G (a_running b) = [] \<or> (\<exists>v. ?G (a_running b) = [Api (Done v)])" if "a_masked b"
  proof -
    have "\<not> gives_up act a" using gives_up_decides(2) [OF _ inv act] that nx by auto
    with mask stays_running [OF this inv] that nx show ?thesis by (auto simp: live_frames_def)
  qed
  moreover have "int (length (?G t)) \<le> a_total b" for t
    using f(6) [of t] len tot by (auto simp: live_frames_def)
  moreover have "set (butlast (?G t)) \<subseteq> range Handler" "\<And>M. Handler M \<in> set (?G t) \<Longrightarrow> SIGVTALRM \<notin> M" for t
    using f(3) [of t] f(4) [of _ t] handlers by (auto simp: live_frames_def split: if_splits)
  ultimately show ?thesis
    unfolding frames_ok_def by (simp add: live_frames_def image_iff)
qed

lemma frames_ok_pop:
  assumes ok: "frames_ok a F" and top: "F (a_running a) = fr # fs"
    and b: "b = a\<lparr>a_masked := m\<rparr>" "m \<longrightarrow> a_masked a"
  shows "frames_ok b (F(a_running a := fs))"
proof -
  note f = frames_okD [OF ok]
  have "set (butlast fs) \<subseteq> range Handler" using f(3) [of "a_running a"] top by (auto split: if_splits)
  moreover have "fs = []" if "a_masked a" using f(5) that top by auto
  moreover have "int (length fs) \<le> a_total a" using f(6) [of "a_running a"] top by simp
  moreover have "Handler M \<in> set fs \<Longrightarrow> SIGVTALRM \<notin> M" for M using f(4) [of M "a_running a"] top by simp
  moreover have "a_status a (a_running a) \<noteq> None" using f(1) [of "a_running a"] top by auto
  ultimately show ?thesis using f(1-4,6) b unfolding frames_ok_def by (auto simp del: butlast.simps)
qed

definition fine_inv :: "platform \<Rightarrow> config \<Rightarrow> bool" where
  "fine_inv K c \<longleftrightarrow> lib_inv K (proc c) \<and> frames_ok (view K (proc c)) (frames c)"

text \<open>The action of the contract that a step is, if it is one.\<close>

fun seen :: "effect \<Rightarrow> (action \<times> answer) option" where
  "seen (Acts act v) = Some (act, v)"
| "seen Leaves = None"
| "seen (Gives t v) = None"

lemma settle_frames: "frames (settle s F) = live_frames (view K s) F"
  by (simp add: settle_def live_frames_def state_of_def fun_eq_iff)

lemma settle_proc [simp]: "proc (settle s F) = s"
  by (simp add: settle_def)

lemma fine_start_inv: "fine_start K q c \<Longrightarrow> fine_inv K c"
  using fine_start_view [of K q c]
  by (auto simp: fine_inv_def frames_ok_def a_init_def a_status_def split: if_splits)

lemma now_view: "now c = a_running (view K (proc c))"
  by (simp add: now_def)

text \<open>A step that is an action of the contract.\<close>

lemma fine_act:
  assumes inv: "fine_inv K c" and s': "lib_inv K s'" "a_total (view K s') \<le> INT_MAX" and act: "legal act"
    and e: "a_exec act (view K (proc c)) = (v, view K s')"
    and fs: "set (butlast fs) \<subseteq> range Handler" "\<And>M. Handler M \<in> set fs \<Longrightarrow> SIGVTALRM \<notin> M"
      "gives_up act (view K (proc c)) \<Longrightarrow> matches (if act = Tick then Preempted else In_call) fs"
      "\<not> gives_up act (view K (proc c)) \<Longrightarrow> a_masked (view K s') \<Longrightarrow> fs = [] \<or> (\<exists>v. fs = [Api (Done v)])"
      "int (length fs) \<le> a_total (view K s')"
  shows "a_step (view K (proc c)) (act, v) (view K s') \<and>
    fine_inv K (settle s' ((frames c)(now c := fs)))"
proof -
  have core: "a_inv (view K (proc c))" and ok: "frames_ok (view K (proc c)) (frames c)"
    using inv by (simp_all add: fine_inv_def lib_inv_def)
  have nx: "view K s' = a_next act (view K (proc c))" using e by (simp add: a_next_def)
  have "a_step (view K (proc c)) (act, v) (view K s')"
    using act e s'(2) by (simp add: a_step_simps legal_def del: view_sched)
  moreover have "fine_inv K (settle s' ((frames c)(now c := fs)))"
    using frames_ok_action [OF ok core act nx fs] s'(1)
    unfolding fine_inv_def now_view [of c K] settle_frames [where K = K] settle_proc by blast
  ultimately show ?thesis ..
qed

lemma fine_step_view:
  assumes "fine_inv K c" and "fine_step K c eff c'"
  shows "fine_inv K c' \<and> (case seen eff of
      None \<Rightarrow> view K (proc c') = view K (proc c)
    | Some l \<Rightarrow> a_step (view K (proc c)) l (view K (proc c')))"
proof -
  have inv: "lib_inv K (proc c)" and ok: "frames_ok (view K (proc c)) (frames c)"
    using assms(1) by (simp_all add: fine_inv_def)
  have core: "a_inv (view K (proc c))" using inv by (simp add: lib_inv_def)
  note f = frames_okD [OF ok]
  have tot: "1 \<le> a_total (view K s)" if "lib_inv K s" for s
    using that a_core_total(1) by (auto simp: lib_inv_def a_inv_def simp del: view_sched)
  from assms(2) show ?thesis
  proof cases
    case (call f T s')
    note r = core_Ret [OF inv call(4,5)]
    have "a_step (view K (proc c)) (Call f, Returned (tail_value T)) (view K s') \<and>
      fine_inv K (settle s' ((frames c)(now c := [Api T])))"
      by (rule fine_act [OF assms(1) r(1,6,4,2)])
        (use r(3,5) tot [OF r(1)] in \<open>simp_all del: view_sched gives_up.simps\<close>)
    with call show ?thesis by simp
  next
    case (call_switch f e s1 v s')
    note r = action_jump [OF inv call_switch(4) call_jump [OF call_switch(5)] call_switch(6)]
    have "a_step (view K (proc c)) (Call f, v) (view K s') \<and>
      fine_inv K (settle s' ((frames c)(now c := [Api Reopen])))"
      by (rule fine_act [OF assms(1) r(1,5,3,2)])
        (use r(4) tot [OF r(1)] in \<open>simp_all del: view_sched gives_up.simps\<close>)
    with call_switch show ?thesis by simp
  next
    case (pending s')
    note r = timer_pending [OF inv pending(3)]
    have st: "thr s' t = None \<longleftrightarrow> a_status (view K s') t = None" for t by (simp add: state_of_def)
    have "frames (settle s' (frames c)) = frames c"
      using f(1) unfolding settle_frames [where K = K] r(2) by (auto simp: live_frames_def fun_eq_iff)
    with r ok have "fine_inv K (settle s' (frames c))" by (simp add: fine_inv_def del: view_sched)
    moreover have "a_step (view K (proc c)) (Tick, Continued) (view K s')"
      using r a_core_total(2) [OF core [unfolded a_inv_def]] by (simp add: a_step_simps a_tick_def del: view_sched)
    ultimately show ?thesis using pending by simp
  next
    case (expire e s1 v s')
    note r = action_jump [OF inv _ timer_jump [OF expire(3)] expire(4)]
    have unmasked: "SIGVTALRM \<notin> sig_mask (proc c)" using r(4) by simp
    let ?fs = "Handler (sig_mask (proc c)) # frames c (now c)"
    have "a_total (view K s') = a_total (view K (proc c)) + 1"
      using gives_up_decides(1) [OF r(4) core r(3)] r(2) by (simp add: a_next_def del: view_sched)
    then have len: "int (length ?fs) \<le> a_total (view K s')" using f(6) [of "now c"] by simp
    have "a_step (view K (proc c)) (Tick, v) (view K s') \<and>
      fine_inv K (settle s' ((frames c)(now c := ?fs)))"
      by (rule fine_act [OF assms(1) r(1,5,3,2) _ _ _ _ len])
        (use r(4) f(3) [of "now c"] f(4) [of _ "now c"] unmasked in \<open>auto simp del: view_sched\<close>)
    with expire show ?thesis by simp
  next
    case (sigreturn M fs)
    have m: "\<not> a_masked (view K (proc c))"
      using f(5) sigreturn(3) unfolding now_view [of c K] by auto
    have "SIGVTALRM \<notin> M" using f(4) [of M "now c"] sigreturn(3) by simp
    then have v: "view K ((proc c)\<lparr>sig_mask := M\<rparr>) = view K (proc c)" using m by simp
    have "frames_ok (view K (proc c)) ((frames c)(now c := fs))"
      unfolding now_view [of c K]
      by (rule frames_ok_pop [OF ok sigreturn(3) [unfolded now_view [of c K]], where m = "a_masked (view K (proc c))"])
        (simp_all del: view_sched)
    with sigreturn v inv show ?thesis by (simp add: fine_inv_def lib_inv_def del: view_sched view_cong)
  next
    case (give T fs v s')
    note r = finish_Ret [OF inv give(4)]
    have "T = Reopen \<Longrightarrow> \<not> a_masked (view K (proc c))"
      using f(5) give(3) unfolding now_view [of c K] by auto
    then have v: "view K s' = view K (proc c)" using r(3) by (cases "T = Reopen") (simp_all del: view_sched)
    have "frames_ok (view K (proc c)) ((frames c)(now c := fs))"
      unfolding now_view [of c K]
      by (rule frames_ok_pop [OF ok give(3) [unfolded now_view [of c K]], where m = "a_masked (view K (proc c))"])
        (simp_all del: view_sched)
    with give v r(1) show ?thesis by (simp add: fine_inv_def del: view_sched)
  qed
qed

subsection \<open>Runs of the machine are runs of the contract\<close>

inductive path :: "('s \<Rightarrow> 'l \<Rightarrow> 's \<Rightarrow> bool) \<Rightarrow> 's \<Rightarrow> 'l list \<Rightarrow> 's \<Rightarrow> bool"
  for step :: "'s \<Rightarrow> 'l \<Rightarrow> 's \<Rightarrow> bool" where
  stop: "path step s [] s"
| on: "step s l s1 \<Longrightarrow> path step s1 ls s' \<Longrightarrow> path step s (l # ls) s'"

inductive_cases path_NilE: "path step s [] s'"
inductive_cases path_ConsE: "path step s (l # ls) s'"

lemma path_Nil [simp]: "path step s [] s' \<longleftrightarrow> s' = s"
  by (auto elim: path_NilE intro: path.stop)

lemma path_Cons: "path step s (l # ls) s' \<longleftrightarrow> (\<exists>s1. step s l s1 \<and> path step s1 ls s')"
  by (auto elim: path_ConsE intro: path.on)

lemma path_append: "path step s (ls @ ms) s' \<longleftrightarrow> (\<exists>s1. path step s ls s1 \<and> path step s1 ms s')"
  by (induction ls arbitrary: s) (auto simp: path_Cons)

lemma path_reachable:
  "path step s ls s' \<Longrightarrow> reachable start step s \<Longrightarrow> reachable start step s'"
  by (induction rule: path.induct) (auto intro: reachable.more)

lemma map_filter_Cons: "List.map_filter f (l # ls) = List.map_filter f [l] @ List.map_filter f ls"
  by (simp add: List.map_filter_def)

text \<open>A simulation that may stutter: a step of which nothing is seen leaves the abstract state alone.\<close>

locale stuttering = conc: transition_system cstart cstep cinv
  for cstart :: "'c \<Rightarrow> bool" and cstep :: "'c \<Rightarrow> 'l \<Rightarrow> 'c \<Rightarrow> bool" and cinv :: "'c \<Rightarrow> bool" +
  fixes astart :: "'a \<Rightarrow> bool" and astep :: "'a \<Rightarrow> 'm \<Rightarrow> 'a \<Rightarrow> bool"
    and abs :: "'c \<Rightarrow> 'a" and obs :: "'l \<Rightarrow> 'm option"
  assumes abs_start: "cstart s \<Longrightarrow> astart (abs s)"
    and abs_step: "cinv s \<Longrightarrow> cstep s l s' \<Longrightarrow>
      (case obs l of None \<Rightarrow> abs s' = abs s | Some m \<Rightarrow> astep (abs s) m (abs s'))"
begin

lemma path_inv: "path cstep s ls s' \<Longrightarrow> cinv s \<Longrightarrow> cinv s'"
  by (induction rule: path.induct) (auto intro: conc.step_inv)

lemma abs_path: "path cstep s ls s' \<Longrightarrow> cinv s \<Longrightarrow> path astep (abs s) (List.map_filter obs ls) (abs s')"
proof (induction rule: path.induct)
  case (on s l s1 ls s')
  then have "path astep (abs s1) (List.map_filter obs ls) (abs s')" using conc.step_inv by blast
  with abs_step [OF on.prems on.hyps(1)] show ?case
    by (cases "obs l") (auto simp: path_Cons)
qed simp

lemma abs_reachable: "reachable cstart cstep s \<Longrightarrow> reachable astart astep (abs s)"
proof (induction rule: reachable.induct)
  case (first s)
  then show ?case by (intro reachable.first abs_start)
next
  case (more s l s')
  from abs_step [OF conc.reachable_inv [OF more.hyps(1)] more.hyps(2)] more.IH show ?case
    by (cases "obs l") (auto intro: reachable.more)
qed

end

interpretation fine: stuttering "fine_start K q" "fine_step K" "fine_inv K" a_start a_step
    "\<lambda>c. view K (proc c)" seen for K q
  using fine_step_view by unfold_locales (blast intro: fine_start_inv fine_start_view(2))+

abbreviation fine_reachable :: "platform \<Rightarrow> int \<Rightarrow> config \<Rightarrow> bool" where
  "fine_reachable K q c \<equiv> reachable (fine_start K q) (fine_step K) c"

lemma a_path_run: "path a_step a ls a' \<Longrightarrow> a_run (map fst ls) a = (map snd ls, a')"
proof (induction rule: path.induct)
  case (on s l s1 ls s')
  then show ?case by (cases l) (auto simp: a_step_simps)
qed simp

subsection \<open>The values that calls return\<close>

fun answer_value :: "answer \<Rightarrow> int" where
  "answer_value (Returned v) = v"
| "answer_value _ = 0"

text \<open>
  The value a call of the running thread will return, as the contract has it at the moment of the
  action: a thread that gives up the processor finds the value 0 when it goes on.
\<close>

fun promise :: "action \<Rightarrow> lib \<Rightarrow> int list" where
  "promise (Call f) a =
     [if gives_up (Call f) a then 0 else answer_value (fst (a_exec (Call f) a))]"
| "promise Tick a = []"

fun promised :: "tid \<Rightarrow> action list \<Rightarrow> lib \<Rightarrow> int list" where
  "promised t [] a = []"
| "promised t (act # acts) a =
     (if a_running a = t then promise act a else []) @ promised t acts (a_next act a)"

text \<open>What was returned to the user code of a thread, and the call it is still in.\<close>

fun given :: "tid \<Rightarrow> effect list \<Rightarrow> int list" where
  "given t [] = []"
| "given t (Gives u v # ls) = (if u = t then [v] else []) @ given t ls"
| "given t (_ # ls) = given t ls"

fun outstanding :: "frame list \<Rightarrow> int list" where
  "outstanding [] = []"
| "outstanding (Handler M # fs) = outstanding fs"
| "outstanding (Api T # fs) = tail_value T # outstanding fs"

fun kills :: "tid \<Rightarrow> effect \<Rightarrow> bool" where
  "kills t (Acts (Call (Terminate tid)) v) \<longleftrightarrow> size_t_of_int tid = t"
| "kills t _ \<longleftrightarrow> False"

lemma settled_frames:
  assumes inv: "fine_inv K c" and e: "a_exec act (view K (proc c)) = (v, view K s')"
    and alive: "\<not> kills t (Acts act v)"
  shows "frames (settle s' ((frames c)(now c := fs))) t = (if t = now c then fs else frames c t)"
proof -
  have core: "a_inv (view K (proc c))" and ok: "frames_ok (view K (proc c)) (frames c)"
    using inv by (simp_all add: fine_inv_def lib_inv_def)
  have "view K s' = a_next act (view K (proc c))" using e by (simp add: a_next_def)
  moreover have "a_status (view K (proc c)) (now c) \<noteq> None"
    using a_inv_running [OF core, of "now c"] unfolding now_view [of c K] by simp
  moreover have "act = Call (Terminate tid) \<Longrightarrow> size_t_of_int tid \<noteq> t" for tid using alive by auto
  ultimately show ?thesis
    using status_kept [of "view K (proc c)" t act] frames_okD(1) [OF ok, of t]
    unfolding settle_frames [where K = K] live_frames_def
    by (cases "a_status (view K (proc c)) t = None") (auto simp del: view_sched)
qed

lemma outstanding_step:
  assumes inv: "fine_inv K c" and step: "fine_step K c l c'" and alive: "\<not> kills t l"
  shows "outstanding (frames c t) @ promised t (map fst (List.map_filter seen [l])) (view K (proc c)) =
    given t [l] @ outstanding (frames c' t)"
proof -
  have lib: "lib_inv K (proc c)" and ok: "frames_ok (view K (proc c)) (frames c)"
    using inv by (simp_all add: fine_inv_def)
  note now = now_view [of c K, symmetric]
  from step show ?thesis
  proof cases
    case (call f T s')
    note r = core_Ret [OF lib call(4,5)]
    have "outstanding (frames c' t) = (if t = now c then [tail_value T] else outstanding (frames c t))"
      using settled_frames [OF inv r(2), of t "[Api T]"] alive call(1,2) by simp
    with call(1,3) r(2,5) show ?thesis by (simp add: now del: view_sched gives_up.simps a_exec.simps)
  next
    case (call_switch f e s1 v s')
    note r = action_jump [OF lib call_switch(4) call_jump [OF call_switch(5)] call_switch(6)]
    have "outstanding (frames c' t) = (if t = now c then [0] else outstanding (frames c t))"
      using settled_frames [OF inv r(2), of t "[Api Reopen]"] alive call_switch(1,2) by simp
    with call_switch(1,3) r(4) show ?thesis by (simp add: now del: view_sched gives_up.simps a_exec.simps)
  next
    case (pending s')
    note r = timer_pending [OF lib pending(3)]
    have "a_exec Tick (view K (proc c)) = (Continued, view K s')" using r(2,3) by (simp add: a_tick_def del: view_sched)
    from settled_frames [OF inv this, of t "frames c (now c)"] pending show ?thesis by simp
  next
    case (expire e s1 v s')
    note r = action_jump [OF lib _ timer_jump [OF expire(3)] expire(4)]
    have "outstanding (frames c' t) = outstanding (frames c t)"
      using settled_frames [OF inv r(2), of t "Handler (sig_mask (proc c)) # frames c (now c)"] expire(1,2) by simp
    with expire(1) show ?thesis by simp
  next
    case (give T fs v s')
    with finish_Ret(2) [OF lib give(4)] show ?thesis by (cases "t = now c") simp_all
  qed simp
qed

lemma promised_append:
  "promised t (xs @ ys) a = promised t xs a @ promised t ys (snd (a_run xs a))"
  by (induction xs arbitrary: a) (simp_all add: a_next_def del: a_run.simps(2))

lemma given_append: "given t (ls @ ms) = given t ls @ given t ms"
  by (induction t ls rule: given.induct) simp_all

lemma append_chain: "x @ p = g @ y \<Longrightarrow> y @ q = h @ z \<Longrightarrow> x @ p @ q = g @ h @ z"
  by (metis append_assoc)

text \<open>
  C4. The timer may expire anywhere outside the masked sections: on the machine that interleaves the
  cores of the API calls, what is left of them after their last \<open>unblock_signals\<close>, the returns
  of signal handlers and the expiries, the actions that are seen, in their order, are a run of the
  contract in which every call is one step, with the same answers and the same state at every
  moment; the state stays well formed, and the stack of unfinished calls of every waiting
  thread is the one its saved context continues in.
\<close>

theorem interrupted_calls_are_atomic:
  assumes "fine_start K q c0" and "path (fine_step K) c0 ls c"
  shows "a_run (map fst (List.map_filter seen ls)) a_init =
      (map snd (List.map_filter seen ls), view K (proc c)) \<and>
    reachable a_start a_step (view K (proc c)) \<and> lib_inv K (proc c) \<and>
    frames_ok (view K (proc c)) (frames c)"
proof -
  note inv = fine_start_inv [OF assms(1)] and v = fine_start_view(2) [OF assms(1)]
  have "a_run (map fst (List.map_filter seen ls)) a_init = (map snd (List.map_filter seen ls), view K (proc c))"
    using a_path_run [OF fine.abs_path [OF assms(2) inv]] v by simp
  moreover have "reachable a_start a_step (view K (proc c))"
    by (rule fine.abs_reachable) (rule path_reachable [OF assms(2) reachable.first [of "fine_start K q", OF assms(1)]])
  ultimately show ?thesis
    using fine.path_inv [OF assms(2) inv] by (simp add: fine_inv_def del: view_sched)
qed

text \<open>
  C12. A call returns the value it had when it took effect, no matter how often and where its return
  is interrupted and what the other threads do meanwhile: the values returned to a thread, in order,
  followed by the value of the call it is still in, are the values the contract gives its calls at
  their places in the sequence of actions (0 for a call that gave up the processor). The thread is
  not terminated meanwhile.
\<close>

theorem calls_return_what_they_computed:
  assumes "fine_start K q c0" and "path (fine_step K) c0 ls c" and "\<forall>l \<in> set ls. \<not> kills t l"
  shows "given t ls @ outstanding (frames c t) = promised t (map fst (List.map_filter seen ls)) a_init"
proof -
  have "outstanding (frames c0 t) @ promised t (map fst (List.map_filter seen ls)) (view K (proc c0)) =
      given t ls @ outstanding (frames c t)"
    using assms(2) fine_start_inv [OF assms(1)] assms(3)
  proof (induction rule: path.induct)
    case (on c l c1 ls c')
    have inv1: "fine_inv K c1" by (rule fine.conc.step_inv [OF on.prems(1) on.hyps(1)])
    let ?as = "map fst (List.map_filter seen [l])"
    have view: "view K (proc c1) = snd (a_run ?as (view K (proc c)))"
      using a_path_run [OF fine.abs_path [of K c "[l]" c1, OF _ on.prems(1)]] on.hyps(1)
      by (simp add: path_Cons del: view_sched)
    have a: "outstanding (frames c t) @ promised t ?as (view K (proc c)) = given t [l] @ outstanding (frames c1 t)"
      by (rule outstanding_step [OF on.prems(1) on.hyps(1)]) (use on.prems(2) in simp)
    have b: "outstanding (frames c1 t) @ promised t (map fst (List.map_filter seen ls)) (view K (proc c1)) =
        given t ls @ outstanding (frames c' t)"
      by (rule on.IH [OF inv1]) (use on.prems(2) in simp)
    have g: "given t (l # ls) = given t [l] @ given t ls" using given_append [of t "[l]" ls] by simp
    show ?case
      unfolding g map_filter_Cons [of seen l ls] map_append promised_append view [symmetric] append_assoc
      by (rule append_chain [OF a b])
  qed simp
  then show ?thesis using fine_start_view(2,3) [OF assms(1)] by simp
qed

end
