(* ===== verification/Nesting.thy ===== *)
theory Nesting
  imports Interrupts
begin

text \<open>
  Progress of the interruptible program: the calls come back.
\<close>

subsection \<open>Progress\<close>

lemma action_goes_on:
  assumes "lib_inv K s" and "sys_ok K" and "legal act" and "act_arith act (view K s)"
  obtains (Ret) v s' where "run_action K act s = Ret v s'"
    | (Jump) e s1 v s' where "run_action K act s = Jump e s1" and "resume_core K e s1 = Ret v s'"
proof -
  have inv: "rep_ok s" "a_inv (view K s)" "mangling_ok K" using assms(1) by (simp_all add: lib_inv_def)
  have act: "well_typed act" "act \<noteq> Call (Terminate 0)" using assms(3) by (simp_all add: legal_def)
  note i = run_action_implements [OF inv act, unfolded implements_def]
  show ?thesis
  proof (cases "run_action K act s")
    case (Jump e s1)
    then obtain b where b: "jumped K b e s1" using wp_JumpD [OF i] by blast
    have "wp (\<lambda>_ _. True) (\<lambda>_ _. False) (\<lambda>_ _. False) (\<lambda>_. False) (resume_core K e) s1"
      by (rule wp_resume_core [OF b]) (use assms(2) in simp_all)
    with that(2) [OF Jump] show ?thesis by (cases "resume_core K e s1") (simp_all add: wp_def)
  next
    case (Exit n s')
    then show ?thesis using wp_ExitD [OF i] assms(2) by blast
  next
    case (Fault u)
    then show ?thesis using wp_FaultD [OF i] assms(4) by blast
  qed (rule that(1))
qed

lemma finish_no_jump: "finish K T s \<noteq> Jump e s'"
  by (auto simp: finish_def handleErrorLibrary_def stderr_put_def unblock_signals_def sigprocmask_def
      do_syscall_def this_def handleErrorSystemCall_def comb_defs Let_def split: tail.splits outcome.splits option.splits if_splits)

lemma fine_act_possible:
  assumes "fine_inv K c" and "sys_ok K" and "legal act" and "act_arith act (view K (proc c))"
    and "act = Tick \<or> frames c (now c) = []"
  obtains c' where "fine_step K c (Acts act (fst (a_exec act (view K (proc c))))) c'"
    and "view K (proc c') = snd (a_exec act (view K (proc c)))" and "fine_inv K c'"
proof -
  have lib: "lib_inv K (proc c)" using assms(1) by (simp add: fine_inv_def)
  have wt: "well_typed act" using assms(3) by (simp add: legal_def)
  have "\<exists>v c'. fine_step K c (Acts act v) c'"
  proof (cases act)
    case Tick
    from lib assms(2-4) show ?thesis
    proof (cases rule: action_goes_on)
      case (Ret v s')
      then obtain s1 where "deliver_timer K (proc c) = Ret () s1"
        using Tick by (auto simp: run_action_def comb_defs split: outcome.splits)
      with Tick show ?thesis by (blast intro: fine_step.pending)
    next
      case (Jump e s1 v s')
      then have "deliver_timer K (proc c) = Jump e s1"
        using Tick by (auto simp: run_action_def comb_defs split: outcome.splits)
      with Jump Tick show ?thesis by (blast intro: fine_step.expire)
    qed
  next
    case (Call f)
    with assms(5) have user: "frames c (now c) = []" by simp
    from lib assms(2-4) show ?thesis
    proof (cases rule: action_goes_on)
      case (Ret v s')
      then obtain T s1 where "api_core K f (proc c) = Ret T s1"
        using Call by (auto simp: run_action_def run_api_core comb_defs split: outcome.splits)
      with Call wt user show ?thesis by (blast intro: fine_step.call)
    next
      case (Jump e s1 v s')
      then have "api_core K f (proc c) = Jump e s1"
        using Call finish_no_jump by (fastforce simp: run_action_def run_api_core comb_defs split: outcome.splits)
      with Jump Call wt user show ?thesis by (blast intro: fine_step.call_switch)
    qed
  qed
  then obtain v c' where step: "fine_step K c (Acts act v) c'" by blast
  from fine_step_view [OF assms(1) step] have "fine_inv K c'" "a_exec act (view K (proc c)) = (v, view K (proc c'))"
    by (auto simp: a_step_simps simp del: view_sched)
  with step that show ?thesis by simp
qed

lemma fine_pop_possible:
  assumes "fine_inv K c" and "sys_ok K" and "frames c (now c) = fr # fs"
  obtains l c' where "fine_step K c l c'" and "frames c' = (frames c)(now c := fs)" and "now c' = now c"
    and "seen l = None" and "given (now c) [l] = outstanding [fr]" and "fine_inv K c'"
proof (cases fr)
  case (Handler M)
  with assms(3) have "fine_step K c Leaves \<lparr>proc = (proc c)\<lparr>sig_mask := M\<rparr>, frames = (frames c)(now c := fs)\<rparr>"
    by (auto intro: fine_step.sigreturn)
  with Handler fine.conc.step_inv [OF assms(1) this] show ?thesis
    by (intro that) (auto simp: now_def sched_def)
next
  case (Api T)
  have lib: "lib_inv K (proc c)" using assms(1) by (simp add: fine_inv_def)
  have ok: "rep_ok (proc c)" using lib by (simp add: lib_inv_def)
  have "\<exists>v s'. finish K T (proc c) = Ret v s'"
  proof (cases T)
    case Reopen
    have "wp (\<lambda>_ _. True) (\<lambda>_ _. False) (\<lambda>_ _. False) (\<lambda>_. False) (finish K Reopen) (proc c)"
      unfolding finish_def by (simp only: tail.case, rule wp_unblock_ret [OF ok, where K = K])
        (use assms(2) in simp_all)
    then show ?thesis using Reopen by (cases "finish K Reopen (proc c)") (simp_all add: wp_def)
  qed (simp_all add: finish_def comb_defs handleErrorLibrary_def stderr_put_def)
  then obtain v s' where f: "finish K T (proc c) = Ret v s'" by blast
  note r = finish_Ret [OF lib f]
  let ?c = "\<lparr>proc = s', frames = (frames c)(now c := fs)\<rparr>"
  have step: "fine_step K c (Gives (now c) v) ?c" by (rule fine_step.give) (use assms(3) Api f in auto)
  have "now ?c = now c" unfolding now_view [of _ K] using r(3) by simp
  with step Api r(2) fine.conc.step_inv [OF assms(1) step] show ?thesis by (intro that) auto
qed

text \<open>Left alone by the timer, a thread gets back to user code.\<close>

lemma drain:
  assumes "fine_inv K c" and "sys_ok K"
  shows "\<exists>ls c'. path (fine_step K) c ls c' \<and> length ls = length (frames c (now c)) \<and>
      List.map_filter seen ls = [] \<and> now c' = now c \<and> frames c' = (frames c)(now c := []) \<and>
      given (now c) ls = outstanding (frames c (now c))"
  using assms(1)
proof (induction "frames c (now c)" arbitrary: c)
  case Nil
  then show ?case by (intro exI [of _ "[]"] exI [of _ c]) (auto simp: List.map_filter_def fun_eq_iff)
next
  case (Cons fr fs)
  obtain l c1 where l: "fine_step K c l c1" "frames c1 = (frames c)(now c := fs)" "now c1 = now c"
    "seen l = None" "given (now c) [l] = outstanding [fr]" "fine_inv K c1"
    using fine_pop_possible [OF Cons.prems assms(2) Cons.hyps(2) [symmetric]] .
  have "fs = frames c1 (now c1)" using l(2,3) by simp
  from Cons.hyps(1) [OF this l(6)] obtain ls c' where ls: "path (fine_step K) c1 ls c'"
    "length ls = length fs" "List.map_filter seen ls = []" "now c' = now c" "frames c' = (frames c1)(now c := [])"
    "given (now c) ls = outstanding fs"
    using \<open>fs = frames c1 (now c1)\<close> l(3) by auto
  have "given (now c) (l # ls) = outstanding (fr # fs)"
    using given_append [of "now c" "[l]" ls] l(5) ls(6) by (cases fr) simp_all
  moreover have "path (fine_step K) c (l # ls) c'" using l(1) ls(1) by (auto simp: path_Cons)
  moreover have "frames c' = (frames c)(now c := [])" using ls(5) l(2) by simp
  ultimately show ?case
    using ls(2-4) l(4) Cons.hyps(2) [symmetric] by (intro exI [of _ "l # ls"] exI [of _ c']) (simp add: List.map_filter_def)
qed

text \<open>
  C5. A call that took effect returns: wherever a thread was interrupted in the library, as soon as
  the timer leaves it alone it is back in user code after one step for every frame on its stack, a
  handler's return or the return of the call, and the value of the call is delivered. In user code
  every legal call can be made, and the timer can expire in every state, as long as no \<open>int\<close> is at
  its limit.
\<close>

theorem interrupted_calls_return:
  assumes "fine_reachable K q c" and "sys_ok K"
  shows "(\<exists>ls c'. path (fine_step K) c ls c' \<and> length ls = length (frames c (now c)) \<and>
      List.map_filter seen ls = [] \<and> now c' = now c \<and> frames c' = (frames c)(now c := []) \<and>
      given (now c) ls = outstanding (frames c (now c))) \<and>
    (\<forall>act. legal act \<longrightarrow> act_arith act (view K (proc c)) \<longrightarrow> act = Tick \<or> frames c (now c) = [] \<longrightarrow>
      (\<exists>c'. fine_step K c (Acts act (fst (a_exec act (view K (proc c))))) c'))"
proof -
  have inv: "fine_inv K c" using assms(1) by (rule fine.conc.reachable_inv)
  note drain [OF inv assms(2)]
  moreover have "\<exists>c'. fine_step K c (Acts act (fst (a_exec act (view K (proc c))))) c'"
    if "legal act" "act_arith act (view K (proc c))" "act = Tick \<or> frames c (now c) = []" for act
    using fine_act_possible [OF inv assms(2) that] by blast
  ultimately show ?thesis by blast
qed

text \<open>An expiry of the timer outside a handler's masked part pushes a handler.\<close>

lemma expire_pushes:
  assumes "fine_inv K c" and "fine_step K c (Acts Tick v) c'" and "gives_up Tick (view K (proc c))"
  shows "\<exists>M. frames c' = (frames c)(now c := Handler M # frames c (now c))"
  using assms(2)
proof cases
  case (pending s')
  have "lib_inv K (proc c)" using assms(1) by (simp add: fine_inv_def)
  from timer_pending(3) [OF this pending(3)] assms(3) show ?thesis by (simp del: view_sched)
next
  case (expire e s1 s')
  have lib: "lib_inv K (proc c)" using assms(1) by (simp add: fine_inv_def)
  note r = action_jump [OF lib _ timer_jump [OF expire(2)] expire(3)]
  have "frames c' t = ((frames c)(now c := Handler (sig_mask (proc c)) # frames c (now c))) t" for t
    using settled_frames [OF assms(1) r(2), of t "Handler (sig_mask (proc c)) # frames c (now c)"] expire(1) by simp
  then show ?thesis by blast
qed

subsection \<open>A run to try the properties on\<close>

text \<open>
  \<open>uthread_spawn\<close> is interrupted before it returns: thread 1 runs meanwhile, asks for its quantums
  and is interrupted before that call returns; the main thread leaves the handler and gets the tid.
\<close>

definition first_config :: config where
  "first_config = \<lparr>proc = first_state, frames = \<lambda>_. []\<rparr>"

lemma first_config_start: "fine_start good_platform 1000 first_config"
  by (simp add: fine_start_def first_config_def first_state)

lemma frames_other:
  assumes "fine_step K c l c'" and "t \<noteq> now c" and "frames c t = []"
  shows "frames c' t = []"
  using assms(1) by cases (use assms(2,3) in \<open>simp_all add: settle_def\<close>)

lemma unseen: "List.map_filter f ls = [] \<Longrightarrow> l \<in> set ls \<Longrightarrow> f l = None"
  unfolding List.map_filter_def map_is_Nil_conv filter_empty_conv by simp

lemma spawn_interrupted:
  obtains ls c where "path (fine_step good_platform) first_config ls c"
    and "map fst (List.map_filter seen ls) = [Call (Spawn 0x400), Tick, Call (Get_quantums 1), Tick]"
    and "frames c 0 = []" and "frames c 1 \<noteq> []" and "now c = 0" and "\<forall>t. \<forall>l \<in> set ls. \<not> kills t l"
proof -
  let ?K = good_platform
  let ?a1 = "snd (a_exec (Call (Spawn 0x400)) a_init)"
  let ?a2 = "snd (a_exec Tick ?a1)"
  let ?a3 = "snd (a_exec (Call (Get_quantums 1)) ?a2)"
  note start = first_config_start
  note inv0 = fine_start_inv [OF start] and v0 = fine_start_view(2) [OF start]
  have n0: "now first_config = 0" unfolding now_view [of _ ?K] v0 by (simp add: a_init_def)
  obtain c1 where c1: "fine_step ?K first_config (Acts (Call (Spawn 0x400)) (fst (a_exec (Call (Spawn 0x400)) a_init))) c1"
    "view ?K (proc c1) = ?a1" "fine_inv ?K c1"
    using fine_act_possible [OF inv0 sys_ok_good_platform, of "Call (Spawn 0x400)"] fine_start_view(3) [OF start]
    unfolding v0 by (auto simp: legal_def)
  have f1: "frames c1 1 = []" using frames_other [OF c1(1), of 1] n0 fine_start_view(3) [OF start] by simp
  have n1: "now c1 = 0" unfolding now_view [of _ ?K] c1(2) by (simp add: a_run_simps)
  obtain c2 where c2: "fine_step ?K c1 (Acts Tick (fst (a_exec Tick ?a1))) c2"
    "view ?K (proc c2) = ?a2" "fine_inv ?K c2"
    using fine_act_possible [OF c1(3) sys_ok_good_platform, of Tick] unfolding c1(2)
    by (auto simp: legal_def a_run_simps arith_ok_def in_int_def int_limits)
  have f2: "frames c2 1 = []" using frames_other [OF c2(1), of 1] n1 f1 by simp
  have n2: "now c2 = 1" unfolding now_view [of _ ?K] c2(2) by (simp add: a_run_simps)
  obtain c3 where c3: "fine_step ?K c2 (Acts (Call (Get_quantums 1)) (fst (a_exec (Call (Get_quantums 1)) ?a2))) c3"
    "view ?K (proc c3) = ?a3" "fine_inv ?K c3"
    using fine_act_possible [OF c2(3) sys_ok_good_platform, of "Call (Get_quantums 1)"] f2 n2 unfolding c2(2)
    by (auto simp: legal_def in_int_def int_limits)
  have n3: "now c3 = 1" unfolding now_view [of _ ?K] c3(2) by (simp add: a_run_simps)
  have g3: "gives_up Tick (view ?K (proc c3))" unfolding c3(2) by (simp add: a_run_simps)
  obtain c4 where c4: "fine_step ?K c3 (Acts Tick (fst (a_exec Tick ?a3))) c4"
    "view ?K (proc c4) = snd (a_exec Tick ?a3)" "fine_inv ?K c4"
    using fine_act_possible [OF c3(3) sys_ok_good_platform, of Tick] unfolding c3(2)
    by (auto simp: legal_def a_run_simps arith_ok_def in_int_def int_limits)
  have f4: "frames c4 1 \<noteq> []" using expire_pushes [OF c3(3) c4(1) g3] n3 by auto
  have n4: "now c4 = 0" unfolding now_view [of _ ?K] c4(2) by (simp add: a_run_simps)
  obtain ms c5 where d: "path (fine_step ?K) c4 ms c5" "List.map_filter seen ms = []" "now c5 = 0"
    "frames c5 = (frames c4)(0 := [])"
    using drain [OF c4(3) sys_ok_good_platform] n4 by auto
  let ?ls = "[Acts (Call (Spawn 0x400)) (fst (a_exec (Call (Spawn 0x400)) a_init)), Acts Tick (fst (a_exec Tick ?a1)),
    Acts (Call (Get_quantums 1)) (fst (a_exec (Call (Get_quantums 1)) ?a2)), Acts Tick (fst (a_exec Tick ?a3))]"
  have "path (fine_step ?K) first_config (?ls @ ms) c5"
    using c1(1) c2(1) c3(1) c4(1) d(1) by (auto simp: path_Cons path_append simp del: a_exec.simps)
  moreover have "map fst (List.map_filter seen (?ls @ ms)) = [Call (Spawn 0x400), Tick, Call (Get_quantums 1), Tick]"
    using d(2) by (simp add: List.map_filter_def)
  moreover have "\<not> kills t l" if "l \<in> set ms" for t l
    using unseen [OF d(2) that] by (cases l) simp_all
  ultimately show ?thesis using that [of "?ls @ ms" c5] d(3,4) f4 by auto
qed

theorem interrupted_calls_are_atomic_witness:
  "\<exists>ls c. path (fine_step good_platform) first_config ls c \<and>
     a_run [Call (Spawn 0x400), Tick, Call (Get_quantums 1), Tick] a_init =
       (map snd (List.map_filter seen ls), view good_platform (proc c)) \<and>
     frames_ok (view good_platform (proc c)) (frames c) \<and> frames c 1 \<noteq> []"
proof -
  obtain ls c where r: "path (fine_step good_platform) first_config ls c"
    "map fst (List.map_filter seen ls) = [Call (Spawn 0x400), Tick, Call (Get_quantums 1), Tick]" "frames c 1 \<noteq> []"
    by (rule spawn_interrupted)
  from interrupted_calls_are_atomic [OF first_config_start r(1)] r show ?thesis by metis
qed

theorem calls_return_what_they_computed_witness:
  "\<exists>ls c. path (fine_step good_platform) first_config ls c \<and> (\<forall>l \<in> set ls. \<not> kills 0 l) \<and>
     map fst (List.map_filter seen ls) = [Call (Spawn 0x400), Tick, Call (Get_quantums 1), Tick] \<and>
     given 0 ls = [1]"
proof -
  obtain ls c where r: "path (fine_step good_platform) first_config ls c"
    "map fst (List.map_filter seen ls) = [Call (Spawn 0x400), Tick, Call (Get_quantums 1), Tick]"
    "frames c 0 = []" "frames c 1 \<noteq> []" "now c = 0" "\<forall>t. \<forall>l \<in> set ls. \<not> kills t l"
    by (rule spawn_interrupted)
  have "promised 0 [Call (Spawn 0x400), Tick, Call (Get_quantums 1), Tick] a_init = [1]"
    by (simp add: a_next_def a_run_simps)
  with calls_return_what_they_computed [OF first_config_start r(1) spec [OF r(6)], of 0] r(1-3,6)
  show ?thesis by (intro exI [of _ ls] exI [of _ c]) simp
qed

theorem interrupted_calls_return_witness:
  "\<exists>c ls c'. fine_reachable good_platform 1000 c \<and> outstanding (frames c (now c)) = [1] \<and>
     path (fine_step good_platform) c ls c' \<and> given (now c) ls = [1] \<and> frames c' (now c') = []"
proof -
  note start = first_config_start
  note inv0 = fine_start_inv [OF start] and v0 = fine_start_view(2) [OF start]
  obtain c where c: "fine_step good_platform first_config
      (Acts (Call (Spawn 0x400)) (fst (a_exec (Call (Spawn 0x400)) a_init))) c"
    "view good_platform (proc c) = snd (a_exec (Call (Spawn 0x400)) a_init)"
    using fine_act_possible [OF inv0 sys_ok_good_platform, of "Call (Spawn 0x400)"] fine_start_view(3) [OF start]
    unfolding v0 by (auto simp: legal_def)
  have reach: "fine_reachable good_platform 1000 c"
    using c(1) by (rule reachable.more [OF reachable.first [of "fine_start good_platform 1000", OF start]])
  have n: "now c = 0" unfolding now_view [of _ good_platform] c(2) by (simp add: a_run_simps)
  have "outstanding (frames c 0) = [1]"
    using outstanding_step [OF inv0 c(1), of 0] fine_start_view(3) [OF start] unfolding v0
    by (simp add: a_run_simps List.map_filter_def)
  with interrupted_calls_return [OF reach sys_ok_good_platform] reach n show ?thesis by force
qed

end
