(* ===== verification/Scheduling.thy ===== *)
theory Scheduling
  imports Safety
begin

text \<open>
  What a thread can rely on while it does not run: the bound on the wait in the ready queue, the
  order in which the timer serves the queue, the time a sleeper sleeps, and that a blocked thread
  waits for \<open>uthread_resume\<close>.
\<close>

subsection \<open>The ready queue\<close>

text \<open>
  No starvation: if thread \<open>t\<close> is in the ready queue with \<open>k\<close> threads before it, and no
  action blocks or terminates \<open>t\<close>, then by the time more than \<open>k\<close> further quantums have started,
  whatever else the threads did (spawn, sleep, block, resume, terminate one another, be
  preempted), \<open>t\<close> has been the running thread.
\<close>

lemma no_starvation:
  assumes "lib_reachable K q s" and "\<forall>act \<in> set acts. well_typed act \<and> \<not> drops act t"
    and "exec_list K acts s = Ret vs s'" and "t \<in> set (ready_threads (sched s))"
    and "total_quantums (sched s) + int (ahead t (ready_threads (sched s))) < total_quantums (sched s')"
  shows "\<exists>i ws s1. i \<le> length acts \<and> exec_list K (take i acts) s = Ret ws s1 \<and>
    running_thread_tid (sched s1) = t"
proof -
  have wt: "\<forall>act \<in> set acts. well_typed act" and nd: "\<forall>act \<in> set acts. \<not> drops act t"
    using assms(2) by blast+
  note r = run_view [OF assms(1) wt assms(3)]
  have "\<exists>i \<le> length acts. a_running (fold a_next (take i acts) (view K s)) = t"
    by (rule rr.bounded_wait [OF _ nd]) (use assms(4,5) r(2) in \<open>simp_all flip: r(2)\<close>)
  then obtain i where i: "i \<le> length acts" "a_running (fold a_next (take i acts) (view K s)) = t" by blast
  obtain ws s1 where "exec_list K (take i acts) s = Ret ws s1"
    "view K s1 = fold a_next (take i acts) (view K s)"
    using assms(1) wt assms(3) by (rule run_prefix)
  with i show ?thesis using view_sched(4) [of K s1] by metis
qed

text \<open>
  Round robin: with the timer signal unblocked, \<open>k + 1\<close> timer signals in a row bring the
  thread at position \<open>k\<close> of the ready queue to the processor (on a platform whose system calls
  succeed, as long as no counter is at its limit).
\<close>

lemma timer_serves_in_order:
  assumes "lib_reachable K q s" and "sys_ok K" and "SIGVTALRM \<notin> sig_mask s"
    and "k < length (ready_threads (sched s))"
    and "bounded B n (view K s)" and "0 \<le> B" and "n + int k + B + 2 \<le> INT_MAX"
  shows "\<exists>vs s'. exec_list K (replicate (Suc k) Tick) s = Ret vs s' \<and>
    running_thread_tid (sched s') = ready_threads (sched s) ! k"
proof -
  have "\<exists>s'. exec_list K (replicate (Suc k) Tick) s = Ret (fst (a_run (replicate (Suc k) Tick) (view K s))) s' \<and>
    view K s' = snd (a_run (replicate (Suc k) Tick) (view K s)) \<and> lib_inv K s'"
    by (rule run_returns [OF reachable_lib_inv [OF assms(1)] assms(2,5)])
      (use assms(6,7) in \<open>auto simp del: replicate.simps\<close>)
  then obtain s' where e: "exec_list K (replicate (Suc k) Tick) s =
      Ret (fst (a_run (replicate (Suc k) Tick) (view K s))) s'"
    and v: "view K s' = fold a_next (replicate (Suc k) Tick) (view K s)"
    unfolding a_run_fold by blast
  have "a_running (view K s') = a_ready (view K s) ! k"
    unfolding v by (rule ticks_serve) (use assms(3,4) in simp_all)
  with e show ?thesis by auto
qed

subsection \<open>Sleeping\<close>

text \<open>
  C7. A sleeper does not run early: after \<open>uthread_sleep(n)\<close>, called when \<open>T\<close> quantums had
  started and \<open>T + n + 1\<close> is an \<open>int\<close>, the caller is neither running nor in the ready queue while no
  more than \<open>T + n\<close> quantums have started, whatever the other threads do (also if they block or
  resume it), unless they terminate it.
\<close>

theorem sleeper_not_early:
  assumes "lib_reachable K q s" and "\<forall>act \<in> set acts. well_typed act"
    and "exec_list K (Call (Sleep n) # acts) s = Ret vs s'"
    and "r = running_thread_tid (sched s)" and "r \<noteq> 0"
    and "0 < n" and "total_quantums (sched s) + n + 1 \<le> INT_MAX"
    and "\<forall>tid. Call (Terminate tid) \<in> set acts \<longrightarrow> size_t_of_int tid \<noteq> r"
    and "total_quantums (sched s') \<le> total_quantums (sched s) + n"
  shows "running_thread_tid (sched s') \<noteq> r \<and> r \<notin> set (ready_threads (sched s')) \<and>
    map_find (sleeping_threads (sched s')) r \<noteq> None"
proof -
  let ?a = "view K s" and ?b = "a_next (Call (Sleep n)) (view K s)"
  have inv: "a_inv ?a" using assms(1) by (rule reachable_core)
  note core = inv [unfolded a_inv_def]
  have tot: "1 \<le> total_quantums (sched s)" using a_core_total(1) [OF core] by simp
  have wt: "\<forall>act \<in> set (Call (Sleep n) # acts). well_typed act"
    using assms(2,6,7) tot by (simp add: in_int_def int_limits)
  note r = run_view [OF assms(1) wt assms(3)]
  note lg = run_legal [OF reachable_lib_inv [OF assms(1)] wt assms(3)]
  have sl: "map_find (a_sleeping ?b) r = Some (wake_value (total_quantums (sched s)) n)"
    "a_total ?b = total_quantums (sched s) + 1"
    using after_sleep [OF inv assms(6)] assms(4,5,7) by simp_all
  have v: "view K s' = fold a_next acts ?b" using r(2) by simp
  have fin: "a_total (fold a_next acts ?b) \<le> INT_MAX" using r(4) by (simp flip: v)
  have early: "a_total (fold a_next acts ?b) \<le> total_quantums (sched s) + n" using assms(9) by (simp flip: v)
  have "a_total ?b \<le> INT_MAX" using total_mono [of ?b acts] fin by simp
  then have binv: "a_inv ?b" using inv lg by (intro a_inv_next) simp_all
  have due: "due (wake_value (total_quantums (sched s)) n) t \<longleftrightarrow> total_quantums (sched s) + n \<le> t" for t
    using due_wake_value assms(6,7) tot by simp
  have "map_find (a_sleeping (fold a_next acts ?b)) r = Some (wake_value (total_quantums (sched s)) n)"
    by (rule sleeper_stays [OF binv _ sl(1) due assms(8) early fin]) (use lg in simp)
  then have f: "map_find (sleeping_threads (sched s')) r = Some (wake_value (total_quantums (sched s)) n)"
    by (simp flip: v)
  note c' = reachable_core [OF r(3), unfolded a_inv_def]
  have "state_of s' r \<noteq> Some RUNNNING" using a_core_sleep [OF c', of r] f by auto
  then show ?thesis
    using f a_core_ready [OF c', of r] a_inv_running [OF reachable_core [OF r(3)], of r] by auto
qed

lemma small_nap: "small (demo @ [Call (Sleep 2), Tick])" "small (demo @ [Call (Sleep 2), Tick, Tick])"
  by (rule small_demo_Cons; simp add: small_def legal_def in_int_def int_limits)+

theorem sleeper_not_early_witness:
  "running_thread_tid (sched (state_after (demo @ [Call (Sleep 2), Tick]))) \<noteq> 1 \<and>
   1 \<notin> set (ready_threads (sched (state_after (demo @ [Call (Sleep 2), Tick])))) \<and>
   map_find (sleeping_threads (sched (state_after (demo @ [Call (Sleep 2), Tick])))) 1 \<noteq> None"
proof -
  have tot: "total_quantums (sched (state_after (demo @ [Call (Sleep 2), Tick]))) = 4"
    unfolding view_sched [of good_platform, symmetric] small_run(2) [OF small_nap(1)]
    by (simp add: demo_def a_run_simps)
  show ?thesis
    by (rule sleeper_not_early [OF demo_reachable _ small_ext [OF small_nap(1)]])
      (simp_all add: demo_fields tot int_limits)
qed

text \<open>
  C8. A sleeper wakes in time: when the number of started quantums passes \<open>T + n\<close> (\<open>T\<close> quantums had
  started when it called \<open>uthread_sleep(n)\<close>), there is a moment with exactly \<open>T + n + 1\<close> started
  quantums at which the sleeper is back in the ready queue or is already running, unless it was
  blocked or terminated in between, or \<open>T + n + 1\<close> is not an \<open>int\<close>.
\<close>

theorem sleeper_wakes_in_time:
  assumes "lib_reachable K q s" and "\<forall>act \<in> set acts. well_typed act \<and> \<not> drops act r"
    and "exec_list K (Call (Sleep n) # acts) s = Ret vs s'"
    and "r = running_thread_tid (sched s)" and "r \<noteq> 0"
    and "0 < n" and "total_quantums (sched s) + n + 1 \<le> INT_MAX"
    and "total_quantums (sched s) + n < total_quantums (sched s')"
  shows "\<exists>i ws s1. i \<le> length acts \<and> exec_list K (Call (Sleep n) # take i acts) s = Ret ws s1 \<and>
    total_quantums (sched s1) = total_quantums (sched s) + n + 1 \<and>
    (r \<in> set (ready_threads (sched s1)) \<or> running_thread_tid (sched s1) = r)"
proof -
  let ?a = "view K s" and ?b = "a_next (Call (Sleep n)) (view K s)"
  let ?w = "total_quantums (sched s) + n"
  have inv: "a_inv ?a" using assms(1) by (rule reachable_core)
  note core = inv [unfolded a_inv_def]
  have tot: "1 \<le> total_quantums (sched s)" using a_core_total(1) [OF core] by simp
  have wt: "\<forall>act \<in> set (Call (Sleep n) # acts). well_typed act"
    using assms(2,6,7) tot by (simp add: in_int_def int_limits)
  have nd: "\<forall>act \<in> set acts. \<not> drops act r" using assms(2) by blast
  note r = run_view [OF assms(1) wt assms(3)]
  note lg = run_legal [OF reachable_lib_inv [OF assms(1)] wt assms(3)]
  have sl: "map_find (a_sleeping ?b) r = Some (wake_value (total_quantums (sched s)) n)"
    "a_total ?b = total_quantums (sched s) + 1" "a_status ?b r = Some READY"
    using after_sleep [OF inv assms(6)] assms(4,5,7) by simp_all
  have v: "view K s' = fold a_next acts ?b" using r(2) by simp
  have fin: "a_total (fold a_next acts ?b) \<le> INT_MAX" using r(4) by (simp flip: v)
  have late: "?w < a_total (fold a_next acts ?b)" using assms(8) by (simp flip: v)
  have "a_total ?b \<le> INT_MAX" using total_mono [of ?b acts] fin by simp
  then have binv: "a_inv ?b" using inv lg by (intro a_inv_next) simp_all
  have due: "due (wake_value (total_quantums (sched s)) n) t \<longleftrightarrow> ?w \<le> t" for t
    using due_wake_value assms(6,7) tot by simp
  have "\<exists>i \<le> length acts. a_total (fold a_next (take i acts) ?b) = ?w + 1 \<and>
      (r \<in> set (a_ready (fold a_next (take i acts) ?b)) \<or> a_running (fold a_next (take i acts) ?b) = r)"
    by (rule sleeper_wakes [OF binv _ sl(1) due sl(3) nd _ late fin]) (use lg sl(2) assms(6) in auto)
  then obtain i where i: "i \<le> length acts" "a_total (fold a_next (take i acts) ?b) = ?w + 1"
    "r \<in> set (a_ready (fold a_next (take i acts) ?b)) \<or> a_running (fold a_next (take i acts) ?b) = r"
    by blast
  obtain ws s1 where s1: "exec_list K (take (Suc i) (Call (Sleep n) # acts)) s = Ret ws s1"
    "view K s1 = fold a_next (take (Suc i) (Call (Sleep n) # acts)) ?a"
    using assms(1) wt assms(3) by (rule run_prefix)
  then have v1: "view K s1 = fold a_next (take i acts) ?b" by simp
  have "exec_list K (Call (Sleep n) # take i acts) s = Ret ws s1" using s1(1) by simp
  with i show ?thesis unfolding v1 [symmetric] view_sched by blast
qed

theorem sleeper_wakes_in_time_witness:
  "\<exists>i ws s1. i \<le> length [Tick, Tick] \<and>
    exec_list good_platform (Call (Sleep 2) # take i [Tick, Tick]) (state_after demo) = Ret ws s1 \<and>
    total_quantums (sched s1) = total_quantums (sched (state_after demo)) + 2 + 1 \<and>
    (1 \<in> set (ready_threads (sched s1)) \<or> running_thread_tid (sched s1) = 1)"
proof -
  have tot: "total_quantums (sched (state_after (demo @ [Call (Sleep 2), Tick, Tick]))) = 5"
    unfolding view_sched [of good_platform, symmetric] small_run(2) [OF small_nap(2)]
    by (simp add: demo_def a_run_simps)
  show ?thesis
    by (rule sleeper_wakes_in_time [OF demo_reachable _ small_ext [OF small_nap(2)]])
      (simp_all add: demo_fields tot int_limits)
qed

text \<open>
  C30. The limit of \<open>uthread_sleep\<close>: if the wake-up number \<open>T + n + 1\<close> is above \<open>2 ^ 31\<close>, the
  cast to \<open>int\<close> makes it negative, and a call that should sleep for years does not sleep at all:
  at the very next decision the caller is back in the ready queue (or keeps running).
\<close>

theorem long_sleep_wakes_at_once:
  assumes "lib_reachable K q s" and "exec K (Call (Sleep n)) s = Ret v s'"
    and "r = running_thread_tid (sched s)" and "r \<noteq> 0"
    and "0 < n" and "n \<le> INT_MAX" and "2 ^ 31 < total_quantums (sched s) + n + 1"
  shows "total_quantums (sched s') = total_quantums (sched s) + 1 \<and>
    map_find (sleeping_threads (sched s')) r = None \<and>
    (r \<in> set (ready_threads (sched s')) \<or> running_thread_tid (sched s') = r)"
proof -
  let ?a = "view K s" and ?v = "wake_value (total_quantums (sched s)) n"
  have wt: "well_typed (Call (Sleep n))" using assms(5,6) by (simp add: in_int_def int_limits)
  note st = step_view [OF assms(1) wt assms(2)]
  note inv = reachable_core [OF assms(1)] and inv' = reachable_core [OF st(3)]
  note core = inv [unfolded a_inv_def] and core' = inv' [unfolded a_inv_def]
  note ok = a_core_map_ok [OF core]
  have v': "view K s' = snd (a_switch (a_to_sleep n ?a))"
    using st(2) assms(3-5) by (simp add: a_next_def a_sleep_def)
  have "map_find (a_sleeping (a_to_sleep n ?a)) r = Some ?v" "map_ok (a_sleeping (a_to_sleep n ?a))"
    using std.ok_assign [OF ok] std.find_assign [OF ok] assms(3) by (simp_all add: a_to_sleep_def)
  moreover have "due ?v (total_quantums (sched s))"
    using a_core_total [OF core] assms(5-7) by (intro due_overflow) simp_all
  ultimately have "map_find (a_sleeping (view K s')) r = None"
    unfolding v' by (simp add: find_switch)
  then have none: "map_find (sleeping_threads (sched s')) r = None" by simp
  have "a_status ?a r = Some RUNNNING" using a_core_running [OF core] assms(3) by simp
  then have "a_status (view K s') r = Some READY \<or> a_status (view K s') r = Some RUNNNING"
    unfolding v' using assms(3) by auto
  then have "r \<in> set (ready_threads (sched s')) \<or> running_thread_tid (sched s') = r"
    using a_core_ready [OF core', of r] a_inv_running [OF inv', of r] none by auto
  moreover have "a_total (view K s') = total_quantums (sched s) + 1" unfolding v' by simp
  ultimately show ?thesis using none by simp
qed

theorem long_sleep_wakes_at_once_witness:
  "\<exists>v s'. exec good_platform (Call (Sleep INT_MAX)) (state_after demo) = Ret v s' \<and>
    total_quantums (sched s') = 3 \<and> 1 \<in> set (ready_threads (sched s')) \<union> {running_thread_tid (sched s')}"
proof -
  have arith: "act_arith (Call (Sleep INT_MAX)) (view good_platform (state_after demo))"
    unfolding small_run(2) [OF small_demo] by (simp add: demo_def a_run_simps arith_ok_def in_int_def int_limits)
  obtain v a where va: "a_exec (Call (Sleep INT_MAX)) (view good_platform (state_after demo)) = (v, a)" by force
  obtain s' where s': "exec good_platform (Call (Sleep INT_MAX)) (state_after demo) = Ret v s'"
    by (rule call_returns [OF demo_reachable sys_ok_good_platform _ arith va])
      (simp_all add: legal_def in_int_def int_limits)
  from long_sleep_wakes_at_once [OF demo_reachable s' refl] s' show ?thesis
    by (auto simp: demo_fields int_limits)
qed

subsection \<open>Blocking\<close>

text \<open>
  C10. A blocked thread waits for \<open>uthread_resume\<close>: as long as no action resumes or terminates it,
  it stays BLOCKED, outside the ready queue, and is never dispatched, even when its sleep ends.
\<close>

theorem blocked_until_resumed:
  assumes "lib_reachable K q s" and "\<forall>act \<in> set acts. well_typed act"
    and "exec_list K acts s = Ret vs s'" and "state_of s t = Some BLOCKED"
    and "\<forall>tid. Call (Resume tid) \<in> set acts \<or> Call (Terminate tid) \<in> set acts \<longrightarrow> size_t_of_int tid \<noteq> t"
  shows "state_of s' t = Some BLOCKED \<and> t \<in> blocked_threads (sched s') \<and>
    t \<notin> set (ready_threads (sched s')) \<and> running_thread_tid (sched s') \<noteq> t"
proof -
  note r = run_view [OF assms(1-3)]
  note core = reachable_core [OF r(3), unfolded a_inv_def]
  have "a_status (view K s') t = Some BLOCKED"
    unfolding r(2)
    by (rule blocked_run [OF reachable_core [OF assms(1)] run_legal [OF reachable_lib_inv [OF assms(1)] assms(2,3)]])
      (use assms(4,5) r(4) in \<open>simp_all flip: r(2)\<close>)
  then show ?thesis
    using a_core_blocked [OF core] a_core_ready [OF core, of t] a_inv_running [OF reachable_core [OF r(3)], of t]
    by auto
qed

lemma small_blocked: "small ((demo @ [Call (Block 2)]) @ [Tick, Tick])" "small (demo @ [Call (Block 2)])"
  by (auto simp: small_def demo_def legal_def in_int_def int_limits)

theorem blocked_until_resumed_witness:
  "state_of (state_after (demo @ [Call (Block 2)])) 2 = Some BLOCKED \<and>
   state_of (state_after ((demo @ [Call (Block 2)]) @ [Tick, Tick])) 2 = Some BLOCKED"
proof -
  have b: "state_of (state_after (demo @ [Call (Block 2)])) 2 = Some BLOCKED"
    unfolding view_sched [of good_platform, symmetric] small_run(2) [OF small_blocked(2)]
    by (simp add: demo_def a_run_simps)
  have "state_of (state_after ((demo @ [Call (Block 2)]) @ [Tick, Tick])) 2 = Some BLOCKED \<and>
      2 \<in> blocked_threads (sched (state_after ((demo @ [Call (Block 2)]) @ [Tick, Tick]))) \<and>
      2 \<notin> set (ready_threads (sched (state_after ((demo @ [Call (Block 2)]) @ [Tick, Tick])))) \<and>
      running_thread_tid (sched (state_after ((demo @ [Call (Block 2)]) @ [Tick, Tick]))) \<noteq> 2"
    by (rule blocked_until_resumed [OF small_run(4) [OF small_blocked(2)] _ small_ext [OF small_blocked(1)] b])
      simp_all
  with b show ?thesis by blast
qed

text \<open>
  C26. Blocking and resuming a thread of the ready queue (not a sleeper) is a round trip: both calls return 0, and all that has
  changed is that the thread is now last in the ready queue.
\<close>

theorem block_resume_roundtrip:
  assumes "lib_reachable K q s" and "sys_ok K" and "t \<noteq> 0" and "t \<in> set (ready_threads (sched s))"
  shows "\<exists>s'. exec_list K [Call (Block (int t)), Call (Resume (int t))] s = Ret [Returned 0, Returned 0] s' \<and>
    view K s' = (view K s)\<lparr>a_ready := filter (\<lambda>u. u \<noteq> t) (ready_threads (sched s)) @ [t], a_masked := False\<rparr>"
proof -
  let ?a = "view K s"
  note inv = reachable_core [OF assms(1)]
  note core = inv [unfolded a_inv_def]
  have st: "a_status ?a t = Some READY" "map_find (a_sleeping ?a) t = None"
    using a_core_ready [OF core, of t] assms(4) by simp_all
  have "int t < MAX_THREAD_NUM" using a_core_tid [OF core, of t] st by simp
  then have t: "size_t_of_int (int t) = t" "in_int (int t)"
    by (simp_all add: size_t_of_int_nonneg in_int_def int_limits MAX_THREAD_NUM_def)
  obtain th where th: "a_threads ?a t = Some th" "a_state th = READY"
    using st(1) unfolding a_status_def by auto
  have run: "t \<noteq> a_running ?a" using st a_inv_running [OF inv, of t] by auto
  have notin: "t \<notin> a_blocked ?a" using a_core_blocked [OF core] st(1) by auto
  let ?b = "(a_update t (\<lambda>th. th\<lparr>a_state := BLOCKED\<rparr>)
     (?a\<lparr>a_ready := filter (\<lambda>u. u \<noteq> t) (a_ready ?a), a_blocked := insert t (a_blocked ?a)\<rparr>))\<lparr>a_masked := False\<rparr>"
  have e1: "a_exec (Call (Block (int t))) ?a = (Returned 0, ?b)"
    using st t assms(3) by (simp add: a_block_def a_return_def Let_def del: view_sched)
  obtain s1 where s1: "exec K (Call (Block (int t))) s = Ret (Returned 0) s1" "view K s1 = ?b" "lib_reachable K q s1"
    by (rule call_returns [OF assms(1,2) _ _ e1]) (use t run assms(3) in \<open>auto simp: legal_def\<close>)
  have sb: "a_status ?b t = Some BLOCKED" using st by simp
  let ?c = "?a\<lparr>a_ready := filter (\<lambda>u. u \<noteq> t) (a_ready ?a) @ [t], a_masked := False\<rparr>"
  have upd: "(a_threads ?a)(t \<mapsto> th\<lparr>a_state := READY\<rparr>) = a_threads ?a" using th by (auto simp: fun_eq_iff)
  have e2: "a_exec (Call (Resume (int t))) (view K s1) = (Returned 0, ?c)"
    unfolding s1(2) using sb t st th notin upd
    by (simp add: a_resume_def a_return_def a_enqueue_def a_update_def Let_def del: view_sched)
  obtain s2 where s2: "exec K (Call (Resume (int t))) s1 = Ret (Returned 0) s2" "view K s2 = ?c"
    by (rule call_returns [OF s1(3) assms(2) _ _ e2]) (use t in \<open>auto simp: legal_def\<close>)
  show ?thesis
    using s1(1) s2 by (intro exI [of _ s2]) (simp add: exec_list_Cons ret_def del: exec_list.simps(2))
qed

theorem block_resume_roundtrip_witness:
  "\<exists>s'. exec_list good_platform [Call (Block (int 2)), Call (Resume (int 2))] (state_after demo) =
      Ret [Returned 0, Returned 0] s' \<and>
    view good_platform s' = (view good_platform (state_after demo))
      \<lparr>a_ready := filter (\<lambda>u. u \<noteq> 2) (ready_threads (sched (state_after demo))) @ [2], a_masked := False\<rparr>"
  by (rule block_resume_roundtrip [OF demo_reachable sys_ok_good_platform]) (simp_all add: demo_fields)

end
