(* ===== verification/Waits.thy ===== *)
theory Waits
  imports Nesting Scheduling
begin

text \<open>
  Waiting times when the timer also strikes inside the library: the bounds on the wait in the ready
  queue and on a sleep, for every run of the machine of \<open>Interrupts\<close>.
\<close>

subsection \<open>Runs and their prefixes\<close>

lemma a_path_legal: "path a_step a ls a' \<Longrightarrow> l \<in> set ls \<Longrightarrow> legal (fst l)"
  by (induction rule: path.induct) (auto simp: a_step_simps legal_def)

lemma fine_run:
  assumes "fine_inv K c" and "path (fine_step K) c ls c'"
  shows "view K (proc c') = fold a_next (map fst (List.map_filter seen ls)) (view K (proc c))"
    and "\<forall>act \<in> set (map fst (List.map_filter seen ls)). legal act"
    and "fine_inv K c'" and "a_inv (view K (proc c'))" and "a_total (view K (proc c')) \<le> INT_MAX"
proof -
  note p = fine.abs_path [OF assms(2,1)]
  show "view K (proc c') = fold a_next (map fst (List.map_filter seen ls)) (view K (proc c))"
    unfolding a_run_fold [symmetric] a_path_run [OF p] by simp
  show "\<forall>act \<in> set (map fst (List.map_filter seen ls)). legal act"
    using a_path_legal [OF p] by auto
  show inv: "fine_inv K c'" by (rule fine.path_inv [OF assms(2,1)])
  then show core: "a_inv (view K (proc c'))" by (simp add: fine_inv_def lib_inv_def)
  show "a_total (view K (proc c')) \<le> INT_MAX" by (rule a_core_total(2) [OF core [unfolded a_inv_def]])
qed

text \<open>Every prefix of the actions of a run is what is seen of a prefix of the run.\<close>

lemma take_seen:
  "i \<le> length (List.map_filter f ls) \<Longrightarrow> \<exists>k. List.map_filter f (take k ls) = take i (List.map_filter f ls)"
proof (induction ls arbitrary: i)
  case Nil
  then show ?case by (simp add: List.map_filter_def)
next
  case (Cons l ls)
  show ?case
  proof (cases i)
    case 0
    then show ?thesis by (intro exI [of _ 0]) (simp add: List.map_filter_def)
  next
    case (Suc j)
    show ?thesis
    proof (cases "f l")
      case None
      then obtain k where "List.map_filter f (take k ls) = take i (List.map_filter f ls)"
        using Cons by (auto simp: List.map_filter_def)
      with None show ?thesis by (intro exI [of _ "Suc k"]) (simp add: List.map_filter_def)
    next
      case (Some m)
      then have "j \<le> length (List.map_filter f ls)" using Cons.prems Suc by (simp add: List.map_filter_def)
      then obtain k where "List.map_filter f (take k ls) = take j (List.map_filter f ls)" using Cons.IH by blast
      with Some Suc show ?thesis by (intro exI [of _ "Suc k"]) (simp add: List.map_filter_def)
    qed
  qed
qed

lemma path_take: "path step s ls s' \<Longrightarrow> \<exists>s1. path step s (take k ls) s1"
  using path_append [of step s "take k ls" "drop k ls" s'] by auto

text \<open>A moment of the run of the contract is a moment of the interruptible run.\<close>

lemma fine_moment:
  assumes "fine_inv K c" and "path (fine_step K) c ls c'" and "i \<le> length (List.map_filter seen ls)"
  obtains k c1 where "path (fine_step K) c (take k ls) c1" and "fine_inv K c1"
    and "view K (proc c1) = fold a_next (take i (map fst (List.map_filter seen ls))) (view K (proc c))"
proof -
  obtain k where k: "List.map_filter seen (take k ls) = take i (List.map_filter seen ls)"
    using take_seen [OF assms(3)] by blast
  obtain c1 where c1: "path (fine_step K) c (take k ls) c1" using path_take [OF assms(2)] by blast
  note r = fine_run [OF assms(1) c1]
  show ?thesis by (rule that [OF c1 r(3)]) (use r(1) k in \<open>simp add: take_map del: view_sched\<close>)
qed

text \<open>Steps that neither block nor terminate a thread.\<close>

fun spares :: "tid \<Rightarrow> effect \<Rightarrow> bool" where
  "spares t (Acts act v) \<longleftrightarrow> \<not> drops act t"
| "spares t _ \<longleftrightarrow> True"

lemma spares_seen:
  assumes "\<forall>l \<in> set ls. spares t l"
  shows "\<forall>act \<in> set (map fst (List.map_filter seen ls)). \<not> drops act t"
proof -
  have "spares t l \<Longrightarrow> seen l = Some (act, v) \<Longrightarrow> \<not> drops act t" for l act v by (cases l) auto
  with assms show ?thesis by (auto simp: List.map_filter_def)
qed

subsection \<open>The ready queue\<close>

text \<open>
  C13. No starvation, wherever the timer strikes: a thread with \<open>k\<close> others before it in the ready queue,
  which no action blocks or terminates, is dispatched by the time more than \<open>k\<close> further quantums
  have started, also when threads are interrupted in the returns of their calls and in handlers
  that were resumed; and from there it is in user code after one step for every frame on its
  stack, if the timer leaves it alone for as long.
\<close>

theorem interrupted_waits_bounded:
  assumes "fine_reachable K q c" and "sys_ok K" and "path (fine_step K) c ls c'"
    and "\<forall>l \<in> set ls. spares t l" and "t \<in> set (ready_threads (sched (proc c)))"
    and "total_quantums (sched (proc c)) + int (ahead t (ready_threads (sched (proc c)))) <
      total_quantums (sched (proc c'))"
  shows "\<exists>k c1 ms c2. path (fine_step K) c (take k ls) c1 \<and> now c1 = t \<and>
    path (fine_step K) c1 ms c2 \<and> length ms = length (frames c1 t) \<and> now c2 = t \<and> frames c2 t = []"
proof -
  have inv: "fine_inv K c" by (rule fine.conc.reachable_inv [OF assms(1)])
  note r = fine_run [OF inv assms(3)]
  have "\<exists>i \<le> length (map fst (List.map_filter seen ls)).
      a_running (fold a_next (take i (map fst (List.map_filter seen ls))) (view K (proc c))) = t"
    by (rule rr.bounded_wait [OF _ spares_seen [OF assms(4)]]) (use assms(5,6) r(1) in \<open>simp_all flip: r(1)\<close>)
  then obtain i where i: "i \<le> length (List.map_filter seen ls)"
    "a_running (fold a_next (take i (map fst (List.map_filter seen ls))) (view K (proc c))) = t" by auto
  obtain k c1 where k: "path (fine_step K) c (take k ls) c1" "fine_inv K c1"
    "view K (proc c1) = fold a_next (take i (map fst (List.map_filter seen ls))) (view K (proc c))"
    by (rule fine_moment [OF inv assms(3) i(1)])
  have n: "now c1 = t" unfolding now_view [of c1 K] k(3) by (rule i(2))
  obtain ms c2 where "path (fine_step K) c1 ms c2" "length ms = length (frames c1 t)" "now c2 = t" "frames c2 t = []"
    using drain [OF k(2) assms(2)] unfolding n by auto
  with k(1) n show ?thesis by blast
qed

subsection \<open>Sleeping\<close>

text \<open>
  C14. A sleep is exact, wherever the timer strikes: thread \<open>t\<close> calls \<open>uthread_sleep(n)\<close> when \<open>T\<close>
  quantums have started, \<open>T + n + 1\<close> is an \<open>int\<close>, and no action blocks or terminates it. As long as no more than \<open>T + n\<close>
  quantums have started it is neither running nor in the ready queue; once more have started, there was
  a moment with exactly \<open>T + n + 1\<close> at which it was in the ready queue or running.
\<close>

theorem interrupted_sleep_exact:
  assumes "fine_reachable K q c" and "path (fine_step K) c (Acts (Call (Sleep n)) v # ls) c'"
    and "now c \<noteq> 0" and "0 < n" and "total_quantums (sched (proc c)) + n + 1 \<le> INT_MAX"
    and "\<forall>l \<in> set ls. spares (now c) l"
  shows "if total_quantums (sched (proc c')) \<le> total_quantums (sched (proc c)) + n
    then now c' \<noteq> now c \<and> now c \<notin> set (ready_threads (sched (proc c')))
    else \<exists>k c1. path (fine_step K) c (Acts (Call (Sleep n)) v # take k ls) c1 \<and>
      total_quantums (sched (proc c1)) = total_quantums (sched (proc c)) + n + 1 \<and>
      (now c \<in> set (ready_threads (sched (proc c1))) \<or> now c1 = now c)"
proof -
  let ?t = "now c" and ?T = "total_quantums (sched (proc c))" and ?acts = "map fst (List.map_filter seen ls)"
  have inv: "fine_inv K c" by (rule fine.conc.reachable_inv [OF assms(1)])
  then have core: "a_inv (view K (proc c))" by (simp add: fine_inv_def lib_inv_def)
  obtain c0 where c0: "fine_step K c (Acts (Call (Sleep n)) v) c0" "path (fine_step K) c0 ls c'"
    using assms(2) by (auto simp: path_Cons)
  have "path (fine_step K) c [Acts (Call (Sleep n)) v] c0" using c0(1) by (simp add: path_Cons)
  note r0 = fine_run [OF inv this]
  note r = fine_run [OF r0(3) c0(2)]
  have tot: "1 \<le> ?T" using a_core_total(1) [OF core [unfolded a_inv_def]] by simp
  have v0: "view K (proc c0) = a_next (Call (Sleep n)) (view K (proc c))"
    using r0(1) by (simp add: List.map_filter_def del: view_sched)
  have t: "a_running (view K (proc c)) = ?t" by (simp add: now_view [of c K])
  have sl: "map_find (a_sleeping (view K (proc c0))) ?t = Some (wake_value ?T n)"
    "a_total (view K (proc c0)) = ?T + 1" "a_status (view K (proc c0)) ?t = Some READY"
    using after_sleep [OF core assms(4)] assms(3,5) unfolding v0 t by simp_all
  have due: "due (wake_value ?T n) x \<longleftrightarrow> ?T + n \<le> x" for x
    using due_wake_value assms(4,5) tot by simp
  note nd = spares_seen [OF assms(6)]
  then have kept: "\<forall>tid. Call (Terminate tid) \<in> set ?acts \<longrightarrow> size_t_of_int tid \<noteq> ?t" by fastforce
  show ?thesis
  proof (cases "total_quantums (sched (proc c')) \<le> ?T + n")
    case True
    have "map_find (a_sleeping (fold a_next ?acts (view K (proc c0)))) ?t = Some (wake_value ?T n)"
      by (rule sleeper_stays [OF r0(4) r(2) sl(1) due kept]) (use True r(5) in \<open>simp_all flip: r(1)\<close>)
    then have f: "map_find (sleeping_threads (sched (proc c'))) ?t = Some (wake_value ?T n)" by (simp flip: r(1))
    note c' = r(4) [unfolded a_inv_def]
    have "state_of (proc c') ?t \<noteq> Some RUNNNING" using a_core_sleep [OF c', of ?t] f by auto
    then have "now c' \<noteq> ?t \<and> ?t \<notin> set (ready_threads (sched (proc c')))"
      using f a_core_ready [OF c', of ?t] a_inv_running [OF r(4), of ?t] by (auto simp: now_def)
    with True show ?thesis by simp
  next
    case False
    have "\<exists>i \<le> length ?acts. a_total (fold a_next (take i ?acts) (view K (proc c0))) = ?T + n + 1 \<and>
        (?t \<in> set (a_ready (fold a_next (take i ?acts) (view K (proc c0)))) \<or>
         a_running (fold a_next (take i ?acts) (view K (proc c0))) = ?t)"
      by (rule sleeper_wakes [OF r0(4) r(2) sl(1) due sl(3) nd])
        (use False r(5) sl(2) assms(4) in \<open>auto simp flip: r(1)\<close>)
    then obtain i where i: "i \<le> length (List.map_filter seen ls)"
      "a_total (fold a_next (take i ?acts) (view K (proc c0))) = ?T + n + 1"
      "?t \<in> set (a_ready (fold a_next (take i ?acts) (view K (proc c0)))) \<or>
        a_running (fold a_next (take i ?acts) (view K (proc c0))) = ?t" by auto
    obtain k c1 where k: "path (fine_step K) c0 (take k ls) c1" "fine_inv K c1"
      "view K (proc c1) = fold a_next (take i ?acts) (view K (proc c0))"
      by (rule fine_moment [OF r0(3) c0(2) i(1)])
    have "path (fine_step K) c (Acts (Call (Sleep n)) v # take k ls) c1" using c0(1) k(1) by (auto simp: path_Cons)
    with i(2,3) False show ?thesis unfolding k(3) [symmetric] by (auto simp: now_def)
  qed
qed

subsection \<open>A run to try the properties on\<close>

lemma fine_go:
  assumes "fine_reachable K q c" and "sys_ok K" and "legal act" and "act_arith act (view K (proc c))"
    and "act = Tick \<or> frames c (now c) = []"
  obtains c' where "fine_step K c (Acts act (fst (a_exec act (view K (proc c))))) c'"
    and "view K (proc c') = snd (a_exec act (view K (proc c)))" and "fine_reachable K q c'"
proof -
  obtain c' where c': "fine_step K c (Acts act (fst (a_exec act (view K (proc c))))) c'"
    "view K (proc c') = snd (a_exec act (view K (proc c)))"
    using fine_act_possible [OF fine.conc.reachable_inv [OF assms(1)] assms(2-5)] .
  show ?thesis by (rule that [OF c' reachable.more [OF assms(1) c'(1)]])
qed

text \<open>The main thread spawns thread 1 and is interrupted before the call returns.\<close>

abbreviation spawned :: lib where
  "spawned \<equiv> snd (a_exec (Call (Spawn 0x400)) a_init)"

abbreviation entered :: lib where
  "entered \<equiv> snd (a_exec Tick spawned)"

lemma spawned_config:
  obtains c1 v c2 where "fine_reachable good_platform 1000 c1" and "view good_platform (proc c1) = spawned"
    and "fine_step good_platform c1 (Acts Tick v) c2"
    and "fine_reachable good_platform 1000 c2" and "view good_platform (proc c2) = entered"
    and "now c2 = 1" and "frames c2 1 = []"
proof -
  let ?K = good_platform
  note start = first_config_start
  have reach: "fine_reachable ?K 1000 first_config"
    by (rule reachable.first [of "fine_start ?K 1000", OF start])
  note v0 = fine_start_view(2) [OF start]
  obtain c1 where c1: "fine_step ?K first_config (Acts (Call (Spawn 0x400)) (fst (a_exec (Call (Spawn 0x400)) a_init))) c1"
    "view ?K (proc c1) = spawned" "fine_reachable ?K 1000 c1"
    using fine_go [OF reach sys_ok_good_platform, of "Call (Spawn 0x400)"] fine_start_view(3) [OF start]
    unfolding v0 by (auto simp: legal_def)
  have n0: "now first_config = 0" unfolding now_view [of _ ?K] v0 by (simp add: a_init_def)
  have f1: "frames c1 1 = []" using frames_other [OF c1(1), of 1] n0 fine_start_view(3) [OF start] by simp
  have n1: "now c1 = 0" unfolding now_view [of _ ?K] c1(2) by (simp add: a_run_simps)
  obtain c2 where c2: "fine_step ?K c1 (Acts Tick (fst (a_exec Tick spawned))) c2"
    "view ?K (proc c2) = entered" "fine_reachable ?K 1000 c2"
    using fine_go [OF c1(3) sys_ok_good_platform, of Tick] unfolding c1(2)
    by (auto simp: legal_def a_run_simps arith_ok_def in_int_def int_limits)
  have "frames c2 1 = []" using frames_other [OF c2(1), of 1] n1 f1 by simp
  moreover have "now c2 = 1" unfolding now_view [of _ ?K] c2(2) by (simp add: a_run_simps)
  ultimately show ?thesis using that [OF c1(3,2) c2(1) c2(3,2)] by simp
qed

theorem interrupted_waits_bounded_witness:
  "\<exists>c c1 c2 ls ms. fine_reachable good_platform 1000 c \<and> now c = 0 \<and> path (fine_step good_platform) c ls c1 \<and>
     now c1 = 1 \<and> path (fine_step good_platform) c1 ms c2 \<and> now c2 = 1 \<and> frames c2 1 = []"
proof -
  obtain c1 v c2 where c: "fine_reachable good_platform 1000 c1" "view good_platform (proc c1) = spawned"
    "fine_step good_platform c1 (Acts Tick v) c2"
    "fine_reachable good_platform 1000 c2" "view good_platform (proc c2) = entered" "now c2 = 1" "frames c2 1 = []"
    by (rule spawned_config)
  have p: "path (fine_step good_platform) c1 [Acts Tick v] c2" using c(3) by (simp add: path_Cons)
  have n: "now c1 = 0" unfolding now_view [of _ good_platform] c(2) by (simp add: a_run_simps)
  have q: "1 \<in> set (ready_threads (sched (proc c1)))" "total_quantums (sched (proc c1)) = 1"
    "ahead 1 (ready_threads (sched (proc c1))) = 0" "total_quantums (sched (proc c2)) = 2"
    unfolding view_sched [of good_platform, symmetric] c(2,5) by (simp_all add: a_run_simps)
  from interrupted_waits_bounded [OF c(1) sys_ok_good_platform p, of 1] q c(1) n show ?thesis by auto
qed

theorem interrupted_sleep_exact_witness:
  "\<exists>c v c1 ls. fine_reachable good_platform 1000 c \<and> now c = 1 \<and>
     path (fine_step good_platform) c (Acts (Call (Sleep 2)) v # ls) c1 \<and>
     total_quantums (sched (proc c1)) = total_quantums (sched (proc c)) + 2 + 1 \<and>
     (1 \<in> set (ready_threads (sched (proc c1))) \<or> now c1 = 1)"
proof -
  let ?K = good_platform
  obtain c1 v c2 where c: "fine_reachable ?K 1000 c2" "view ?K (proc c2) = entered" "now c2 = 1" "frames c2 1 = []"
    by (rule spawned_config)
  let ?a = "snd (a_exec (Call (Sleep 2)) entered)"
  obtain c3 where c3: "fine_step ?K c2 (Acts (Call (Sleep 2)) (fst (a_exec (Call (Sleep 2)) entered))) c3"
    "view ?K (proc c3) = ?a" "fine_reachable ?K 1000 c3"
    using fine_go [OF c(1) sys_ok_good_platform, of "Call (Sleep 2)"] c(3,4) unfolding c(2)
    by (auto simp: legal_def a_run_simps arith_ok_def in_int_def int_limits)
  obtain c4 where c4: "fine_step ?K c3 (Acts Tick (fst (a_exec Tick ?a))) c4"
    "view ?K (proc c4) = snd (a_exec Tick ?a)" "fine_reachable ?K 1000 c4"
    using fine_go [OF c3(3) sys_ok_good_platform, of Tick] unfolding c3(2)
    by (auto simp: legal_def a_run_simps arith_ok_def in_int_def int_limits)
  obtain c5 where c5: "fine_step ?K c4 (Acts Tick (fst (a_exec Tick (snd (a_exec Tick ?a))))) c5"
    "view ?K (proc c5) = snd (a_exec Tick (snd (a_exec Tick ?a)))"
    using fine_go [OF c4(3) sys_ok_good_platform, of Tick] unfolding c4(2)
    by (auto simp: legal_def a_run_simps arith_ok_def in_int_def int_limits)
  have p: "path (fine_step ?K) c2 (Acts (Call (Sleep 2)) (fst (a_exec (Call (Sleep 2)) entered)) #
      [Acts Tick (fst (a_exec Tick ?a)), Acts Tick (fst (a_exec Tick (snd (a_exec Tick ?a))))]) c5"
    using c3(1) c4(1) c5(1) by (auto simp: path_Cons simp del: a_exec.simps)
  have tot: "total_quantums (sched (proc c2)) = 2" "total_quantums (sched (proc c5)) = 5"
    unfolding view_sched [of ?K, symmetric] c(2) c5(2) by (simp_all add: a_run_simps)
  have "now c2 \<noteq> 0" and "\<forall>l \<in> set [Acts Tick (fst (a_exec Tick ?a)), Acts Tick (fst (a_exec Tick (snd (a_exec Tick ?a))))].
      spares (now c2) l" using c(3) by simp_all
  from interrupted_sleep_exact [OF c(1) p this(1) _ _ this(2)]
  have "\<exists>ls d. path (fine_step ?K) c2 (Acts (Call (Sleep 2)) (fst (a_exec (Call (Sleep 2)) entered)) # ls) d \<and>
      total_quantums (sched (proc d)) = total_quantums (sched (proc c2)) + 2 + 1 \<and>
      (1 \<in> set (ready_threads (sched (proc d))) \<or> now d = 1)"
    unfolding tot c(3) by (simp add: int_limits del: a_exec.simps) blast
  with c(1,3) show ?thesis by blast
qed

end
