(* ===== verification/Traces.thy ===== *)
theory Traces
  imports Nesting
begin

text \<open>
  The machine of theory \<open>Uthreads\<close>, where every action is one step, and the machine of theory
  \<open>Interrupts\<close>, where the timer can strike inside the library, have the same runs.
\<close>

subsection \<open>One action\<close>

text \<open>An action of the interruptible machine is made only where it does not overflow.\<close>

lemma fine_act_arith:
  assumes "fine_inv K c" and "fine_step K c (Acts act v) c'"
  shows "act_arith act (view K (proc c))"
proof -
  have lib: "lib_inv K (proc c)" using assms(1) by (simp add: fine_inv_def)
  have inv: "rep_ok (proc c)" "a_inv (view K (proc c))" "mangling_ok K" using lib by (simp_all add: lib_inv_def)
  have jump: "act_arith act (view K (proc c))"
    if "well_typed act" "run_action K act (proc c) = Jump e s1" for e s1
  proof -
    have "act \<noteq> Call (Terminate 0)" using not_main [OF lib] that(2) by blast
    from wp_JumpD [OF run_action_implements [OF inv that(1) this, unfolded implements_def] that(2)]
    show ?thesis by blast
  qed
  from assms(2) show ?thesis
  proof cases
    case (call f T s')
    from act_arith_stay [OF core_Ret(5) [OF lib call(5,6)]] call(1) show ?thesis by simp
  next
    case (call_switch f e s1 s')
    from jump [OF _ call_jump [OF call_switch(5), folded call_switch(1)]] call_switch show ?thesis by simp
  next
    case (pending s')
    with timer_pending(3) [OF lib pending(4)] show ?thesis by (simp add: act_arith_stay)
  next
    case (expire e s1 s')
    from jump [OF _ timer_jump [OF expire(3), folded expire(1)]] expire show ?thesis by simp
  qed
qed

lemma exec_like_fine:
  assumes "fine_inv K c" and "sys_ok K" and "fine_step K c (Acts act v) c'"
    and "lib_inv K s" and "view K s = view K (proc c)"
  obtains s' where "exec K act s = Ret v s'" and "view K s' = view K (proc c')" and "lib_inv K s'"
    and "well_typed act"
proof -
  have a: "a_exec act (view K s) = (v, view K (proc c'))" and l: "legal act"
    using fine_step_view [OF assms(1,3)] by (auto simp: assms(5) a_step_simps legal_def simp del: view_sched)
  have wt: "well_typed act" "act \<noteq> Call (Terminate 0)" using l by (simp_all add: legal_def)
  have "act_arith act (view K s)" unfolding assms(5) by (rule fine_act_arith [OF assms(1,3)])
  from exec_returns [OF assms(4,2) wt this] obtain s' where "exec K act s = Ret (fst (a_exec act (view K s))) s'"
    "view K s' = snd (a_exec act (view K s))" "lib_inv K s'" .
  with a wt show ?thesis by (intro that) simp_all
qed

lemma fine_like_exec:
  assumes "lib_inv K s" and "well_typed act" and "exec K act s = Ret v s'"
    and "sys_ok K" and "fine_inv K c" and "frames c (now c) = []" and "view K (proc c) = view K s"
  obtains ls c' where "path (fine_step K) c ls c'" and "List.map_filter seen ls = [(act, v)]"
    and "view K (proc c') = view K s'" and "fine_inv K c'" and "frames c' (now c') = []"
proof -
  note e = exec_step [OF assms(1-3)]
  have l: "legal act" using assms(2) e(3) by (simp add: legal_def)
  have ar: "act_arith act (view K (proc c))" using e(5) by (simp only: assms(7))
  obtain c1 where c1: "fine_step K c (Acts act v) c1" "view K (proc c1) = view K s'" "fine_inv K c1"
    using fine_act_possible [OF assms(5,4) l ar] e(2) assms(6,7) by (metis fst_conv snd_conv)
  obtain ms c2 where m: "path (fine_step K) c1 ms c2" "List.map_filter seen ms = []" "now c2 = now c1"
    "frames c2 = (frames c1)(now c1 := [])"
    using drain [OF c1(3) assms(4)] by blast
  have "view K (proc c2) = view K (proc c1)"
    using a_path_run [OF fine.abs_path [OF m(1) c1(3)]] m(2) by simp
  moreover have "path (fine_step K) c (Acts act v # ms) c2" using c1(1) m(1) by (auto simp: path_Cons)
  moreover have "List.map_filter seen (Acts act v # ms) = [(act, v)]" using m(2) by (simp add: List.map_filter_def)
  moreover have "fine_inv K c2" by (rule fine.path_inv [OF m(1) c1(3)])
  ultimately show ?thesis using that c1(2) m(3,4) by (metis fun_upd_same)
qed

subsection \<open>Runs\<close>

lemma run_like_fine:
  assumes "path (fine_step K) c ls c'" and "sys_ok K" and "fine_inv K c"
    and "lib_inv K s" and "view K s = view K (proc c)"
  shows "\<exists>s'. exec_list K (map fst (List.map_filter seen ls)) s = Ret (map snd (List.map_filter seen ls)) s' \<and>
    view K s' = view K (proc c') \<and> (\<forall>act \<in> set (map fst (List.map_filter seen ls)). well_typed act)"
  using assms(1,3-5)
proof (induction arbitrary: s rule: path.induct)
  case (stop c)
  then show ?case by (simp add: List.map_filter_def ret_def)
next
  case (on c l c1 ls c')
  have inv1: "fine_inv K c1" by (rule fine.conc.step_inv [OF on.prems(1) on.hyps(1)])
  show ?case
  proof (cases "seen l")
    case None
    then have "view K (proc c1) = view K (proc c)" using fine_step_view [OF on.prems(1) on.hyps(1)] by simp
    with on.IH [OF inv1 on.prems(2)] on.prems(3) None show ?thesis
      by (simp add: List.map_filter_def del: view_sched)
  next
    case (Some m)
    then obtain act v where l: "l = Acts act v" "m = (act, v)" by (cases l) auto
    obtain s1 where s1: "exec K act s = Ret v s1" "view K s1 = view K (proc c1)" "lib_inv K s1" "well_typed act"
      using exec_like_fine [OF on.prems(1) assms(2) on.hyps(1) [unfolded l(1)] on.prems(2,3)] .
    from on.IH [OF inv1 s1(3,2)] obtain s' where
      "exec_list K (map fst (List.map_filter seen ls)) s1 = Ret (map snd (List.map_filter seen ls)) s'"
      "view K s' = view K (proc c')" "\<forall>act \<in> set (map fst (List.map_filter seen ls)). well_typed act" by blast
    with s1 l show ?thesis
      by (intro exI [of _ s']) (simp add: List.map_filter_def exec_list_Cons del: exec_list.simps view_sched)
  qed
qed

lemma fine_like_run:
  assumes "\<forall>act \<in> set acts. well_typed act" and "exec_list K acts s = Ret vs s'" and "lib_inv K s"
    and "sys_ok K" and "fine_inv K c" and "frames c (now c) = []" and "view K (proc c) = view K s"
  shows "\<exists>ls c'. path (fine_step K) c ls c' \<and> List.map_filter seen ls = zip acts vs \<and> length vs = length acts \<and>
    view K (proc c') = view K s' \<and> frames c' (now c') = []"
  using assms(1-3,5-7)
proof (induction acts arbitrary: s vs c)
  case Nil
  then show ?case by (intro exI [of _ "[]"] exI [of _ c]) (simp add: List.map_filter_def ret_def)
next
  case (Cons act acts)
  obtain v s1 ws where e: "exec K act s = Ret v s1" "exec_list K acts s1 = Ret ws s'" "vs = v # ws"
    using Cons.prems(2) by (auto simp only: exec_list_Cons)
  have wt: "well_typed act" using Cons.prems(1) by simp
  note st = exec_step [OF Cons.prems(3) wt e(1)]
  obtain ls c1 where c1: "path (fine_step K) c ls c1" "List.map_filter seen ls = [(act, v)]"
    "view K (proc c1) = view K s1" "fine_inv K c1" "frames c1 (now c1) = []"
    using fine_like_exec [OF Cons.prems(3) wt e(1) assms(4) Cons.prems(4-6)] .
  obtain ms c' where m: "path (fine_step K) c1 ms c'" "List.map_filter seen ms = zip acts ws"
    "length ws = length acts" "view K (proc c') = view K s'" "frames c' (now c') = []"
    using Cons.IH [OF _ e(2) st(1) c1(4,5,3)] Cons.prems(1) by auto
  have "path (fine_step K) c (ls @ ms) c'" using c1(1) m(1) by (auto simp: path_append)
  moreover have "List.map_filter seen (ls @ ms) = zip (act # acts) (v # ws)"
    using c1(2) m(2) by (simp add: List.map_filter_def)
  ultimately show ?case using m(3-5) e(3) by (intro exI [of _ "ls @ ms"] exI [of _ c']) simp
qed

text \<open>
  C6. The two machines have the same runs. What is seen of a run of the interruptible machine, actions and
  answers in their order, is a run of the machine in which every action is one step, with the same
  final state for the contract; and every run of that machine is what is seen of an interruptible
  run, which ends in user code. So nothing that is proved of one of them about actions, answers and
  states is lost in the other.
\<close>

theorem machines_agree:
  assumes "fine_start K q c0" and "sys_ok K"
  shows "(\<exists>ls c. path (fine_step K) c0 ls c \<and> List.map_filter seen ls = tr \<and> view K (proc c) = a) \<longleftrightarrow>
    list_all well_typed (map fst tr) \<and>
    (\<exists>s. exec_list K (map fst tr) (proc c0) = Ret (map snd tr) s \<and> view K s = a)"
proof
  note inv = fine_start_inv [OF assms(1)] and v = fine_start_view [OF assms(1)]
  show "list_all well_typed (map fst tr) \<and>
    (\<exists>s. exec_list K (map fst tr) (proc c0) = Ret (map snd tr) s \<and> view K s = a)"
    if "\<exists>ls c. path (fine_step K) c0 ls c \<and> List.map_filter seen ls = tr \<and> view K (proc c) = a"
    using that run_like_fine [OF _ assms(2) inv v(1) refl] by (fastforce simp: list_all_iff)
  assume "list_all well_typed (map fst tr) \<and>
    (\<exists>s. exec_list K (map fst tr) (proc c0) = Ret (map snd tr) s \<and> view K s = a)"
  then obtain s where s: "\<forall>act \<in> set (map fst tr). well_typed act"
    "exec_list K (map fst tr) (proc c0) = Ret (map snd tr) s" "view K s = a" by (auto simp: list_all_iff)
  from fine_like_run [OF s(1,2) v(1) assms(2) inv v(3) refl] s(3)
  show "\<exists>ls c. path (fine_step K) c0 ls c \<and> List.map_filter seen ls = tr \<and> view K (proc c) = a"
    by (auto simp: zip_map_fst_snd)
qed

theorem machines_agree_witness:
  "\<exists>ls c. path (fine_step good_platform) first_config ls c \<and>
     List.map_filter seen ls = [(Call (Spawn 0x400), Returned 1), (Tick, Started 0x400)]"
proof -
  have sm: "small [Call (Spawn 0x400), Tick]" by (simp add: small_def legal_def)
  have "fst (a_run [Call (Spawn 0x400), Tick] a_init) = [Returned 1, Started 0x400]" by (simp add: a_run_simps)
  then have "exec_list good_platform [Call (Spawn 0x400), Tick] (proc first_config) =
      Ret [Returned 1, Started 0x400] (state_after [Call (Spawn 0x400), Tick])"
    using small_run(1) [OF sm] by (simp add: first_config_def del: exec_list.simps a_run.simps)
  then have "\<exists>s. exec_list good_platform [Call (Spawn 0x400), Tick] (proc first_config) =
      Ret [Returned 1, Started 0x400] s \<and> view good_platform s =
        view good_platform (state_after [Call (Spawn 0x400), Tick])" by blast
  with machines_agree [OF first_config_start sys_ok_good_platform,
      of "[(Call (Spawn 0x400), Returned 1), (Tick, Started 0x400)]"
        "view good_platform (state_after [Call (Spawn 0x400), Tick])"]
  show ?thesis by (auto simp del: exec_list.simps view_sched)
qed

end
