(* ===== verification/Pending.thy ===== *)
theory Pending
  imports Tails
begin

text \<open>
  A timer signal that was held pending while a thread was created or switched. A fresh context has
  an empty signal mask, so the \<open>siglongjmp\<close> that dispatches it unblocks \<open>SIGVTALRM\<close>. POSIX does not
  say whether the mask is restored before or after the old stack is left; where it is before, as
  in the C library of GNU, a pending signal is delivered on the old stack while the scheduler already
  counts the fresh thread as running.
\<close>

lemma jump_view:
  assumes "lib_inv K s" and "legal act" and "run_action K act s = Jump e s1"
  obtains b where "jumped K b e s1" and "a_exec act (view K s) = a_goes_on (a_dispatch b)"
proof -
  have "rep_ok s" "a_inv (view K s)" "mangling_ok K" "well_typed act" "act \<noteq> Call (Terminate 0)"
    using assms(1,2) by (simp_all add: lib_inv_def legal_def)
  from wp_JumpD [OF run_action_implements [OF this, unfolded implements_def] assms(3)] that show ?thesis by blast
qed

text \<open>A jump to a fresh context arrives in a state in which the timer can expire again.\<close>

lemma fresh_jump:
  assumes "lib_inv K s" and "legal act" and "run_action K act s = Jump e s1" and "jmpbuf e ! JB_PC = Stored w"
  shows "lib_inv K s1" and "view K s1 = snd (a_exec act (view K s))" and "\<not> a_masked (view K s1)"
    and "resume_core K e s1 = Ret (Started (demangle K w)) s1"
proof -
  obtain b where b: "jumped K b e s1" "a_exec act (view K s) = a_goes_on (a_dispatch b)"
    using jump_view [OF assms(1-3)] .
  have mask: "saved_mask e = {}" using b(1) assms(4) by (simp add: jumped_def env_ok_def)
  then have v: "view K s1 = (a_dispatch b)\<lparr>a_masked := False\<rparr>" using b(1) by (simp add: jumped_def)
  then show view: "view K s1 = snd (a_exec act (view K s))" by (simp add: b(2) a_goes_on_def)
  show "\<not> a_masked (view K s1)" by (simp add: v)
  have rep: "rep_ok s1" using b(1) by (simp add: jumped_def)
  have "a_total (view K s1) \<le> INT_MAX"
    using rep by (rule rep_okE) (simp add: view_fields rep_withD(8) del: view_sched)
  then have "a_inv (snd (a_exec act (view K s)))"
    using assms(1,2) by (intro a_inv_exec) (simp_all add: lib_inv_def legal_def view del: view_sched)
  with rep view assms(1) show "lib_inv K s1" by (simp add: lib_inv_def)
  have "resumable (point_at K e)" using b(1) unfolding jumped_def by blast
  then show "resume_core K e s1 = Ret (Started (demangle K w)) s1"
    using assms(4) by (simp add: resume_core_def resumable_def point_at_def Let_def ret_def)
qed

text \<open>A jump to a saved context arrives with the signal still blocked.\<close>

lemma saved_jump:
  assumes "lib_inv K s" and "legal act" and "run_action K act s = Jump e s1" and "jmpbuf e ! JB_PC = Saved site"
  shows "deliver_timer K s1 = Ret () s1"
proof -
  obtain b where b: "jumped K b e s1" using jump_view [OF assms(1-3)] .
  then have "SIGVTALRM \<in> sig_mask s1" using assms(4) by (simp add: jumped_def env_ok_def)
  then show ?thesis by (simp add: deliver_timer_def comb_defs)
qed

text \<open>The handler that runs in the place of a thread that was never started.\<close>

lemma fresh_overwritten:
  assumes "lib_inv K s1" and "sys_ok K" and "\<not> a_masked (view K s1)" and "act_arith Tick (view K s1)"
  shows "\<exists>e2 s2 th. deliver_timer K s1 = Jump e2 s2 \<and> thr s2 (running_thread_tid (sched s1)) = Some th \<and>
    jmpbuf (env th) ! JB_PC = Saved In_change_thread"
proof -
  have inv: "rep_ok s1" "a_inv (view K s1)" "mangling_ok K" using assms(1) by (simp_all add: lib_inv_def)
  let ?t = "running_thread_tid (sched s1)"
  have gives: "gives_up Tick (view K s1)" using assms(3) by simp
  note i = run_action_implements [OF inv, of Tick, unfolded implements_def]
  have "\<exists>e2 s2. run_action K Tick s1 = Jump e2 s2"
  proof (cases "run_action K Tick s1")
    case (Ret v s')
    then show ?thesis using wp_RetD [OF i Ret] gives by simp
  next
    case (Exit n s')
    then show ?thesis using wp_ExitD [OF i Exit] assms(2) by simp
  next
    case (Fault u)
    then show ?thesis using wp_FaultD [OF i Fault] assms(4) by simp
  qed blast
  then obtain e2 s2 where j: "run_action K Tick s1 = Jump e2 s2" by blast
  then have d: "deliver_timer K s1 = Jump e2 s2"
    by (auto simp: run_action_def comb_defs split: outcome.splits)
  have tick: "legal Tick" by (simp add: legal_def)
  obtain b where b: "jumped K b e2 s2" "a_exec Tick (view K s1) = a_goes_on (a_dispatch b)"
    using jump_view [OF assms(1) tick j] .
  then have v2: "view K s2 = (a_next Tick (view K s1))\<lparr>a_masked := (SIGVTALRM \<in> saved_mask e2)\<rparr>"
    by (simp add: jumped_def a_next_def a_goes_on_def)
  have "a_status (view K s1) ?t = Some RUNNNING" using a_inv_running [OF inv(2), of ?t] by simp
  then have "a_status (a_next Tick (view K s1)) ?t \<noteq> None"
    by (intro status_kept) (auto simp del: view_sched)
  then have pt: "a_point_of (view K s2) ?t = Preempted" and ex: "a_status (view K s2) ?t \<noteq> None"
    using gives_up_decides(3) [OF gives inv(2) tick] unfolding v2 by (simp_all del: a_exec.simps)
  then obtain th where th: "thr s2 ?t = Some th" by (auto simp: state_of_def)
  have "point_at K (env th) = Preempted"
    using pt th by (simp add: a_point_of_def view_def Let_def abs_thread_def)
  then have "jmpbuf (env th) ! JB_PC = Saved In_change_thread"
    by (auto simp: point_at_def split: slot.splits call_site.splits)
  with d th show ?thesis by blast
qed

text \<open>
  C23. A pending timer signal can cost a new thread its life, and only a new thread. Take any action that
  dispatches a thread, and let a signal be pending and delivered as soon as \<open>siglongjmp\<close> has restored
  the mask, before the stack is left. If the thread had run before, its saved mask contains the
  signal, which stays pending. If it is dispatched for the first time, at its entry point, the
  handler runs and saves its own context, on the stack of the thread that was leaving, as the
  context of the new thread, and switches away. The entry point is lost: the new thread is never
  called, and when it is dispatched again it returns into a \<open>siglongjmp\<close> that reads the
  overwritten buffer.
\<close>

theorem pending_signal_overwrites_fresh_context:
  assumes "lib_reachable K q s" and "sys_ok K" and "legal act" and "run_action K act s = Jump e s1"
    and "act_arith Tick (view K s1)"
  shows "case jmpbuf e ! JB_PC of
      Saved site \<Rightarrow> deliver_timer K s1 = Ret () s1
    | Stored w \<Rightarrow> resume_core K e s1 = Ret (Started (demangle K w)) s1 \<and>
        (\<exists>e2 s2 th. deliver_timer K s1 = Jump e2 s2 \<and> thr s2 (running_thread_tid (sched s1)) = Some th \<and>
          jmpbuf (env th) ! JB_PC = Saved In_change_thread)"
proof (cases "jmpbuf e ! JB_PC")
  case (Saved site)
  with saved_jump [OF reachable_lib_inv [OF assms(1)] assms(3,4)] show ?thesis by simp
next
  case (Stored w)
  note f = fresh_jump [OF reachable_lib_inv [OF assms(1)] assms(3,4) Stored]
  from fresh_overwritten [OF f(1) assms(2) f(3) assms(5)] f(4) Stored show ?thesis by simp
qed

theorem pending_signal_overwrites_fresh_context_witness:
  "\<exists>e s1 e2 s2 th. run_action good_platform Tick (state_after [Call (Spawn 0x400)]) = Jump e s1 \<and>
     resume_core good_platform e s1 = Ret (Started 0x400) s1 \<and> deliver_timer good_platform s1 = Jump e2 s2 \<and>
     thr s2 1 = Some th \<and> jmpbuf (env th) ! JB_PC = Saved In_change_thread"
proof -
  let ?K = good_platform and ?s = "state_after [Call (Spawn 0x400)]" and ?s' = "state_after ([Call (Spawn 0x400)] @ [Tick])"
  have sm: "small [Call (Spawn 0x400)]" and sm': "small ([Call (Spawn 0x400)] @ [Tick])"
    by (simp_all add: small_def legal_def)
  have e: "exec ?K Tick ?s = Ret (Started 0x400) ?s'"
    using small_step [OF sm'] by (simp add: a_run_simps)
  then obtain x s1 where j: "run_action ?K Tick ?s = Jump x s1" and r: "resume_context ?K x s1 = Ret (Started 0x400) ?s'"
    by (auto simp: exec_def run_action_def comb_defs split: outcome.splits)
  obtain w where w: "jmpbuf x ! JB_PC = Stored w"
    using r by (cases "jmpbuf x ! JB_PC") (auto simp: resume_context_def comb_defs split: call_site.splits outcome.splits)
  have legal: "legal Tick" by (simp add: legal_def)
  note f = fresh_jump [OF small_run(3) [OF sm] legal j w]
  have v: "view ?K s1 = snd (a_exec Tick (snd (a_run [Call (Spawn 0x400)] a_init)))"
    unfolding f(2) small_run(2) [OF sm] ..
  have ok: "act_arith Tick (view ?K s1)" unfolding v by (simp add: a_run_simps arith_ok_def in_int_def int_limits)
  have "running_thread_tid (sched s1) = 1" unfolding view_sched(4) [of ?K, symmetric] v by (simp add: a_run_simps)
  moreover have "demangle ?K w = 0x400"
    using r w by (auto simp: resume_context_def comb_defs Let_def split: if_splits)
  ultimately show ?thesis
    using pending_signal_overwrites_fresh_context [OF small_run(4) [OF sm] sys_ok_good_platform legal j ok] j w by auto
qed

end
