(* ===== verification/StackSpace.thy ===== *)
theory StackSpace
  imports Nesting
begin

text \<open>
  The stacks have a size: \<open>new char[STACK_SIZE]\<close> of \<open>Thread.cpp\<close>, 4096 bytes for every thread but
  the main one. The machine of \<open>Interrupts\<close> keeps the unfinished handlers and calls of a thread in a
  list. Here its steps are restricted to those of a program whose stacks hold and whose timer is
  armed when it expires, and the restricted program is shown to reach a state in which the handlers
  on a stack need more bytes than the stack has.
\<close>

subsection \<open>The timer stays armed\<close>

context observer begin

lemma core_remove_thread: "triple (I False) (\<lambda>_. I False) (I False) (terminate_core K tid)" if "tid \<noteq> 0"
  using that unfolding terminate_core_def
  by (auto intro!: rules block_signals unblock_signals remove_thread)

lemma core:
  assumes "f \<noteq> Terminate 0"
  shows "triple (I False) (\<lambda>_. I False) (I False) (api_core K f)"
proof (cases f)
  case (Spawn ep)
  show ?thesis unfolding Spawn api_core.simps spawn_core_def add_new_thread_def
    by (intro rules lib_error block_signals unblock_signals add_new_thread_from)
next
  case (Terminate tid)
  with assms show ?thesis by (simp add: core_remove_thread)
next
  case (Block tid)
  show ?thesis unfolding Block api_core.simps block_core_def
    by (intro rules block_signals unblock_signals block_thread)
next
  case (Resume tid)
  show ?thesis unfolding Resume api_core.simps resume_thread_core_def
    by (intro rules block_signals unblock_signals unblock_thread)
next
  case (Sleep n)
  show ?thesis unfolding Sleep api_core.simps sleep_core_def uthread_get_tid_def
    by (intro rules lib_error block_signals unblock_signals sleep_running_thread get_running)
next
  case Get_tid
  show ?thesis unfolding Get_tid api_core.simps get_tid_core_def by (intro rules get_running)
next
  case Get_total_quantums
  show ?thesis
    unfolding Get_total_quantums api_core.simps get_total_quantums_core_def get_total_quantums_def
    by (intro rules block_signals unblock_signals)
next
  case (Get_quantums tid)
  show ?thesis unfolding Get_quantums api_core.simps get_quantums_core_def Let_def
    by (intro rules block_signals unblock_signals)
qed

lemma continue: "triple (I False) (\<lambda>_. I False) J (resume_core K e)"
proof (cases "jmpbuf e ! JB_PC")
  case (Stored w)
  then show ?thesis by (simp add: resume_core_def Let_def triple_ret triple_fault)
next
  case (Saved site)
  have one: "triple (I False) (\<lambda>r s. r = 1 \<and> I False s) J (Scheduler.save_after K 1)"
    unfolding save_after_def by (simp, intro triple_seq_keep [OF unblock_signals]) (simp add: triple_def)
  have then_ret: "triple (I False) (\<lambda>_. I False) J (bind_op (Scheduler.save_after K 1) f)"
    if "triple (I False) (\<lambda>_. I False) J (f 1)" for f :: "int \<Rightarrow> answer sop"
    by (rule triple_bind [OF one]) (use that in \<open>simp add: triple_def\<close>)
  have pure: "seq_op (ret x) f = f" for x :: unit and f :: "answer sop"
    by (simp add: comb_defs fun_eq_iff)
  show ?thesis
    by (cases site; simp add: Saved resume_core_def triple_fault; intro then_ret)
      (auto simp: change_thread_after_def block_thread_after_def sleep_after_def pure intro!: rules)
qed

lemma finish_keeps: "triple (I False) (\<lambda>_. I False) J (finish K T)"
  by (cases T) (auto simp: finish_def intro!: rules lib_error unblock_signals)

lemma fine_keeps:
  assumes inv: "lib_inv K (proc c)" and "I False (proc c)" and "fine_step K c l c'"
  shows "I False (proc c')"
  using assms(3)
proof cases
  case (call f T s')
  have "f \<noteq> Terminate 0" using core_Ret(4) [OF inv call(4,5)] by (simp add: legal_def)
  from wp_RetD [OF tripleD [OF core [OF this] assms(2)] call(5)] call show ?thesis by simp
next
  case (call_switch f e s1 v s')
  have "f \<noteq> Terminate 0"
    using action_jump(3) [OF inv call_switch(4) call_jump [OF call_switch(5)] call_switch(6)] by (simp add: legal_def)
  from wp_JumpD [OF tripleD [OF core [OF this] assms(2)] call_switch(5)]
  have "I False s1" .
  from wp_RetD [OF tripleD [OF continue this] call_switch(6)] call_switch show ?thesis by simp
next
  case (pending s')
  from wp_RetD [OF tripleD [OF deliver assms(2)] pending(3)] pending show ?thesis by simp
next
  case (expire e s1 v s')
  from wp_JumpD [OF tripleD [OF deliver assms(2)] expire(3)] have "I False s1" .
  from wp_RetD [OF tripleD [OF continue this] expire(4)] expire show ?thesis by simp
next
  case (sigreturn M fs)
  with mask [OF assms(2)] show ?thesis by simp
next
  case (give T fs v s')
  from wp_RetD [OF tripleD [OF finish_keeps assms(2)] give(4)] give show ?thesis by simp
qed

end

text \<open>With a quantum above 0 the timer is armed in every configuration of the program.\<close>

lemma fine_timer:
  assumes "fine_reachable K q c"
  shows "timer_obs q False (proc c)"
  using assms
proof (induction rule: reachable.induct)
  case (first c)
  then show ?case by (auto simp: fine_start_def timer_obs_def lib_start_observed ready_scheduler_def)
next
  case (more c l c')
  then show ?case
    using armed.fine_keeps [OF _ more.IH more.hyps(2)] fine.conc.reachable_inv [OF more.hyps(1)]
    by (simp add: fine_inv_def)
qed

lemma quantum_armed: "0 < q \<Longrightarrow> quantum_timer q \<noteq> zero_timer"
  using quantum_timer_exact [of q] by auto

subsection \<open>Steps of a program whose stacks hold\<close>

text \<open>
  \<open>B\<close> is a number of bytes that a handler needs on the stack at least until it returns: the signal
  frame of the kernel and the frames of \<open>callback_handler\<close>, \<open>change_thread\<close> and
  \<open>save_current_execution_context\<close>. The threads with a stack of \<open>STACK_SIZE\<close> bytes are those with
  a tid other than 0.
\<close>

definition handler_bytes :: "nat \<Rightarrow> config \<Rightarrow> tid \<Rightarrow> nat" where
  "handler_bytes B c t = B * length (filter (\<lambda>f. f \<in> range Handler) (frames c t))"

definition stacks_hold :: "nat \<Rightarrow> config \<Rightarrow> bool" where
  "stacks_hold B c \<longleftrightarrow> list_all (\<lambda>t. handler_bytes B c t \<le> STACK_SIZE) [1..<nat MAX_THREAD_NUM]"

fun expiry :: "effect \<Rightarrow> bool" where
  "expiry (Acts Tick v) \<longleftrightarrow> True"
| "expiry _ \<longleftrightarrow> False"

definition stack_step :: "platform \<Rightarrow> nat \<Rightarrow> config \<Rightarrow> effect \<Rightarrow> config \<Rightarrow> bool" where
  "stack_step K B c l c' \<longleftrightarrow>
     stacks_hold B c \<and> (expiry l \<longrightarrow> itimer (proc c) \<noteq> zero_timer) \<and> fine_step K c l c'"

lemma stack_step_fine: "path (stack_step K B) c ls c' \<Longrightarrow> path (fine_step K) c ls c'"
  by (induction rule: path.induct) (auto simp: stack_step_def path_Cons)

text \<open>The situations of the run: only thread 1 has handlers on a stack of its own.\<close>

definition piling :: "nat \<Rightarrow> config \<Rightarrow> bool" where
  "piling h c \<longleftrightarrow> (\<forall>t. t \<noteq> 0 \<longrightarrow> t \<noteq> 1 \<longrightarrow> frames c t = []) \<and>
     length (frames c 1) = h \<and> set (frames c 1) \<subseteq> range Handler"

lemma piling_bytes: "piling h c \<Longrightarrow> handler_bytes B c 1 = B * h"
  by (auto simp: piling_def handler_bytes_def filter_id_conv subset_iff)

lemma piling_holds:
  assumes "piling h c" and "B * h \<le> STACK_SIZE"
  shows "stacks_hold B c"
proof -
  have "handler_bytes B c t \<le> STACK_SIZE" if "t \<noteq> 0" for t
  proof (cases "t = 1")
    case True
    with piling_bytes [OF assms(1), of B] assms(2) show ?thesis by simp
  next
    case False
    with that assms(1) show ?thesis by (simp add: piling_def handler_bytes_def)
  qed
  then show ?thesis by (auto simp: stacks_hold_def list_all_iff)
qed

subsection \<open>Handlers that interrupt handlers\<close>

text \<open>Two threads that take turns: \<open>x\<close> runs, \<open>y\<close> is ready.\<close>

definition turns :: "tid \<Rightarrow> tid \<Rightarrow> lib \<Rightarrow> bool" where
  "turns x y a \<longleftrightarrow> a_running a = x \<and> a_ready a = [y] \<and> a_sleeping a = [] \<and> \<not> a_masked a"

lemma turns_tick:
  assumes "turns x y a"
  shows "turns y x (snd (a_exec Tick a))" and "a_total (snd (a_exec Tick a)) = a_total a + 1"
  using assms by (simp_all add: turns_def a_tick_def a_wake_def a_enqueue_def a_dispatch_def a_goes_on_def
      a_update_def)

lemma turns_arith: "turns x y a \<Longrightarrow> 1 \<le> a_total a \<Longrightarrow> a_total a < INT_MAX \<Longrightarrow> act_arith Tick a"
  by (simp add: turns_def arith_ok_def in_int_def int_limits)

lemma tick_pushes:
  assumes "fine_inv K c" and "sys_ok K" and "turns x y (view K (proc c))" and "a_total (view K (proc c)) < INT_MAX"
  obtains v c' M where "fine_step K c (Acts Tick v) c'" and "fine_inv K c'" and "turns y x (view K (proc c'))"
    and "a_total (view K (proc c')) = a_total (view K (proc c)) + 1"
    and "frames c' = (frames c)(x := Handler M # frames c x)"
proof -
  have "1 \<le> a_total (view K (proc c))"
    using assms(1) a_core_total(1) by (auto simp: fine_inv_def lib_inv_def a_inv_def simp del: view_sched)
  then have "act_arith Tick (view K (proc c))" using turns_arith [OF assms(3)] assms(4) by blast
  then obtain c' where c': "fine_step K c (Acts Tick (fst (a_exec Tick (view K (proc c))))) c'"
    "view K (proc c') = snd (a_exec Tick (view K (proc c)))" "fine_inv K c'"
    using fine_act_possible [OF assms(1,2), of Tick] by (auto simp: legal_def)
  moreover have "gives_up Tick (view K (proc c))" "now c = x"
    using assms(3) by (simp_all add: turns_def now_view [of c K] del: view_sched)
  ultimately obtain M where "frames c' = (frames c)(x := Handler M # frames c x)"
    using expire_pushes [OF assms(1) c'(1)] by auto
  with c'(2) turns_tick [OF assms(3)] show ?thesis by (intro that [OF c'(1,3)]) (simp_all del: view_sched)
qed

lemma rounds_push:
  assumes "fine_inv K c" and "timer_obs q False (proc c)" and "turns 0 1 (view K (proc c))"
    and "a_total (view K (proc c)) + 2 * int n \<le> INT_MAX" and "piling h c" and "h + n \<le> Suc (STACK_SIZE div B)"
    and "sys_ok K" and "0 < q"
  shows "\<exists>ls c'. path (stack_step K B) c ls c' \<and> piling (h + n) c' \<and>
    map fst (List.map_filter seen ls) = replicate (2 * n) Tick"
  using assms(1-6)
proof (induction n arbitrary: c h)
  case 0
  then show ?case by (intro exI [of _ "[]"] exI [of _ c]) (simp add: List.map_filter_def)
next
  case (Suc n)
  have inv: "lib_inv K (proc d)" if "fine_inv K d" for d using that by (simp add: fine_inv_def)
  have armed: "itimer (proc d) \<noteq> zero_timer" if "timer_obs q False (proc d)" for d
    using that quantum_armed [OF assms(8)] by (auto simp: timer_obs_def)
  have "B * h \<le> B * (STACK_SIZE div B)" using Suc.prems(6) by (intro mult_le_mono2) simp
  also have "\<dots> \<le> STACK_SIZE" by simp
  finally have room: "B * h \<le> STACK_SIZE" .
  have "a_total (view K (proc c)) < INT_MAX" using Suc.prems(4) by simp
  then obtain v1 c1 M1 where c1: "fine_step K c (Acts Tick v1) c1" "fine_inv K c1" "turns 1 0 (view K (proc c1))"
    "a_total (view K (proc c1)) = a_total (view K (proc c)) + 1" "frames c1 = (frames c)(0 := Handler M1 # frames c 0)"
    using tick_pushes [OF Suc.prems(1) assms(7) Suc.prems(3)] by metis
  note t1 = armed.fine_keeps [OF inv [OF Suc.prems(1)] Suc.prems(2) c1(1)]
  have p1: "piling h c1" using Suc.prems(5) c1(5) by (simp add: piling_def)
  have "a_total (view K (proc c1)) < INT_MAX" using Suc.prems(4) c1(4) by simp
  then obtain v2 c2 M2 where c2: "fine_step K c1 (Acts Tick v2) c2" "fine_inv K c2" "turns 0 1 (view K (proc c2))"
    "a_total (view K (proc c2)) = a_total (view K (proc c1)) + 1" "frames c2 = (frames c1)(1 := Handler M2 # frames c1 1)"
    using tick_pushes [OF c1(2) assms(7) c1(3)] by metis
  note t2 = armed.fine_keeps [OF inv [OF c1(2)] t1 c2(1)]
  have p2: "piling (Suc h) c2" using p1 c2(5) by (simp add: piling_def)
  have steps: "stack_step K B c (Acts Tick v1) c1" "stack_step K B c1 (Acts Tick v2) c2"
    using c1(1) c2(1) piling_holds [OF Suc.prems(5) room] piling_holds [OF p1 room]
      armed [OF Suc.prems(2)] armed [OF t1] by (simp_all add: stack_step_def)
  have "a_total (view K (proc c2)) + 2 * int n \<le> INT_MAX" using Suc.prems(4) c1(4) c2(4) by simp
  then obtain ls c' where r: "path (stack_step K B) c2 ls c'" "piling (Suc h + n) c'"
    "map fst (List.map_filter seen ls) = replicate (2 * n) Tick"
    using Suc.IH [OF c2(2) t2 c2(3) _ p2] Suc.prems(6) by auto
  have "path (stack_step K B) c (Acts Tick v1 # Acts Tick v2 # ls) c'"
    using steps r(1) by (auto simp: path_Cons)
  moreover have "map fst (List.map_filter seen (Acts Tick v1 # Acts Tick v2 # ls)) = replicate (2 * Suc n) Tick"
    using r(3) by (simp add: List.map_filter_def)
  ultimately show ?case using r(2)
    by (intro exI [of _ "Acts Tick v1 # Acts Tick v2 # ls"] exI [of _ c']) simp
qed

text \<open>
  C22. The handlers on a stack can outgrow it: the handler switches threads with \<open>SIGVTALRM\<close> blocked,
  but when its thread is dispatched again it unblocks the signal and can be interrupted by the next
  expiry before it returns. However few bytes \<open>B\<close> a handler needs, a program with a positive quantum
  has a run of one \<open>uthread_spawn\<close> and two expiries for each of the \<open>STACK_SIZE div B + 1\<close> handlers that
  do not fit, all of them expiries of an armed timer and taken while the handlers on every stack still
  had room, after which the handlers that have not returned on the 4096 bytes of thread 1 need more
  than those, by at most one handler. The machine has no clock, so an armed timer may expire between
  any two steps; how likely the run is depends on how short the quantum is, but no code prevents it.
  On the other side no stack ever holds more handlers and calls than quantums have started.
\<close>

theorem handlers_pile_up:
  assumes "sys_ok K" and "mangling_ok K" and "in_int q" and "0 < q" and "ep \<noteq> 0" and "0 < B"
  shows "(\<exists>c0 ls c. fine_start K q c0 \<and> path (stack_step K B) c0 ls c \<and>
      map fst (List.map_filter seen ls) = Call (Spawn ep) # replicate (2 * (STACK_SIZE div B + 1)) Tick \<and>
      STACK_SIZE < handler_bytes B c 1 \<and> handler_bytes B c 1 \<le> STACK_SIZE + B) \<and>
    (\<forall>t. \<forall>c \<in> Collect (fine_reachable K q). int (length (frames c t)) \<le> total_quantums (sched (proc c)))"
proof -
  obtain s where "lib_start K q s" using boot_returns [OF assms(1-3)] assms(4) by auto
  then have start: "fine_start K q \<lparr>proc = s, frames = \<lambda>_. []\<rparr>" by (simp add: fine_start_def)
  let ?c0 = "\<lparr>proc = s, frames = \<lambda>_. []\<rparr>" and ?n = "STACK_SIZE div B + 1"
  note inv0 = fine_start_inv [OF start] and v0 = fine_start_view(2) [OF start]
  have t0: "timer_obs q False (proc ?c0)"
    by (rule fine_timer [OF reachable.first [of "fine_start K q", OF start]])
  have t1: "turns 0 1 (snd (a_exec (Call (Spawn ep)) a_init))" "a_total (snd (a_exec (Call (Spawn ep)) a_init)) = 1"
    using assms(5) by (simp_all add: turns_def a_run_simps)
  obtain c1 where c1: "fine_step K ?c0 (Acts (Call (Spawn ep)) (fst (a_exec (Call (Spawn ep)) a_init))) c1"
    "view K (proc c1) = snd (a_exec (Call (Spawn ep)) a_init)" "fine_inv K c1"
    by (rule fine_act_possible [OF inv0 assms(1), of "Call (Spawn ep)", unfolded v0]) (simp_all add: legal_def)
  have zero: "now ?c0 = 0" unfolding now_view [of _ K] v0 by (simp add: a_init_def)
  have p1: "piling 0 c1"
    using frames_other [OF c1(1)] zero by (simp add: piling_def)
  have "lib_inv K (proc ?c0)" using inv0 by (simp add: fine_inv_def)
  note timer1 = armed.fine_keeps [OF this t0 c1(1)]
  have step: "stack_step K B ?c0 (Acts (Call (Spawn ep)) (fst (a_exec (Call (Spawn ep)) a_init))) c1"
    using c1(1) by (simp add: stack_step_def stacks_hold_def handler_bytes_def list_all_iff)
  have "STACK_SIZE div B \<le> 4096" by (simp add: STACK_SIZE_def)
  then have "a_total (view K (proc c1)) + 2 * int ?n \<le> INT_MAX"
    unfolding c1(2) t1(2) by (simp add: int_limits)
  then obtain ls c where r: "path (stack_step K B) c1 ls c" "piling ?n c"
    "map fst (List.map_filter seen ls) = replicate (2 * ?n) Tick"
    using rounds_push [OF c1(3) timer1 _ _ p1 _ assms(1,4), of ?n B] t1(1) c1(2) by auto
  let ?ls = "Acts (Call (Spawn ep)) (fst (a_exec (Call (Spawn ep)) a_init)) # ls"
  have "path (stack_step K B) ?c0 ?ls c" using step r(1) by (auto simp: path_Cons)
  moreover have "map fst (List.map_filter seen ?ls) = Call (Spawn ep) # replicate (2 * ?n) Tick"
    using r(3) by (simp add: List.map_filter_def)
  moreover have "STACK_SIZE < B * ?n" "B * ?n \<le> STACK_SIZE + B"
    using dividend_less_times_div [OF assms(6), of STACK_SIZE] by simp_all
  ultimately have run: "\<exists>c0 ls c. fine_start K q c0 \<and> path (stack_step K B) c0 ls c \<and>
      map fst (List.map_filter seen ls) = Call (Spawn ep) # replicate (2 * ?n) Tick \<and>
      STACK_SIZE < handler_bytes B c 1 \<and> handler_bytes B c 1 \<le> STACK_SIZE + B"
    unfolding piling_bytes [OF r(2), of B, symmetric]
    by (intro exI [of _ ?c0] exI [of _ ?ls] exI [of _ c]) (use start in simp)
  have "int (length (frames c t)) \<le> total_quantums (sched (proc c))" if "fine_reachable K q c" for c t
    using fine.conc.reachable_inv [OF that] frames_okD(6) [of "view K (proc c)" "frames c" t]
    by (simp add: fine_inv_def)
  with run show ?thesis by blast
qed

text \<open>With 1000 bytes for a handler the fifth one does not fit.\<close>

theorem handlers_pile_up_witness:
  "\<exists>c0 ls c. fine_start good_platform 1000 c0 \<and> path (stack_step good_platform 1000) c0 ls c \<and>
     map fst (List.map_filter seen ls) = Call (Spawn 0x400) # replicate 10 Tick \<and>
     STACK_SIZE < handler_bytes 1000 c 1"
proof -
  have p: "in_int 1000" "(0::int) < 1000" "(0x400::addr) \<noteq> 0" "(0::nat) < 1000"
    by (simp_all add: in_int_def int_limits)
  from handlers_pile_up [OF sys_ok_good_platform mangling_ok_good_platform p]
  have "\<exists>c0 ls c. fine_start good_platform 1000 c0 \<and> path (stack_step good_platform 1000) c0 ls c \<and>
      map fst (List.map_filter seen ls) = Call (Spawn 0x400) # replicate (2 * (STACK_SIZE div 1000 + 1)) Tick \<and>
      STACK_SIZE < handler_bytes 1000 c 1 \<and> handler_bytes 1000 c 1 \<le> STACK_SIZE + 1000"
    by (rule conjunct1)
  moreover have "2 * (STACK_SIZE div 1000 + 1) = 10" by (simp add: STACK_SIZE_def)
  ultimately show ?thesis by metis
qed

end
