(* ===== verification/Testing.thy ===== *)
theory Testing
  imports Safety Messages "HOL-Library.Sublist"
begin

text \<open>
  How the tests of the repository (\<open>tests/tests_to_be_ran_separately.cpp\<close>) are written down and run.
  A test is a main program and a few thread functions; its script lists the calls in the order in
  which the threads make them, each with what the test expects of it, and the timer signals at the
  places the comments of the test name: they arrive while the main thread waits in
  \<open>threadQuantumSleep\<close>, and every other thread gets through its part within its quantum. This is the
  timing the tests are written for; their README says that they can fail under another one, and the
  comment of \<open>threadQuantumSleep\<close> that it can loop. What is left open is the number of rounds of the busy
  wait, in every quantum of the main thread another one, since it depends on the speed of the machine.
  The flags by which a test finds out which thread has run when are the order of the script.
\<close>

subsection \<open>Scripts\<close>

text \<open>
  \<open>Exactly\<close> is \<open>EXPECT_EQ\<close>, and for a call that switches to another thread, or a timer signal, the way
  that thread goes on. \<open>Above\<close> is \<open>EXPECT_TRUE(... > n)\<close>. The result of an \<open>Unchecked\<close> call is ignored.
\<close>

datatype expectation = Exactly answer | Above int | Unchecked | Library_error

type_synonym script = "(action \<times> expectation) list"

definition expect :: "api \<Rightarrow> int \<Rightarrow> script" where
  "expect f v = [(Call f, Exactly (Returned v))]"

definition expect_error :: "api \<Rightarrow> script" where
  "expect_error f = [(Call f, Library_error)]"

text \<open>What was printed to standard error between two moments, and the check of a failed call.\<close>

fun printed_text :: "event \<Rightarrow> string" where
  "printed_text (Stderr m) = m"
| "printed_text (Sys c r) = ''''"

definition captured :: "process \<Rightarrow> process \<Rightarrow> string" where
  "captured s s' =
     concat (map printed_text (rev (take (length (events s') - length (events s)) (events s'))))"

definition expect_thread_library_error :: "int \<Rightarrow> process \<Rightarrow> process \<Rightarrow> bool" where
  "expect_thread_library_error retCode s s' \<longleftrightarrow>
     retCode = - 1 \<and> sublist ''thread library error: '' (captured s s')"

fun meets :: "expectation \<Rightarrow> answer \<Rightarrow> process \<Rightarrow> process \<Rightarrow> bool" where
  "meets (Exactly a) v s s' = (v = a)"
| "meets (Above n) v s s' = (case v of Returned r \<Rightarrow> n < r | _ \<Rightarrow> False)"
| "meets Unchecked v s s' = (case v of Returned r \<Rightarrow> True | _ \<Rightarrow> False)"
| "meets Library_error v s s' =
     (case v of Returned r \<Rightarrow> expect_thread_library_error r s s' | _ \<Rightarrow> False)"

fun run_script :: "platform \<Rightarrow> script \<Rightarrow> process \<Rightarrow> process option" where
  "run_script K [] s = Some s"
| "run_script K ((act, e) # rest) s =
     (case exec K act s of
        Ret v s' \<Rightarrow> if meets e v s s' then run_script K rest s' else None
      | _ \<Rightarrow> None)"

text \<open>\<open>initializeLibrary\<close>, and a test: the script, and the exit of the main thread with code 0.\<close>

definition initializeLibrary :: "platform \<Rightarrow> int \<Rightarrow> process \<Rightarrow> process option" where
  "initializeLibrary K lengths s =
     (case uthread_init K lengths s of
        Ret r s' \<Rightarrow> if r = 0 then run_script K (expect Get_total_quantums 1) s' else None
      | _ \<Rightarrow> None)"

definition exits :: "platform \<Rightarrow> process \<Rightarrow> bool" where
  "exits K s = (case exec K (Call (Terminate 0)) s of Exit n s' \<Rightarrow> n = 0 | _ \<Rightarrow> False)"

definition passes :: "platform \<Rightarrow> int \<Rightarrow> script \<Rightarrow> process \<Rightarrow> bool" where
  "passes K lengths script s0 =
     (case initializeLibrary K lengths s0 of
        None \<Rightarrow> False
      | Some s \<Rightarrow> (case run_script K script s of None \<Rightarrow> False | Some s' \<Rightarrow> exits K s'))"

text \<open>
  \<open>threadQuantumSleep\<close> of thread \<open>me\<close> that has run for \<open>start\<close> quantums: the two reads at the
  beginning, the rounds of the busy wait before each timer signal, and the last read. What the
  other threads do in each of the quantums in between is a list of scripts; \<open>alone\<close> is the signal
  that finds no other thread ready. \<open>polls k\<close> is the number of rounds in the \<open>k\<close>-th quantum of the thread.
\<close>

definition busy :: "int \<Rightarrow> nat \<Rightarrow> int \<Rightarrow> script" where
  "busy me polls k = replicate polls (Call (Get_quantums me), Exactly (Returned k))"

fun waiting :: "int \<Rightarrow> (int \<Rightarrow> nat) \<Rightarrow> int \<Rightarrow> script list \<Rightarrow> script" where
  "waiting me polls k [] = expect (Get_quantums me) k"
| "waiting me polls k (others # rest) = busy me (polls k) k @ others @ waiting me polls (k + 1) rest"

definition threadQuantumSleep :: "int \<Rightarrow> (int \<Rightarrow> nat) \<Rightarrow> int \<Rightarrow> script list \<Rightarrow> script" where
  "threadQuantumSleep me polls start others =
     expect Get_tid me @ expect (Get_quantums me) start @ waiting me polls start others"

definition alone :: script where
  "alone = [(Tick, Exactly Continued)]"

subsection \<open>Running a script on the contract\<close>

fun fits :: "expectation \<Rightarrow> answer \<Rightarrow> bool" where
  "fits (Exactly a) v = (v = a)"
| "fits (Above n) v = (case v of Returned r \<Rightarrow> n < r | _ \<Rightarrow> False)"
| "fits Unchecked v = (case v of Returned r \<Rightarrow> True | _ \<Rightarrow> False)"
| "fits Library_error v = (v = Returned (- 1))"

fun fits_run :: "script \<Rightarrow> lib \<Rightarrow> bool" where
  "fits_run [] a = True"
| "fits_run ((act, e) # rest) a = (fits e (fst (a_exec act a)) \<and> fits_run rest (snd (a_exec act a)))"

lemma fits_run_busy:
  assumes "a_exec (Call (Get_quantums me)) a = (Returned k, a)"
  shows "fits_run (busy me polls k @ rest) a = fits_run rest a"
  by (induction polls) (simp_all add: busy_def assms del: a_exec.simps)

lemma said_text:
  assumes "said (events s) s'"
  shows "sublist ''thread library error: '' (captured s s')"
proof -
  from assms obtain new where new: "events s' = new @ events s" "list_ex library_message new"
    by (auto simp: said_def)
  then obtain m where m: "Stderr m \<in> set new" "take (length error_prefix) m = error_prefix"
    by (auto simp: list_ex_iff elim!: library_message.elims)
  then obtain xs ys where "rev new = xs @ Stderr m # ys" by (metis set_rev split_list)
  then have "captured s s' = concat (map printed_text xs) @ m @ concat (map printed_text ys)"
    by (simp add: captured_def new)
  moreover have "prefix error_prefix m" using m(2) by (metis take_is_prefix)
  ultimately show ?thesis
    by (metis error_prefix_def prefix_imp_sublist sublist_appendI sublist_order.order_trans)
qed

lemma run_scriptI:
  assumes "lib_reachable K q s" and "\<forall>act \<in> set (map fst script). well_typed act"
    and "exec_list K (map fst script) s = Ret vs s'" and "fits_run script (view K s)"
  shows "run_script K script s = Some s'"
  using assms
proof (induction script arbitrary: s vs)
  case (Cons x script)
  obtain act e where x: "x = (act, e)" by force
  then obtain v ws s1 where s1: "exec K act s = Ret v s1" "exec_list K (map fst script) s1 = Ret ws s'"
    using Cons.prems(3) by (auto simp only: exec_list_Cons list.map fst_conv list.inject)
  have wt: "well_typed act" using Cons.prems(2) x by simp
  note view = step_view [OF Cons.prems(1) wt s1(1)]
  have v: "fits e v" and rest: "fits_run script (view K s1)" using Cons.prems(4) view(1) x by auto
  have "meets e v s s1"
  proof (cases e)
    case Library_error
    show ?thesis
    proof (cases act)
      case (Call f)
      with Cons.prems(1) wt s1(1) v Library_error have "said (events s) s1"
        by (auto intro: failure_said)
      with v show ?thesis by (simp add: Library_error expect_thread_library_error_def said_text)
    next
      case Tick
      with s1(1) v Library_error show ?thesis using tick_not_error by auto
    qed
  qed (use v in \<open>simp_all split: answer.splits\<close>)
  moreover have "run_script K script s1 = Some s'"
    using reachable_exec [OF Cons.prems(1) wt s1(1)] Cons.prems(2) s1(2) rest by (intro Cons.IH) simp_all
  ultimately show ?case by (simp add: x s1(1))
qed (simp add: ret_def)

lemma initializeLibrary_returns:
  assumes "sys_ok K" and "mangling_ok K" and "in_int q" and "0 \<le> q"
  obtains s where "initializeLibrary K q (printed msgs) = Some s" and "lib_reachable K q s"
    and "view K s = a_init"
proof -
  obtain s where s: "uthread_init K q (printed msgs) = Ret 0 s" "lib_start K q s"
    by (rule init_returns [OF assms])
  note r = reachable.first [where start = "lib_start K q", OF s(2)]
  have view: "view K s = a_init" using lib_start_view(2) [OF s(2)] .
  have first: "a_exec (Call Get_total_quantums) (view K s) = (Returned 1, a_init)"
    by (simp add: a_return_def a_init_def view)
  obtain s0 where "exec K (Call Get_total_quantums) s = Ret (Returned 1) s0" "view K s0 = a_init"
    "lib_reachable K q s0"
    by (rule call_returns [OF r assms(1) _ _ first]) (simp_all add: legal_def)
  with s(1) show ?thesis by (intro that [of s0]) (simp_all add: initializeLibrary_def expect_def)
qed

lemma reachable_exits:
  assumes "lib_reachable K q s" and "sys_ok K"
  shows "exits K s"
  using wp_terminate_main [OF reachable_rep [OF assms(1)], of K] assms(2)
  by (auto simp: exits_def wp_def exec_def split: outcome.splits)

lemma passesI:
  assumes "sys_ok K" and "mangling_ok K" and "in_int q" and "0 \<le> q"
    and "\<forall>act \<in> set (map fst script). legal act \<and> (case act of Call (Sleep n) \<Rightarrow> n \<le> 1000 | _ \<Rightarrow> True)"
    and "length script \<le> 10000000"
    and "fits_run script a_init"
  shows "passes K q script (printed msgs)"
proof -
  obtain s0 where s0: "initializeLibrary K q (printed msgs) = Some s0" "lib_reachable K q s0"
    "view K s0 = a_init"
    by (rule initializeLibrary_returns [OF assms(1-4)])
  have act: "\<forall>act \<in> set (map fst script). well_typed act \<and> act \<noteq> Call (Terminate 0)"
    and sleep: "\<forall>n. Call (Sleep n) \<in> set (map fst script) \<longrightarrow> n \<le> 1000"
    using assms(5) by (force simp: legal_def)+
  obtain vs s' where s': "exec_list K (map fst script) s0 = Ret vs s'"
    using run_returns [OF reachable_lib_inv [OF s0(2)] assms(1) _ act sleep, of 1] assms(6) s0(3) bounded_init
    by (auto simp: int_limits)
  have "lib_reachable K q s'"
    by (rule reachable_exec_list [OF s0(2) _ s']) (use act in blast)
  moreover have "run_script K script s0 = Some s'"
    by (rule run_scriptI [OF s0(2) _ s']) (use act assms(7) s0(3) in auto)
  ultimately show ?thesis using s0(1) assms(1) by (simp add: passes_def reachable_exits)
qed

lemmas passes_boot = passesI [where msgs = "[]", unfolded printed_Nil]

lemma script_of_busy [simp]:
  "map fst (busy me polls k) = replicate polls (Call (Get_quantums me))"
  "length (busy me polls k) = polls"
  "fst ` set (busy me polls k) \<subseteq> {Call (Get_quantums me)}"
  by (auto simp: busy_def)

lemma replicate_numeral: "replicate (numeral k) x = x # replicate (pred_numeral k) x"
  by (simp add: numeral_eq_Suc)

text \<open>The lengths of the waits, for the scripts of at most 30 quantums of the main thread.\<close>

lemma polls_bounds:
  assumes "\<forall>k. polls k \<le> (100000 :: nat)"
  shows "polls (1 :: int) \<le> 100000" "polls (2 :: int) \<le> 100000" "polls (3 :: int) \<le> 100000" "polls (4 :: int) \<le> 100000"
     "polls (5 :: int) \<le> 100000" "polls (6 :: int) \<le> 100000" "polls (7 :: int) \<le> 100000" "polls (8 :: int) \<le> 100000"
     "polls (9 :: int) \<le> 100000" "polls (10 :: int) \<le> 100000" "polls (11 :: int) \<le> 100000" "polls (12 :: int) \<le> 100000"
     "polls (13 :: int) \<le> 100000" "polls (14 :: int) \<le> 100000" "polls (15 :: int) \<le> 100000" "polls (16 :: int) \<le> 100000"
     "polls (17 :: int) \<le> 100000" "polls (18 :: int) \<le> 100000" "polls (19 :: int) \<le> 100000" "polls (20 :: int) \<le> 100000"
     "polls (21 :: int) \<le> 100000" "polls (22 :: int) \<le> 100000" "polls (23 :: int) \<le> 100000" "polls (24 :: int) \<le> 100000"
     "polls (25 :: int) \<le> 100000" "polls (26 :: int) \<le> 100000" "polls (27 :: int) \<le> 100000" "polls (28 :: int) \<le> 100000"
     "polls (29 :: int) \<le> 100000" "polls (30 :: int) \<le> 100000"
  using assms by simp_all

lemmas script_simps = ball_Un Ball_set_replicate replicate_numeral expect_def expect_error_def threadQuantumSleep_def alone_def
  a_run_simps fits_run_busy legal_def in_int_def int_limits

end
