(* ===== verification/Tests.thy ===== *)
theory Tests
  imports Testing
begin

text \<open>
  The tests of the repository as scripts, on the timing the tests are written for (theory \<open>Testing\<close>).
  On each of them the library does what the test expects.
\<close>

subsection \<open>Scheduling\<close>

definition Test1_script :: "(int \<Rightarrow> nat) \<Rightarrow> addr \<Rightarrow> script" where
  "Test1_script polls t1 =
     expect_error (Block 0) @
     expect (Get_quantums 0) 1 @
     expect (Spawn t1) 1 @
     expect Get_total_quantums 1 @
     expect (Get_quantums 0) 1 @
     threadQuantumSleep 0 polls 1
       [[(Tick, Exactly (Started t1))] @
        expect Get_tid 1 @ expect (Get_quantums 1) 1 @ expect (Get_quantums 0) 1 @
        expect Get_total_quantums 2 @ [(Call (Terminate 1), Exactly Continued)]] @
     expect (Get_quantums 0) 2 @
     expect Get_total_quantums 3 @
     expect_error (Get_quantums 1) @
     expect_error (Block 1) @
     expect_error (Resume 1) @
     expect_error (Terminate 1)"

definition Test1 :: "platform \<Rightarrow> (int \<Rightarrow> nat) \<Rightarrow> addr \<Rightarrow> bool" where
  "Test1 K polls t1 =
     (case uthread_init K (- 1337) boot of
        Ret r s \<Rightarrow>
          expect_thread_library_error r boot s \<and> passes K (100 * 1000) (Test1_script polls t1) s
      | _ \<Rightarrow> False)"

definition Test2_script :: "(int \<Rightarrow> nat) \<Rightarrow> addr \<Rightarrow> addr \<Rightarrow> script" where
  "Test2_script polls f g =
     expect (Spawn f) 1 @ expect (Spawn g) 2 @ expect (Block 1) 0 @
     threadQuantumSleep 0 polls 1
       [[(Tick, Exactly (Started g))] @ expect (Resume 1) 0 @ [(Call (Terminate 2), Exactly Continued)]] @
     threadQuantumSleep 0 polls 2
       [[(Tick, Exactly (Started f)), (Call (Terminate 1), Exactly Continued)]] @
     expect Get_total_quantums 5"

definition Test2 :: "platform \<Rightarrow> (int \<Rightarrow> nat) \<Rightarrow> addr \<Rightarrow> addr \<Rightarrow> bool" where
  "Test2 K polls f g = passes K 1000 (Test2_script polls f g) boot"

text \<open>
  One iteration of the main loop of the third test, and of the loops of the two threads. The map of
  quantums to threads that the test compares at the end is checked as it is filled.
\<close>

definition Test3_turn :: "int \<Rightarrow> int \<Rightarrow> int \<Rightarrow> answer \<Rightarrow> script" where
  "Test3_turn tid i quants next =
     expect (Get_quantums tid) i @ expect Get_total_quantums quants @ [(Call (Block tid), Exactly next)]"

definition Test3_round :: "(int \<Rightarrow> nat) \<Rightarrow> int \<Rightarrow> script list \<Rightarrow> script" where
  "Test3_round polls i others =
     expect Get_tid 0 @ expect (Resume 2) 0 @ expect (Resume 1) 0 @ expect (Get_quantums 0) i @
     expect Get_total_quantums (3 * i - 2) @ threadQuantumSleep 0 polls i others"

definition Test3_script :: "(int \<Rightarrow> nat) \<Rightarrow> addr \<Rightarrow> script" where
  "Test3_script polls t =
     expect (Spawn t) 1 @ expect (Spawn t) 2 @
     Test3_round polls 1
       [[(Tick, Exactly (Started t))] @ expect Get_tid 1 @ Test3_turn 1 1 2 (Started t) @
        expect Get_tid 2 @ Test3_turn 2 1 3 Continued] @
     concat (map (\<lambda>i. Test3_round polls i
       [[(Tick, Exactly (Returned 0))] @ Test3_turn 2 i (3 * i - 1) (Returned 0) @
        Test3_turn 1 i (3 * i) Continued])
       [2, 3, 4]) @
     expect Get_total_quantums 13 @ expect Get_total_quantums 13"

definition Test3 :: "platform \<Rightarrow> (int \<Rightarrow> nat) \<Rightarrow> addr \<Rightarrow> bool" where
  "Test3 K polls t = passes K (100 * 1000) (Test3_script polls t) boot"

subsection \<open>Sleeping\<close>

definition Test6_script :: "(int \<Rightarrow> nat) \<Rightarrow> addr \<Rightarrow> script" where
  "Test6_script polls f =
     expect (Spawn f) 1 @ expect Get_total_quantums 1 @
     threadQuantumSleep 0 polls 1
       ([[(Tick, Exactly (Started f))] @ expect Get_total_quantums 2 @ [(Call (Sleep 5), Exactly Continued)]] @
        replicate 4 alone @
        [[(Tick, Exactly (Returned 0))] @ expect Get_total_quantums (2 + 1 + 5) @
         [(Call (Terminate 1), Exactly Continued)]])"

definition Test6 :: "platform \<Rightarrow> (int \<Rightarrow> nat) \<Rightarrow> addr \<Rightarrow> bool" where
  "Test6 K polls f = passes K 1000 (Test6_script polls f) boot"

definition Test7_script :: "(int \<Rightarrow> nat) \<Rightarrow> addr \<Rightarrow> script" where
  "Test7_script polls f =
     expect (Spawn f) 1 @ expect Get_total_quantums 1 @
     threadQuantumSleep 0 polls 1
       ([[(Tick, Exactly (Started f))] @ expect Get_total_quantums 2 @ [(Call (Sleep 5), Exactly Continued)]] @
        replicate 3 alone) @
     expect Get_total_quantums (1 + 1 + 1 + 5 - 2) @
     [(Call (Resume 1), Unchecked)]"

definition Test7 :: "platform \<Rightarrow> (int \<Rightarrow> nat) \<Rightarrow> addr \<Rightarrow> bool" where
  "Test7 K polls f = passes K 1000 (Test7_script polls f) boot"

text \<open>
  The thread of the next two tests, before and after its sleep; \<open>offset\<close> is the static variable of the
  test. After \<open>Sleep\<close> and \<open>Terminate\<close> the main thread goes on in its busy wait.
\<close>

definition falls_asleep :: "addr \<Rightarrow> int \<Rightarrow> script" where
  "falls_asleep f offset =
     [(Tick, Exactly (Started f))] @ expect Get_total_quantums (2 + offset) @
     [(Call (Sleep 5), Exactly Continued)]"

definition wakes_up :: "int \<Rightarrow> script" where
  "wakes_up offset =
     [(Tick, Exactly (Returned 0))] @ expect Get_total_quantums (2 + 1 + 5 + offset) @
     [(Call (Terminate 1), Exactly Continued)]"

definition Test8_script :: "(int \<Rightarrow> nat) \<Rightarrow> addr \<Rightarrow> script" where
  "Test8_script polls f =
     expect (Spawn f) 1 @ expect Get_total_quantums 1 @
     threadQuantumSleep 0 polls 1 (falls_asleep f 0 # replicate 3 alone) @
     [(Call (Block 1), Unchecked), (Call (Resume 1), Unchecked)] @
     threadQuantumSleep 0 polls 5 [alone] @
     expect Get_total_quantums (2 + 1 + 5 - 1) @
     threadQuantumSleep 0 polls 6 [wakes_up 0] @
     expect (Spawn f) 1 @
     expect Get_total_quantums 9 @
     threadQuantumSleep 0 polls 7 (falls_asleep f (9 - 1) # replicate 3 alone) @
     [(Call (Block 1), Unchecked)] @
     threadQuantumSleep 0 polls 11 (replicate 10 alone)"

definition Test8 :: "platform \<Rightarrow> (int \<Rightarrow> nat) \<Rightarrow> addr \<Rightarrow> bool" where
  "Test8 K polls f = passes K (100 * 1000) (Test8_script polls f) boot"

definition Test9_script :: "(int \<Rightarrow> nat) \<Rightarrow> addr \<Rightarrow> script" where
  "Test9_script polls f =
     expect (Spawn f) 1 @ expect Get_total_quantums 1 @
     threadQuantumSleep 0 polls 1 [falls_asleep f 0, alone] @
     [(Call (Block 1), Unchecked)] @
     threadQuantumSleep 0 polls 3 (replicate 4 alone) @
     expect Get_total_quantums (2 + 1 + 5) @
     threadQuantumSleep 0 polls 7 (replicate 5 alone) @
     [(Call (Resume 1), Unchecked)] @
     threadQuantumSleep 0 polls 12 [wakes_up (5 + 1)]"

definition Test9 :: "platform \<Rightarrow> (int \<Rightarrow> nat) \<Rightarrow> addr \<Rightarrow> bool" where
  "Test9 K polls f = passes K (100 * 1000) (Test9_script polls f) boot"

subsection \<open>Two sleepers\<close>

text \<open>
  The two threads of the tests 10 to 15: they sleep at once, and after it check the number of
  quantums against the length of the sleep and terminate. \<open>next\<close> says who goes on.
\<close>

definition starts :: "addr \<Rightarrow> int \<Rightarrow> answer \<Rightarrow> script" where
  "starts f n next = [(Tick, Exactly (Started f)), (Call (Sleep n), Exactly next)]"

definition resumes :: "int \<Rightarrow> int \<Rightarrow> script" where
  "resumes tid n =
     [(Tick, Exactly (Returned 0)), (Call Get_total_quantums, Above n),
      (Call (Terminate tid), Exactly Continued)]"

definition two_sleepers :: "addr \<Rightarrow> addr \<Rightarrow> script" where
  "two_sleepers f g = expect (Spawn f) 1 @ expect (Spawn g) 2 @ expect Get_total_quantums 1"

definition Test10_script :: "(int \<Rightarrow> nat) \<Rightarrow> addr \<Rightarrow> addr \<Rightarrow> script" where
  "Test10_script polls f g =
     two_sleepers f g @
     threadQuantumSleep 0 polls 1
       ([starts f 5 (Started g) @ [(Call (Sleep 5), Exactly Continued)]] @ replicate 3 alone @
        [resumes 1 5, resumes 2 5]) @
     threadQuantumSleep 0 polls 7 (replicate 6 alone)"

definition Test10 :: "platform \<Rightarrow> (int \<Rightarrow> nat) \<Rightarrow> addr \<Rightarrow> addr \<Rightarrow> bool" where
  "Test10 K polls f g = passes K 1000 (Test10_script polls f g) boot"

definition Test11_script :: "(int \<Rightarrow> nat) \<Rightarrow> addr \<Rightarrow> addr \<Rightarrow> script" where
  "Test11_script polls f g =
     two_sleepers f g @
     threadQuantumSleep 0 polls 1
       ([starts f 5 (Started g) @ [(Call (Sleep 10), Exactly Continued)]] @ replicate 3 alone @
        [resumes 1 5, alone]) @
     threadQuantumSleep 0 polls 7 (replicate 3 alone @ [resumes 2 10] @ replicate 7 alone)"

definition Test11 :: "platform \<Rightarrow> (int \<Rightarrow> nat) \<Rightarrow> addr \<Rightarrow> addr \<Rightarrow> bool" where
  "Test11 K polls f g = passes K 1000 (Test11_script polls f g) boot"

definition Test12_script :: "(int \<Rightarrow> nat) \<Rightarrow> addr \<Rightarrow> addr \<Rightarrow> script" where
  "Test12_script polls f g =
     two_sleepers f g @ [(Call (Block 2), Unchecked)] @
     threadQuantumSleep 0 polls 1 ([starts f 5 Continued] @ replicate 4 alone @ [resumes 1 5]) @
     threadQuantumSleep 0 polls 7 (replicate 11 alone)"

definition Test12 :: "platform \<Rightarrow> (int \<Rightarrow> nat) \<Rightarrow> addr \<Rightarrow> addr \<Rightarrow> bool" where
  "Test12 K polls f g = passes K 1000 (Test12_script polls f g) boot"

definition Test13_script :: "(int \<Rightarrow> nat) \<Rightarrow> addr \<Rightarrow> addr \<Rightarrow> script" where
  "Test13_script polls f g =
     two_sleepers f g @ [(Call (Block 1), Unchecked), (Call (Block 2), Unchecked)] @
     threadQuantumSleep 0 polls 1 (replicate 6 alone) @
     threadQuantumSleep 0 polls 7 (replicate 11 alone)"

definition Test13 :: "platform \<Rightarrow> (int \<Rightarrow> nat) \<Rightarrow> addr \<Rightarrow> addr \<Rightarrow> bool" where
  "Test13 K polls f g = passes K 1000 (Test13_script polls f g) boot"

definition Test14_script :: "(int \<Rightarrow> nat) \<Rightarrow> addr \<Rightarrow> addr \<Rightarrow> script" where
  "Test14_script polls f g =
     two_sleepers f g @ [(Call (Block 2), Unchecked)] @
     threadQuantumSleep 0 polls 1 ([starts f 5 Continued] @ replicate 4 alone @ [resumes 1 5]) @
     [(Call (Resume 2), Unchecked)] @
     threadQuantumSleep 0 polls 7 ([starts g 10 Continued] @ replicate 9 alone @ [resumes 2 10])"

definition Test14 :: "platform \<Rightarrow> (int \<Rightarrow> nat) \<Rightarrow> addr \<Rightarrow> addr \<Rightarrow> bool" where
  "Test14 K polls f g = passes K 1000 (Test14_script polls f g) boot"

definition Test15_script :: "(int \<Rightarrow> nat) \<Rightarrow> addr \<Rightarrow> addr \<Rightarrow> script" where
  "Test15_script polls f g =
     two_sleepers f g @ [(Call (Block 1), Unchecked), (Call (Block 2), Unchecked)] @
     threadQuantumSleep 0 polls 1 [alone] @
     [(Call (Resume 1), Unchecked)] @
     threadQuantumSleep 0 polls 2 [starts f 5 Continued] @
     [(Call (Resume 2), Unchecked)] @
     threadQuantumSleep 0 polls 3
       ([starts g 10 Continued] @ replicate 2 alone @ [resumes 1 5] @ replicate 5 alone @
        [resumes 2 10] @ replicate 12 alone)"

definition Test15 :: "platform \<Rightarrow> (int \<Rightarrow> nat) \<Rightarrow> addr \<Rightarrow> addr \<Rightarrow> bool" where
  "Test15 K polls f g = passes K 1000 (Test15_script polls f g) boot"

definition Test16_script :: "(int \<Rightarrow> nat) \<Rightarrow> addr \<Rightarrow> script" where
  "Test16_script polls f =
     expect (Spawn f) 1 @ expect Get_total_quantums 1 @
     threadQuantumSleep 0 polls 1
       [[(Tick, Exactly (Started f))] @ expect Get_total_quantums 2 @ [(Call (Sleep 5), Exactly Continued)]] @
     expect (Terminate 1) 0 @
     threadQuantumSleep 0 polls 2 (replicate 6 alone)"

definition Test16 :: "platform \<Rightarrow> (int \<Rightarrow> nat) \<Rightarrow> addr \<Rightarrow> bool" where
  "Test16 K polls f = passes K 1000 (Test16_script polls f) boot"

subsection \<open>The library passes\<close>

lemma test1:
  assumes "sys_ok K" and "mangling_ok K" and "f \<noteq> 0" and "\<forall>k. polls k \<le> 100000"
  shows "Test1 K polls f"
proof -
  let ?msg = "format_s LIBRARY_ERROR ''non-positive quantum_usecs''"
  have "uthread_init K (- 1337) boot = Ret (- 1) (printed [?msg])"
    by (simp add: uthread_init_def handleErrorLibrary_def stderr_put_def comb_defs handle_consts
        printed_def boot_def)
  moreover have "expect_thread_library_error (- 1) boot (printed [?msg])"
    unfolding expect_thread_library_error_def
    by (intro conjI refl said_text) (simp add: said_def printed_def boot_def error_line)
  moreover have "passes K (100 * 1000) (Test1_script polls f) (printed [?msg])"
    by (rule passesI [OF assms(1,2)]) (use assms(3) polls_bounds [OF assms(4)] in \<open>simp_all add: Test1_script_def script_simps\<close>)
  ultimately show ?thesis by (simp add: Test1_def)
qed

lemma test2:
  assumes "sys_ok K" and "mangling_ok K" and "f \<noteq> 0" and "g \<noteq> 0" and "\<forall>k. polls k \<le> 100000"
  shows "Test2 K polls f g"
  unfolding Test2_def
  by (rule passes_boot [OF assms(1,2)]) (use assms(3,4) polls_bounds [OF assms(5)] in \<open>simp_all add: Test2_script_def script_simps\<close>)

lemma test3:
  assumes "sys_ok K" and "mangling_ok K" and "f \<noteq> 0" and "\<forall>k. polls k \<le> 100000"
  shows "Test3 K polls f"
  unfolding Test3_def
  by (rule passes_boot [OF assms(1,2)])
    (use assms(3) polls_bounds [OF assms(4)] in \<open>simp_all add: Test3_script_def Test3_turn_def Test3_round_def script_simps\<close>)

lemma test6:
  assumes "sys_ok K" and "mangling_ok K" and "f \<noteq> 0" and "\<forall>k. polls k \<le> 100000"
  shows "Test6 K polls f"
  unfolding Test6_def
  by (rule passes_boot [OF assms(1,2)])
    (use assms(3) polls_bounds [OF assms(4)] in \<open>simp_all add: Test6_script_def script_simps\<close>)

lemma test7:
  assumes "sys_ok K" and "mangling_ok K" and "f \<noteq> 0" and "\<forall>k. polls k \<le> 100000"
  shows "Test7 K polls f"
  unfolding Test7_def
  by (rule passes_boot [OF assms(1,2)])
    (use assms(3) polls_bounds [OF assms(4)] in \<open>simp_all add: Test7_script_def script_simps\<close>)

lemma test8:
  assumes "sys_ok K" and "mangling_ok K" and "f \<noteq> 0" and "\<forall>k. polls k \<le> 100000"
  shows "Test8 K polls f"
  unfolding Test8_def
  by (rule passes_boot [OF assms(1,2)])
    (use assms(3) polls_bounds [OF assms(4)] in \<open>simp_all add: Test8_script_def falls_asleep_def wakes_up_def script_simps\<close>)

lemma test9:
  assumes "sys_ok K" and "mangling_ok K" and "f \<noteq> 0" and "\<forall>k. polls k \<le> 100000"
  shows "Test9 K polls f"
  unfolding Test9_def
  by (rule passes_boot [OF assms(1,2)])
    (use assms(3) polls_bounds [OF assms(4)] in \<open>simp_all add: Test9_script_def falls_asleep_def wakes_up_def script_simps\<close>)

lemmas two_sleepers_simps = two_sleepers_def starts_def resumes_def script_simps

lemma test10:
  assumes "sys_ok K" and "mangling_ok K" and "f \<noteq> 0" and "g \<noteq> 0" and "\<forall>k. polls k \<le> 100000"
  shows "Test10 K polls f g"
  unfolding Test10_def
  by (rule passes_boot [OF assms(1,2)])
    (use assms(3,4) polls_bounds [OF assms(5)] in \<open>simp_all add: Test10_script_def two_sleepers_simps\<close>)

lemma test11:
  assumes "sys_ok K" and "mangling_ok K" and "f \<noteq> 0" and "g \<noteq> 0" and "\<forall>k. polls k \<le> 100000"
  shows "Test11 K polls f g"
  unfolding Test11_def
  by (rule passes_boot [OF assms(1,2)])
    (use assms(3,4) polls_bounds [OF assms(5)] in \<open>simp_all add: Test11_script_def two_sleepers_simps\<close>)

lemma test12:
  assumes "sys_ok K" and "mangling_ok K" and "f \<noteq> 0" and "g \<noteq> 0" and "\<forall>k. polls k \<le> 100000"
  shows "Test12 K polls f g"
  unfolding Test12_def
  by (rule passes_boot [OF assms(1,2)])
    (use assms(3,4) polls_bounds [OF assms(5)] in \<open>simp_all add: Test12_script_def two_sleepers_simps\<close>)

lemma test13:
  assumes "sys_ok K" and "mangling_ok K" and "f \<noteq> 0" and "g \<noteq> 0" and "\<forall>k. polls k \<le> 100000"
  shows "Test13 K polls f g"
  unfolding Test13_def
  by (rule passes_boot [OF assms(1,2)])
    (use assms(3,4) polls_bounds [OF assms(5)] in \<open>simp_all add: Test13_script_def two_sleepers_simps\<close>)

lemma test14:
  assumes "sys_ok K" and "mangling_ok K" and "f \<noteq> 0" and "g \<noteq> 0" and "\<forall>k. polls k \<le> 100000"
  shows "Test14 K polls f g"
  unfolding Test14_def
  by (rule passes_boot [OF assms(1,2)])
    (use assms(3,4) polls_bounds [OF assms(5)] in \<open>simp_all add: Test14_script_def two_sleepers_simps\<close>)

lemma test15:
  assumes "sys_ok K" and "mangling_ok K" and "f \<noteq> 0" and "g \<noteq> 0" and "\<forall>k. polls k \<le> 100000"
  shows "Test15 K polls f g"
  unfolding Test15_def
  by (rule passes_boot [OF assms(1,2)])
    (use assms(3,4) polls_bounds [OF assms(5)] in \<open>simp_all add: Test15_script_def two_sleepers_simps\<close>)

lemma test16:
  assumes "sys_ok K" and "mangling_ok K" and "f \<noteq> 0" and "\<forall>k. polls k \<le> 100000"
  shows "Test16 K polls f"
  unfolding Test16_def
  by (rule passes_boot [OF assms(1,2)])
    (use assms(3) polls_bounds [OF assms(4)] in \<open>simp_all add: Test16_script_def script_simps\<close>)

text \<open>
  The library passes the scripted tests of the repository on their schedules: basic functionality and expected errors,
  each with a message (Test1), two threads that block, resume and terminate (Test2), two threads
  that block themselves in turn over 13 quantums (Test3), a thread that sleeps and is resumed,
  blocked or terminated meanwhile (Test6 to Test9, Test16), and two sleepers (Test10 to Test15).
  This holds on every platform whose system calls succeed, for all entry points, and for any number of
  polls up to 100000 in each quantum of the main thread, on the schedule of the scripts.
\<close>

lemma library_passes_scripted_tests:
  assumes "sys_ok K" and "mangling_ok K" and "f \<noteq> 0" and "g \<noteq> 0" and "\<forall>k. polls k \<le> 100000"
  shows "Test1 K polls f \<and> Test2 K polls f g \<and> Test3 K polls f \<and>
    Test6 K polls f \<and> Test7 K polls f \<and> Test8 K polls f \<and> Test9 K polls f \<and>
    Test10 K polls f g \<and> Test11 K polls f g \<and> Test12 K polls f g \<and> Test13 K polls f g \<and>
    Test14 K polls f g \<and> Test15 K polls f g \<and> Test16 K polls f"
  by (intro conjI test1 test2 test3 test6 test7 test8 test9 test10 test11 test12 test13 test14 test15
      test16 assms)

end
