(* ===== verification/Stress.thy ===== *)
theory Stress
  imports Testing
begin

text \<open>
  Programs whose threads never call the library: they are preempted and dispatched again while the
  main program makes its calls. The timer may expire any number of times before each call
  (\<open>rounds\<close>). The two tests of this kind are in theory \<open>RandomTests\<close>.
\<close>

subsection \<open>The main program and the threads\<close>

text \<open>
  How many threads have begun (\<open>ranAtLeastOnce\<close> of Test4: each new thread counts itself in its first
  quantum), and the process.
\<close>

type_synonym stress = "nat \<times> process"

text \<open>
  The main thread is preempted, and the others run, each for a quantum, until it is dispatched again.
  The fuel is the number of threads.
\<close>

fun others :: "platform \<Rightarrow> nat \<Rightarrow> stress \<Rightarrow> stress option" where
  "others K 0 st = None"
| "others K (Suc fuel) (began, s) =
     (case exec K Tick s of
        Ret v s' \<Rightarrow>
          (let began' = (case v of Started ep \<Rightarrow> began + 1 | _ \<Rightarrow> began)
           in if running_thread_tid (sched s') = 0 then Some (began', s') else others K fuel (began', s'))
      | _ \<Rightarrow> None)"

fun rounds :: "platform \<Rightarrow> nat \<Rightarrow> stress \<Rightarrow> stress option" where
  "rounds K 0 st = Some st"
| "rounds K (Suc n) st = Option.bind (others K (nat MAX_THREAD_NUM) st) (rounds K n)"

text \<open>A call of the main program after some rounds, with its result.\<close>

definition main_call :: "platform \<Rightarrow> nat \<Rightarrow> api \<Rightarrow> expectation \<Rightarrow> stress \<Rightarrow> (int \<times> stress) option" where
  "main_call K n f e st =
     Option.bind (rounds K n st) (\<lambda>(began, s).
       case exec K (Call f) s of
         Ret (Returned r) s' \<Rightarrow> if meets e (Returned r) s s' then Some (r, began, s') else None
       | _ \<Rightarrow> None)"

text \<open>The number of threads the first of the two tests spawns, all there can be beside the main thread.\<close>

definition SPAWN_COUNT :: int where
  "SPAWN_COUNT = MAX_THREAD_NUM - 1"

text \<open>A loop of calls; \<open>preempt i\<close> is the number of rounds before the \<open>i\<close>-th call of the test.\<close>

fun main_calls :: "platform \<Rightarrow> (nat \<Rightarrow> nat) \<Rightarrow> nat \<Rightarrow> (api \<times> expectation) list \<Rightarrow> stress \<Rightarrow> stress option" where
  "main_calls K preempt i [] st = Some st"
| "main_calls K preempt i ((f, e) # rest) st =
     Option.bind (main_call K (preempt i) f e st) (\<lambda>(r, st'). main_calls K preempt (Suc i) rest st')"

subsection \<open>A tick turns the cycle\<close>

text \<open>The number of threads in the queue that have not begun.\<close>

definition fresh :: "lib \<Rightarrow> tid \<Rightarrow> bool" where
  "fresh a t \<longleftrightarrow> (\<exists>ep. a_point_of a t = Entry ep)"

definition begun :: "answer \<Rightarrow> nat" where
  "begun v = (case v of Started ep \<Rightarrow> 1 | _ \<Rightarrow> 0)"

lemma tick_cycle:
  assumes "a_inv a" and "\<not> a_masked a" and "a_sleeping a = []" and "a_exec Tick a = (v, a')"
  shows "a_running a' # a_ready a' = rotate1 (a_running a # a_ready a)"
    and "\<not> a_masked a'" and "a_sleeping a' = []"
    and "(a_status a' t = None) = (a_status a t = None)"
    and "fresh a' t = (t \<noteq> a_running a \<and> fresh a t)"
    and "begun v = (if a_ready a = [] then 0 else of_bool (fresh a (hd (a_ready a))))"
proof -
  note core = assms(1) [unfolded a_inv_def]
  obtain th where th: "a_threads a (a_running a) = Some th"
    using a_core_running [OF core] by (auto simp: a_status_def)
  have run: "a_running a \<notin> set (a_ready a)"
    using a_core_ready [OF core] a_core_running [OF core] by simp
  let ?p = "a_update (a_running a) (\<lambda>th. th\<lparr>a_point := Preempted\<rparr>) a"
  have wake: "a_wake ?p = ?p" using assms(3) by (simp add: a_wake_def a_update_def)
  have a': "(v, a') = a_goes_on (a_dispatch (a_enqueue (a_running a) ?p))"
    using assms(2,4) by (simp add: a_tick_def wake)
  then have v: "v = answer_at (a_point_of a' (a_running a'))"
    by (simp add: a_goes_on_def a_point_of_def)
  have a': "a' = snd (a_goes_on (a_dispatch (a_enqueue (a_running a) ?p)))" using a' by (metis snd_conv)
  show cycle: "a_running a' # a_ready a' = rotate1 (a_running a # a_ready a)"
    using assms(3) by (cases "a_ready a") (simp_all add: a' a_enqueue_def a_update_def)
  show "\<not> a_masked a'" "a_sleeping a' = []" using assms(3) by (simp_all add: a' a_update_def)
  show "(a_status a' t = None) = (a_status a t = None)"
    using assms(3) by (auto simp: a' a_goes_on_def a_defs)
  show fresh: "fresh a' t = (t \<noteq> a_running a \<and> fresh a t)" for t
    using assms(3) th by (auto simp: a' fresh_def a_point_of_def a_goes_on_def a_defs split: option.splits)
  have "begun v = of_bool (fresh a' (a_running a'))"
    unfolding v fresh_def begun_def by (cases "a_point_of a' (a_running a')") auto
  also have "\<dots> = (if a_ready a = [] then 0 else of_bool (fresh a (hd (a_ready a))))"
    using cycle run unfolding fresh by (cases "a_ready a") auto
  finally show "begun v = (if a_ready a = [] then 0 else of_bool (fresh a (hd (a_ready a))))" .
qed

definition unseen :: "lib \<Rightarrow> nat" where
  "unseen a = length (filter (fresh a) (a_ready a))"

lemma tick_unseen:
  assumes "a_inv a" and "\<not> a_masked a" and "a_sleeping a = []" and "a_exec Tick a = (v, a')"
  shows "begun v + unseen a' = unseen a"
proof -
  note tick = tick_cycle [OF assms]
  note core = assms(1) [unfolded a_inv_def]
  have run: "a_running a \<notin> set (a_ready a)"
    using a_core_ready [OF core] a_core_running [OF core] by simp
  show ?thesis
  proof (cases "a_ready a")
    case (Cons u q)
    then have ready: "a_ready a' = q @ [a_running a]" using tick(1) by simp
    have "filter (fresh a') q = filter (fresh a) q"
      using run by (intro filter_cong) (auto simp: tick(5) Cons)
    then show ?thesis by (simp add: unseen_def ready tick(5,6) Cons)
  qed (use tick(1,6) in \<open>simp add: unseen_def\<close>)
qed

text \<open>The library between two calls of the main program, with the threads \<open>T\<close> besides it.\<close>

definition spinning :: "int set \<Rightarrow> lib \<Rightarrow> bool" where
  "spinning T a \<longleftrightarrow> \<not> a_masked a \<and> a_sleeping a = [] \<and>
     (\<forall>t. a_status a t \<noteq> None \<longleftrightarrow> t = 0 \<or> int t \<in> T)"

lemma tick_spinning:
  assumes "a_inv a" and "spinning T a" and "a_exec Tick a = (v, a')"
  shows "spinning T a'"
  using tick_cycle(2-4) [OF assms(1) _ _ assms(3)] assms(2) by (simp add: spinning_def)

lemma spawn_spinning:
  assumes "spinning T a" and "f \<noteq> 0" and "a_inv a" and "T \<subseteq> {1..SPAWN_COUNT}"
    and "j \<in> {1..SPAWN_COUNT} - T" and "\<And>i. 1 \<le> i \<Longrightarrow> i < j \<Longrightarrow> i \<in> T"
  shows "\<exists>a'. a_exec (Call (Spawn f)) a = (Returned j, a') \<and> spinning (insert j T) a' \<and>
    a_running a' = a_running a \<and> unseen a' = unseen a + 1"
proof -
  have st: "a_threads a t \<noteq> None \<longleftrightarrow> t = 0 \<or> int t \<in> T" for t
    using assms(1) by (simp add: spinning_def a_status_def)
  obtain t where t: "free_tid a = Some t"
  proof (cases "free_tid a")
    case None
    then have "a_threads a (nat j) \<noteq> None"
      using assms(5) by (simp add: free_tid_None SPAWN_COUNT_def)
    with st [of "nat j"] assms(5) show ?thesis by auto
  qed
  note free = free_tid_Some [OF t]
  have "t \<noteq> 0" "int t \<notin> T" using free(1) st [of t] by auto
  moreover have "\<not> int t < j" using assms(6) [of "int t"] calculation by auto
  moreover have "\<not> j < int t"
  proof
    assume "j < int t"
    then have "nat j < t" using assms(5) by auto
    from free(3) [OF this] st [of "nat j"] assms(5) show False by auto
  qed
  ultimately have j: "int t = j" by simp
  let ?a = "a\<lparr>a_threads := (a_threads a)(t \<mapsto> \<lparr>a_state = READY, a_quantums = 0, a_point = Entry f\<rparr>),
    a_ready := a_ready a @ [t], a_masked := False\<rparr>"
  have e: "a_exec (Call (Spawn f)) a = (Returned j, ?a)"
    using assms(2) by (simp add: a_spawn_def t a_return_def j)
  have "t \<notin> set (a_ready a)"
    using a_core_ready [OF assms(3) [unfolded a_inv_def]] free(1) by (auto simp: a_status_def)
  then have "filter (fresh ?a) (a_ready a) = filter (fresh a) (a_ready a)"
    by (intro filter_cong) (auto simp: fresh_def a_point_of_def)
  then have "unseen ?a = unseen a + 1" by (simp add: unseen_def) (simp add: fresh_def a_point_of_def)
  moreover have "spinning (insert j T) ?a"
    using assms(1) st j \<open>t \<noteq> 0\<close> by (auto simp: spinning_def a_status_def)
  ultimately show ?thesis using e by auto
qed

lemma spawn_full:
  assumes "spinning {1..SPAWN_COUNT} a" and "f \<noteq> 0"
  shows "a_exec (Call (Spawn f)) a = (Returned (- 1), a)"
proof -
  have "a_threads a t \<noteq> None" if "int t < MAX_THREAD_NUM" for t
    using assms(1) that by (cases "t = 0") (auto simp: spinning_def a_status_def SPAWN_COUNT_def)
  then have "free_tid a = None" by (simp add: free_tid_None)
  with assms show ?thesis by (simp add: a_spawn_def a_return_def spinning_def)
qed

text \<open>The other operations on a thread that is waiting.\<close>

lemma other_spinning:
  assumes "spinning T a" and "a_inv a" and "a_running a = 0" and "T \<subseteq> {1..SPAWN_COUNT}" and "j \<in> T"
  shows "\<exists>a'. a_exec (Call (Terminate j)) a = (Returned 0, a') \<and> spinning (T - {j}) a' \<and> a_running a' = 0"
    and "\<exists>a'. a_exec (Call (Block j)) a = (Returned 0, a') \<and> spinning T a' \<and> a_running a' = 0"
    and "\<exists>a'. a_exec (Call (Resume j)) a = (Returned 0, a') \<and> spinning T a' \<and> a_running a' = 0"
proof -
  have j: "0 < j" "j \<noteq> 0" "size_t_of_int j = nat j"
    using assms(4,5) by (force simp: SPAWN_COUNT_def MAX_THREAD_NUM_def size_t_of_int_nonneg int_limits)+
  have st: "a_status a t \<noteq> None \<longleftrightarrow> t = 0 \<or> int t \<in> T" for t
    using assms(1) by (simp add: spinning_def)
  then have "a_status a (nat j) \<noteq> None" using assms(5) j(1) by simp
  moreover have "a_status a (nat j) \<noteq> Some RUNNNING"
    using a_inv_running [OF assms(2)] assms(3) j(1) by simp
  ultimately consider "a_status a (nat j) = Some READY" | "a_status a (nat j) = Some BLOCKED"
    by (cases "a_status a (nat j)") (auto intro: State.exhaust)
  then have waiting: "a_status a (nat j) = Some READY \<or> a_status a (nat j) = Some BLOCKED" by cases auto
  show "\<exists>a'. a_exec (Call (Terminate j)) a = (Returned 0, a') \<and> spinning (T - {j}) a' \<and> a_running a' = 0"
    using waiting assms(1,3) j(1) st
    by (auto simp: a_terminate_def Let_def j(3) a_return_def spinning_def a_forget_def a_status_def
        split: if_splits)
  show "\<exists>a'. a_exec (Call (Block j)) a = (Returned 0, a') \<and> spinning T a' \<and> a_running a' = 0"
    using waiting assms(1,3,5) j(1) st
    by (auto simp: a_block_def Let_def j(3) a_return_def spinning_def a_update_def a_status_def)
  show "\<exists>a'. a_exec (Call (Resume j)) a = (Returned 0, a') \<and> spinning T a' \<and> a_running a' = 0"
    using waiting assms(1,3,5) j(1) st
    by (auto simp: a_resume_def Let_def j(3) a_return_def spinning_def a_update_def a_enqueue_def a_status_def)
qed

subsection \<open>The calls of the main program\<close>

text \<open>
  The process while the main program runs: \<open>k\<close> bounds the number of quantums, \<open>c\<close> is the number of
  threads that have begun or are still to begin.
\<close>

definition stress_inv :: "platform \<Rightarrow> int \<Rightarrow> int set \<Rightarrow> nat \<Rightarrow> stress \<Rightarrow> bool" where
  "stress_inv K k T c st \<longleftrightarrow> lib_reachable K 1 (snd st) \<and> spinning T (view K (snd st)) \<and>
     bounded 0 k (view K (snd st)) \<and> fst st + unseen (view K (snd st)) = c"

lemma stress_inv_mono: "stress_inv K k T c st \<Longrightarrow> k \<le> k' \<Longrightarrow> stress_inv K k' T c st"
  by (auto simp: stress_inv_def bounded_def)

lemma stress_act:
  assumes "stress_inv K k T c (b, s)" and "sys_ok K" and "k + 1 \<le> INT_MAX"
    and "legal act" and "\<And>n. act \<noteq> Call (Sleep n)" and "a_exec act (view K s) = (v, a)"
  obtains s' where "exec K act s = Ret v s'" and "view K s' = a" and "lib_reachable K 1 s'"
    and "bounded 0 (k + 1) (view K s')"
proof -
  have r: "lib_reachable K 1 s" and b: "bounded 0 k (view K s)"
    using assms(1) by (simp_all add: stress_inv_def)
  have ar: "act_arith act (view K s)"
    by (rule bounded_act_arith [OF b]) (use assms(3,5) in auto)
  obtain s' where s': "exec K act s = Ret v s'" "view K s' = a" "lib_reachable K 1 s'"
    by (rule call_returns [OF r assms(2,4) ar assms(6)])
  moreover have "bounded 0 (k + 1) (snd (a_exec act (view K s)))"
    by (rule bounded_exec [OF b]) (use assms(3,5) in auto)
  ultimately show ?thesis using assms(6) that by simp
qed

lemma stress_tick:
  assumes "stress_inv K k T c (b, s)" and "sys_ok K" and "k + 1 \<le> INT_MAX"
  obtains v s' where "exec K Tick s = Ret v s'" and "a_exec Tick (view K s) = (v, view K s')"
    and "stress_inv K (k + 1) T c (b + begun v, s')"
proof -
  obtain v a where e: "a_exec Tick (view K s) = (v, a)" by force
  obtain s' where s': "exec K Tick s = Ret v s'" "view K s' = a" "lib_reachable K 1 s'"
    "bounded 0 (k + 1) (view K s')"
    by (rule stress_act [OF assms _ _ e]) (simp_all add: legal_def)
  have inv: "a_inv (view K s)" and spin: "spinning T (view K s)" and c: "b + unseen (view K s) = c"
    using assms(1) reachable_core by (auto simp: stress_inv_def)
  have "spinning T (view K s')" using tick_spinning [OF inv spin e] s'(2) by simp
  moreover have "begun v + unseen (view K s') = unseen (view K s)"
    using tick_unseen [OF inv _ _ e] spin s'(2) by (simp add: spinning_def del: view_sched)
  ultimately show ?thesis
    using that [of v s'] e s' c by (simp add: stress_inv_def del: view_sched)
qed

lemma others_Suc:
  assumes "exec K Tick s = Ret v s'"
  shows "others K (Suc n) (b, s) =
    (if running_thread_tid (sched s') = 0 then Some (b + begun v, s') else others K n (b + begun v, s'))"
  using assms by (simp add: begun_def Let_def split: answer.split)

declare others.simps(2) [simp del]

text \<open>Another thread runs; \<open>p\<close> are those before the main thread in the queue.\<close>

lemma others_return:
  assumes "stress_inv K k T c (b, s)" and "sys_ok K"
    and "a_running (view K s) \<noteq> 0" and "a_ready (view K s) = p @ 0 # r" and "length p < n"
    and "\<forall>t \<in> set (0 # r). \<not> fresh (view K s) t" and "k + int n \<le> INT_MAX"
  shows "\<exists>s'. others K n (b, s) = Some (c, s') \<and> stress_inv K (k + int n) T c (c, s') \<and>
    a_running (view K s') = 0"
  using assms
proof (induction p arbitrary: n b s k r)
  case Nil
  then obtain n' where n: "n = Suc n'" by (cases n) auto
  obtain v s' where s': "exec K Tick s = Ret v s'" "a_exec Tick (view K s) = (v, view K s')"
    "stress_inv K (k + 1) T c (b + begun v, s')"
    by (rule stress_tick [OF Nil.prems(1,2)]) (use Nil.prems(7) n in auto)
  have inv: "a_inv (view K s)" and spin: "spinning T (view K s)"
    using Nil.prems(1) reachable_core by (auto simp: stress_inv_def)
  note tick = tick_cycle [OF inv _ _ s'(2), unfolded Nil.prems(4)]
  have run: "a_running (view K s') = 0" "a_ready (view K s') = r @ [a_running (view K s)]"
    using tick(1) spin by (simp_all add: spinning_def del: view_sched)
  have "unseen (view K s') = 0"
    using tick(5) spin Nil.prems(6) unfolding unseen_def run(2)
    by (simp add: spinning_def filter_empty_conv del: view_sched)
  then have "b + begun v = c" using s'(3) by (simp add: stress_inv_def del: view_sched)
  moreover have "stress_inv K (k + int n) T c (b + begun v, s')"
    using stress_inv_mono [OF s'(3)] n by simp
  ultimately show ?case using others_Suc [OF s'(1)] run(1) n by simp
next
  case (Cons u p)
  then obtain n' where n: "n = Suc n'" by (cases n) auto
  obtain v s' where s': "exec K Tick s = Ret v s'" "a_exec Tick (view K s) = (v, view K s')"
    "stress_inv K (k + 1) T c (b + begun v, s')"
    by (rule stress_tick [OF Cons.prems(1,2)]) (use Cons.prems(7) n in auto)
  have inv: "a_inv (view K s)" and spin: "spinning T (view K s)"
    using Cons.prems(1) reachable_core by (auto simp: stress_inv_def)
  note tick = tick_cycle [OF inv _ _ s'(2), unfolded Cons.prems(4)]
  have run: "a_running (view K s') = u" "a_ready (view K s') = p @ 0 # (r @ [a_running (view K s)])"
    using tick(1) spin by (simp_all add: spinning_def del: view_sched)
  have "u \<noteq> 0" using a_core_distinct [OF inv [unfolded a_inv_def]] Cons.prems(4) by auto
  have "\<forall>t \<in> set (0 # r @ [a_running (view K s)]). \<not> fresh (view K s') t"
    using tick(5) spin Cons.prems(6) by (auto simp: spinning_def simp del: view_sched)
  moreover have k: "k + 1 + int n' = k + int n" using n by simp
  ultimately show ?case
    using Cons.IH [OF s'(3) Cons.prems(2) _ run(2), of n'] Cons.prems(5,7) run(1) \<open>u \<noteq> 0\<close>
    unfolding k n others_Suc [OF s'(1)] by simp
qed

lemma ready_length:
  assumes "a_inv a" and "a_running a = 0"
  shows "length (a_ready a) < nat MAX_THREAD_NUM"
proof -
  note core = assms(1) [unfolded a_inv_def]
  have "set (a_ready a) \<subseteq> {0<..<nat MAX_THREAD_NUM}"
  proof
    fix t
    assume t: "t \<in> set (a_ready a)"
    then have "a_status a t = Some READY" using a_core_ready [OF core] by simp
    then show "t \<in> {0<..<nat MAX_THREAD_NUM}"
      using a_core_tid [OF core, of t] a_inv_running [OF assms(1), of 0] assms(2)
      by (cases "t = 0") auto
  qed
  then have "card (set (a_ready a)) \<le> card {0<..<nat MAX_THREAD_NUM}" by (intro card_mono) simp_all
  then show ?thesis
    using distinct_card [OF a_core_distinct [OF core]] by (simp add: MAX_THREAD_NUM_def)
qed

lemma others_ok:
  assumes "stress_inv K k T c (b, s)" and "sys_ok K" and "a_running (view K s) = 0"
    and "k + 100 \<le> INT_MAX"
  shows "\<exists>s'. others K (nat MAX_THREAD_NUM) (b, s) = Some (c, s') \<and> stress_inv K (k + 100) T c (c, s') \<and>
    a_running (view K s') = 0"
proof -
  have n: "nat MAX_THREAD_NUM = Suc 99" by (simp add: MAX_THREAD_NUM_def)
  obtain v s' where s': "exec K Tick s = Ret v s'" "a_exec Tick (view K s) = (v, view K s')"
    "stress_inv K (k + 1) T c (b + begun v, s')"
    by (rule stress_tick [OF assms(1,2)]) (use assms(4) in auto)
  have inv: "a_inv (view K s)" and spin: "spinning T (view K s)"
    using assms(1) reachable_core by (auto simp: stress_inv_def)
  note len = ready_length [OF inv assms(3)]
  show ?thesis
  proof (cases "a_ready (view K s)")
    case Nil
    note tick = tick_cycle [OF inv _ _ s'(2), unfolded Nil assms(3)]
    have run: "a_running (view K s') = 0" "a_ready (view K s') = []"
      using tick(1) spin by (simp_all add: spinning_def del: view_sched)
    then have "b + begun v = c" using s'(3) by (simp add: stress_inv_def unseen_def del: view_sched)
    moreover have "stress_inv K (k + 100) T c (b + begun v, s')"
      using stress_inv_mono [OF s'(3)] by simp
    ultimately show ?thesis unfolding n others_Suc [OF s'(1)] using run(1) by simp
  next
    case (Cons u q)
    note tick = tick_cycle [OF inv _ _ s'(2), unfolded Cons assms(3)]
    have run: "a_running (view K s') = u" "a_ready (view K s') = q @ 0 # []"
      using tick(1) spin by (simp_all add: spinning_def del: view_sched)
    have "u \<noteq> 0" using a_inv_running [OF inv, of u] a_core_ready [OF inv [unfolded a_inv_def], of u] Cons assms(3)
      by auto
    have "\<forall>t \<in> set (0 # []). \<not> fresh (view K s') t"
      using tick(5) spin by (simp add: spinning_def del: view_sched)
    moreover have "length q < 99" using len Cons by (simp add: MAX_THREAD_NUM_def)
    ultimately show ?thesis
      using others_return [OF s'(3) assms(2) _ run(2), of 99] run(1) \<open>u \<noteq> 0\<close> assms(4) n
        others_Suc [OF s'(1), of 99 b] by (simp add: add.assoc)
  qed
qed

lemma rounds_ok:
  assumes "stress_inv K k T c (b, s)" and "sys_ok K" and "a_running (view K s) = 0"
    and "k + 100 * int n \<le> INT_MAX"
  shows "\<exists>b' s'. rounds K n (b, s) = Some (b', s') \<and> stress_inv K (k + 100 * int n) T c (b', s') \<and>
    a_running (view K s') = 0"
  using assms
proof (induction n arbitrary: b s k)
  case (Suc n)
  obtain s' where s': "others K (nat MAX_THREAD_NUM) (b, s) = Some (c, s')"
    "stress_inv K (k + 100) T c (c, s')" "a_running (view K s') = 0"
    using others_ok [OF Suc.prems(1-3)] Suc.prems(4) by auto
  have "k + 100 + 100 * int n = k + 100 * int (Suc n)" by simp
  with Suc.IH [OF s'(2) Suc.prems(2) s'(3)] Suc.prems(4) s'(1) show ?case by simp
qed simp

lemma main_call_ok:
  assumes "stress_inv K k T c st" and "sys_ok K" and "a_running (view K (snd st)) = 0"
    and "n \<le> 1000" and "k + 100001 \<le> INT_MAX" and "legal (Call f)" and "\<And>n. f \<noteq> Sleep n"
    and call: "\<And>a. a_inv a \<Longrightarrow> spinning T a \<Longrightarrow> a_running a = 0 \<Longrightarrow>
      \<exists>a'. a_exec (Call f) a = (Returned r, a') \<and> spinning T' a' \<and> a_running a' = 0 \<and> R (unseen a) (unseen a')"
    and e: "fits e (Returned r)"
  shows "\<exists>st' c'. main_call K n f e st = Some (r, st') \<and> stress_inv K (k + 100001) T' c' st' \<and>
    a_running (view K (snd st')) = 0 \<and> (\<exists>x y. R x y \<and> c' + x = c + y)"
proof -
  obtain b s where st: "st = (b, s)" by force
  have n: "k + 100 * int n \<le> k + 100000" using assms(4) by simp
  obtain b1 s1 where s1: "rounds K n (b, s) = Some (b1, s1)" "stress_inv K (k + 100 * int n) T c (b1, s1)"
    "a_running (view K s1) = 0"
    using rounds_ok [OF assms(1) [unfolded st] assms(2), of n] assms(3,5) n by (auto simp: st)
  have inv: "lib_reachable K 1 s1" "spinning T (view K s1)" "b1 + unseen (view K s1) = c"
    using s1(2) by (simp_all add: stress_inv_def)
  obtain a' where a': "a_exec (Call f) (view K s1) = (Returned r, a')" "spinning T' a'" "a_running a' = 0"
    "R (unseen (view K s1)) (unseen a')"
    using call [OF reachable_core [OF inv(1)] inv(2) s1(3)] by blast
  obtain s2 where s2: "exec K (Call f) s1 = Ret (Returned r) s2" "view K s2 = a'" "lib_reachable K 1 s2"
    "bounded 0 (k + 100 * int n + 1) (view K s2)"
    by (rule stress_act [OF s1(2) assms(2) _ assms(6) _ a'(1)]) (use assms(5,7) n in auto)
  have wt: "well_typed (Call f)" using assms(6) by (simp add: legal_def)
  have "meets e (Returned r) s1 s2"
  proof (cases e)
    case Library_error
    with e have "r = - 1" by simp
    with failure_said [OF inv(1) wt] s2(1) show ?thesis
      by (simp add: Library_error expect_thread_library_error_def said_text)
  qed (use e in simp_all)
  then have "main_call K n f e st = Some (r, b1, s2)" by (simp add: main_call_def st s1(1) s2(1))
  moreover have "stress_inv K (k + 100001) T' (b1 + unseen a') (b1, s2)"
    using s2 a'(2) n by (auto simp: stress_inv_def bounded_def)
  ultimately show ?thesis using s2(2) a'(3,4) inv(3) by force
qed

lemma spawn_call:
  assumes "stress_inv K k T c st" and "sys_ok K" and "a_running (view K (snd st)) = 0"
    and "n \<le> 1000" and "k + 100001 \<le> INT_MAX" and "f \<noteq> 0" and "T \<subseteq> {1..SPAWN_COUNT}"
    and "j \<in> {1..SPAWN_COUNT} - T" and "\<And>i. 1 \<le> i \<Longrightarrow> i < j \<Longrightarrow> i \<in> T" and "fits e (Returned j)"
  shows "\<exists>st'. main_call K n (Spawn f) e st = Some (j, st') \<and>
    stress_inv K (k + 100001) (insert j T) (c + 1) st' \<and> a_running (view K (snd st')) = 0"
proof -
  have "legal (Call (Spawn f))" by (simp add: legal_def)
  from main_call_ok [OF assms(1-5) this _ _ assms(10), where R = "\<lambda>x y. y = x + 1" and T' = "insert j T"]
    spawn_spinning [OF _ assms(6) _ assms(7-9)]
  show ?thesis by fastforce
qed

lemma other_call:
  assumes "stress_inv K k T c st" and "sys_ok K" and "a_running (view K (snd st)) = 0"
    and "n \<le> 1000" and "k + 100001 \<le> INT_MAX" and "T \<subseteq> {1..SPAWN_COUNT}" and "j \<in> T"
    and "f = Terminate j \<and> T' = T - {j} \<or> f \<in> {Block j, Resume j} \<and> T' = T"
  shows "\<exists>st' c'. main_call K n f (Exactly (Returned 0)) st = Some (0, st') \<and>
    stress_inv K (k + 100001) T' c' st' \<and> a_running (view K (snd st')) = 0"
proof -
  have j: "1 \<le> j" "j \<le> 99" using assms(6,7) by (auto simp: SPAWN_COUNT_def MAX_THREAD_NUM_def)
  then have l: "legal (Call f)" using assms(8) by (auto simp: legal_def in_int_def int_limits)
  have "\<exists>a'. a_exec (Call f) a = (Returned 0, a') \<and> spinning T' a' \<and> a_running a' = 0 \<and> True"
    if "a_inv a" "spinning T a" "a_running a = 0" for a
    using other_spinning [OF that(2,1,3) assms(6,7)] assms(8) by fastforce
  moreover have "f \<noteq> Sleep m" for m using assms(8) by auto
  ultimately obtain st' c' where "main_call K n f (Exactly (Returned 0)) st = Some (0, st')"
    "stress_inv K (k + 100001) T' c' st'" "a_running (view K (snd st')) = 0"
    using main_call_ok [OF assms(1-5) l, where R = "\<lambda>x y. True" and T' = T' and e = "Exactly (Returned 0)" and r = 0]
    by auto
  then show ?thesis by blast
qed

lemma full_call:
  assumes "stress_inv K k {1..SPAWN_COUNT} c st" and "sys_ok K" and "a_running (view K (snd st)) = 0"
    and "n \<le> 1000" and "k + 100001 \<le> INT_MAX" and "f \<noteq> 0"
  shows "\<exists>st' c'. main_call K n (Spawn f) Library_error st = Some (- 1, st') \<and>
    stress_inv K (k + 100001) {1..SPAWN_COUNT} c' st' \<and> a_running (view K (snd st')) = 0"
proof -
  have "legal (Call (Spawn f))" by (simp add: legal_def)
  moreover have "\<exists>a'. a_exec (Call (Spawn f)) a = (Returned (- 1), a') \<and> spinning {1..SPAWN_COUNT} a' \<and>
      a_running a' = 0 \<and> True" if "spinning {1..SPAWN_COUNT} a" "a_running a = 0" for a
    using spawn_full [OF that(1) assms(6)] that by auto
  ultimately obtain st' c' where "main_call K n (Spawn f) Library_error st = Some (- 1, st')"
    "stress_inv K (k + 100001) {1..SPAWN_COUNT} c' st'" "a_running (view K (snd st')) = 0"
    using main_call_ok [OF assms(1-5), where R = "\<lambda>x y. True" and T' = "{1..SPAWN_COUNT}"
        and e = Library_error and r = "- 1" and f = "Spawn f"]
    by auto
  then show ?thesis by blast
qed

end
