(* ===== verification/RandomTests.thy ===== *)
theory RandomTests
  imports Stress
begin

text \<open>
  The tests with random numbers, Test4 and Test5. What the generator draws is a parameter, and the
  timer may expire before every call. A thread that is dispatched for the first time counts itself
  in Test4 before its quantum ends.
\<close>

subsection \<open>The definition of Test4\<close>

text \<open>The loop that waits until all threads have begun.\<close>

fun wait_ran :: "platform \<Rightarrow> nat \<Rightarrow> nat \<Rightarrow> stress \<Rightarrow> stress option" where
  "wait_ran K count fuel (began, s) =
     (if began = count then Some (began, s)
      else case fuel of 0 \<Rightarrow> None
        | Suc fuel' \<Rightarrow> Option.bind (others K (nat MAX_THREAD_NUM) (began, s)) (wait_ran K count fuel'))"

definition spawns :: "addr \<Rightarrow> int list \<Rightarrow> (api \<times> expectation) list" where
  "spawns f tids = map (\<lambda>i. (Spawn f, Exactly (Returned i))) tids"

definition terminates :: "int list \<Rightarrow> (api \<times> expectation) list" where
  "terminates tids = map (\<lambda>tid. (Terminate tid, Exactly (Returned 0))) tids"

text \<open>\<open>shuffled\<close> is what \<open>std::shuffle\<close> makes of the list of tids; a third of it is removed.\<close>

definition Test4 :: "platform \<Rightarrow> (nat \<Rightarrow> nat) \<Rightarrow> int list \<Rightarrow> addr \<Rightarrow> bool" where
  "Test4 K preempt shuffled f =
     (let spawnedThreads = [1..SPAWN_COUNT];
          threadsToRemove = take (nat (SPAWN_COUNT * 1 div 3)) shuffled;
          last = Option.bind (initializeLibrary K 1 boot) (\<lambda>s.
            Option.bind (main_calls K preempt 0 (spawns f spawnedThreads) (0, s)) (\<lambda>st.
            Option.bind (wait_ran K (nat SPAWN_COUNT) 1 st)
              (main_calls K preempt 100
                 ((Spawn f, Library_error) # terminates threadsToRemove @ spawns f (sort threadsToRemove)))))
      in case last of None \<Rightarrow> False | Some (began, s) \<Rightarrow> exits K s)"

subsection \<open>The definition of Test5\<close>

text \<open>
  \<open>draw i a b\<close> is the \<open>i\<close>-th number that \<open>uniform_int_distribution(a, b)\<close> draws; the active threads are
  a sorted list, as the \<open>std::set\<close> of the test iterates.
\<close>

definition in_range :: "(nat \<Rightarrow> int \<Rightarrow> int \<Rightarrow> int) \<Rightarrow> bool" where
  "in_range draw \<longleftrightarrow> (\<forall>i a b. a \<le> b \<longrightarrow> a \<le> draw i a b \<and> draw i a b \<le> b)"

definition getRandomActiveThread :: "(nat \<Rightarrow> int \<Rightarrow> int \<Rightarrow> int) \<Rightarrow> nat \<Rightarrow> int list \<Rightarrow> int" where
  "getRandomActiveThread draw i activeThreads =
     activeThreads ! nat (draw i 0 (int (length activeThreads) - 1))"

definition doOperation ::
  "platform \<Rightarrow> nat \<Rightarrow> (nat \<Rightarrow> int \<Rightarrow> int \<Rightarrow> int) \<Rightarrow> nat \<Rightarrow> addr \<Rightarrow> int list \<times> stress \<Rightarrow> (int list \<times> stress) option"
where
  "doOperation K n draw i func = (\<lambda>(activeThreads, st).
     let option = draw (2 * i) 1 10 in
     if activeThreads = [] \<or> (option = 1 \<and> int (length activeThreads) < MAX_THREAD_NUM - 1)
     then map_option (\<lambda>(tid, st'). (insort_insert tid activeThreads, st')) (main_call K n (Spawn func) (Above 0) st)
     else let tid = getRandomActiveThread draw (2 * i + 1) activeThreads in
       if option = 3
       then map_option (\<lambda>(r, st'). (removeAll tid activeThreads, st'))
              (main_call K n (Terminate tid) (Exactly (Returned 0)) st)
       else if option = 4
       then map_option (\<lambda>(r, st'). (activeThreads, st')) (main_call K n (Block tid) (Exactly (Returned 0)) st)
       else if option = 5
       then map_option (\<lambda>(r, st'). (activeThreads, st')) (main_call K n (Resume tid) (Exactly (Returned 0)) st)
       else Some (activeThreads, st))"

fun doOperations ::
  "platform \<Rightarrow> (nat \<Rightarrow> nat) \<Rightarrow> (nat \<Rightarrow> int \<Rightarrow> int \<Rightarrow> int) \<Rightarrow> addr \<Rightarrow> nat \<Rightarrow> int list \<times> stress \<Rightarrow>
     (int list \<times> stress) option" where
  "doOperations K preempt draw f 0 x = Some x"
| "doOperations K preempt draw f (Suc i) x =
     Option.bind (doOperation K (preempt i) draw i f x) (doOperations K preempt draw f i)"

definition Test5 :: "platform \<Rightarrow> (nat \<Rightarrow> nat) \<Rightarrow> (nat \<Rightarrow> int \<Rightarrow> int \<Rightarrow> int) \<Rightarrow> addr \<Rightarrow> bool" where
  "Test5 K preempt draw f =
     (let last = Option.bind (initializeLibrary K 1 boot) (\<lambda>s. doOperations K preempt draw f 1000 ([], 0, s))
      in case last of None \<Rightarrow> False | Some (activeThreads, began, s) \<Rightarrow> exits K s)"

subsection \<open>Test4 passes\<close>

lemma main_calls_append:
  "main_calls K preempt i (xs @ ys) st =
     Option.bind (main_calls K preempt i xs st) (main_calls K preempt (i + length xs) ys)"
proof (induction xs arbitrary: i st)
  case (Cons x xs)
  show ?case by (cases x) (auto simp: Cons split: Option.bind_split)
qed simp

lemma spawns_ok:
  assumes "stress_inv K k T c st" and "sys_ok K" and "a_running (view K (snd st)) = 0"
    and "\<forall>i. preempt i \<le> 1000" and "k + 100001 * int (length js) \<le> INT_MAX" and "f \<noteq> 0"
    and "T \<subseteq> {1..SPAWN_COUNT}" and "{1..SPAWN_COUNT} - T = set js" and "sorted_wrt (<) js"
  shows "\<exists>st'. main_calls K preempt i (spawns f js) st = Some st' \<and>
    stress_inv K (k + 100001 * int (length js)) {1..SPAWN_COUNT} (c + length js) st' \<and>
    a_running (view K (snd st')) = 0"
  using assms
proof (induction js arbitrary: k T c st i)
  case Nil
  then have "T = {1..SPAWN_COUNT}" by auto
  with Nil show ?case by (simp add: spawns_def)
next
  case (Cons j js)
  have j: "j \<in> {1..SPAWN_COUNT} - T" using Cons.prems(8) by simp
  have less: "i \<in> T" if "1 \<le> i" "i < j" for i
    using that Cons.prems(8,9) j by (cases "i \<in> set (j # js)") fastforce+
  obtain st' where st': "main_call K (preempt i) (Spawn f) (Exactly (Returned j)) st = Some (j, st')"
    "stress_inv K (k + 100001) (insert j T) (c + 1) st'" "a_running (view K (snd st')) = 0"
    using spawn_call [OF Cons.prems(1-3) _ _ Cons.prems(6,7) j less, of "preempt i" "Exactly (Returned j)"]
      Cons.prems(4,5) by auto
  have "{1..SPAWN_COUNT} - insert j T = set js" using Cons.prems(8,9) by auto
  moreover have k: "k + 100001 + 100001 * int (length js) = k + 100001 * int (length (j # js))" by simp
  ultimately obtain st'' where
    "main_calls K preempt (Suc i) (spawns f js) st' = Some st''"
    "stress_inv K (k + 100001 * int (length (j # js))) {1..SPAWN_COUNT} (c + 1 + length js) st''"
    "a_running (view K (snd st'')) = 0"
    using Cons.IH [OF st'(2) Cons.prems(2) st'(3) Cons.prems(4) _ Cons.prems(6), of "Suc i", unfolded k]
      j Cons.prems(5,7,9) by (metis insert_subset sorted_wrt.simps(2) DiffD1)
  with st'(1) show ?case by (simp add: spawns_def)
qed

lemma terminates_ok:
  assumes "stress_inv K k T c st" and "sys_ok K" and "a_running (view K (snd st)) = 0"
    and "\<forall>i. preempt i \<le> 1000" and "k + 100001 * int (length js) \<le> INT_MAX"
    and "T \<subseteq> {1..SPAWN_COUNT}" and "set js \<subseteq> T" and "distinct js"
  shows "\<exists>st' c'. main_calls K preempt i (terminates js) st = Some st' \<and>
    stress_inv K (k + 100001 * int (length js)) (T - set js) c' st' \<and> a_running (view K (snd st')) = 0"
  using assms
proof (induction js arbitrary: k T c st i)
  case Nil
  then show ?case by (auto simp: terminates_def)
next
  case (Cons j js)
  have p: "preempt i \<le> 1000" "k + 100001 \<le> INT_MAX" "j \<in> T" using Cons.prems(4,5,7) by auto
  obtain st' c' where st': "main_call K (preempt i) (Terminate j) (Exactly (Returned 0)) st = Some (0, st')"
    "stress_inv K (k + 100001) (T - {j}) c' st'" "a_running (view K (snd st')) = 0"
    using other_call [OF Cons.prems(1-3) p(1,2) Cons.prems(6) p(3)] by blast
  have k: "k + 100001 + 100001 * int (length js) = k + 100001 * int (length (j # js))" by simp
  have T: "T - {j} - set js = T - set (j # js)" by auto
  have sub: "T - {j} \<subseteq> {1..SPAWN_COUNT}" "set js \<subseteq> T - {j}" "distinct js" using Cons.prems(6-8) by auto
  obtain st'' c'' where
    "main_calls K preempt (Suc i) (terminates js) st' = Some st''"
    "stress_inv K (k + 100001 * int (length (j # js))) (T - set (j # js)) c'' st''"
    "a_running (view K (snd st'')) = 0"
    using Cons.IH [OF st'(2) Cons.prems(2) st'(3) Cons.prems(4) _ sub, of "Suc i", unfolded k T] Cons.prems(5)
    by blast
  with st'(1) show ?case
    by (simp add: terminates_def del: view_sched) blast
qed

lemma wait_ok:
  assumes "stress_inv K k T c (b, s)" and "sys_ok K" and "a_running (view K s) = 0" and "k + 100 \<le> INT_MAX"
  shows "\<exists>st'. wait_ran K c 1 (b, s) = Some st' \<and> stress_inv K (k + 100) T c st' \<and>
    a_running (view K (snd st')) = 0"
proof (cases "b = c")
  case True
  with assms stress_inv_mono [OF assms(1), of "k + 100"] show ?thesis by simp
next
  case False
  with others_ok [OF assms] show ?thesis by auto
qed

lemma stress_init:
  assumes "sys_ok K" and "mangling_ok K"
  obtains s where "initializeLibrary K 1 boot = Some s" and "stress_inv K 1 {} 0 (0, s)"
    and "a_running (view K s) = 0"
proof -
  obtain s where s: "initializeLibrary K 1 (printed []) = Some s" "lib_reachable K 1 s" "view K s = a_init"
    by (rule initializeLibrary_returns [OF assms, of 1 "[]"]) (simp_all add: in_int_def int_limits)
  have "stress_inv K 1 {} 0 (0, s)"
    using s(2) bounded_init
    by (auto simp: stress_inv_def s(3) spinning_def a_status_def unseen_def a_init_def simp del: view_sched)
  with s that show ?thesis by (simp add: printed_Nil a_init_def del: view_sched)
qed

text \<open>All threads are spawned and have begun; then a third of them is replaced.\<close>

lemma all_begun:
  assumes "stress_inv K 1 {} 0 (0, s)" and "sys_ok K" and "a_running (view K s) = 0"
    and "f \<noteq> 0" and "\<forall>i. preempt i \<le> 1000"
  obtains st1 st2 where "main_calls K preempt 0 (spawns f [1..SPAWN_COUNT]) (0, s) = Some st1"
    and "wait_ran K (nat SPAWN_COUNT) 1 st1 = Some st2"
    and "stress_inv K 10000100 {1..SPAWN_COUNT} 99 st2" and "a_running (view K (snd st2)) = 0"
proof -
  have up: "sorted_wrt (<) [1..SPAWN_COUNT]" "length [1..SPAWN_COUNT] = 99" "nat SPAWN_COUNT = 99"
    by (simp_all add: strict_sorted_iff SPAWN_COUNT_def MAX_THREAD_NUM_def)
  have k: "1 + 100001 * int (length [1..SPAWN_COUNT]) \<le> INT_MAX" unfolding up(2) by (simp add: int_limits)
  have js: "{1..SPAWN_COUNT} - {} = set [1..SPAWN_COUNT]" by simp
  have main: "a_running (view K (snd (0 :: nat, s))) = 0" using assms(3) by simp
  from spawns_ok [OF assms(1,2) main assms(5) k assms(4) empty_subsetI js up(1), of 0]
  obtain st1 where st1: "main_calls K preempt 0 (spawns f [1..SPAWN_COUNT]) (0, s) = Some st1"
    "stress_inv K (1 + 100001 * int 99) {1..SPAWN_COUNT} (0 + 99) st1" "a_running (view K (snd st1)) = 0"
    unfolding up(2) by (elim exE conjE)
  obtain b s1 where b: "st1 = (b, s1)" by (cases st1)
  have "stress_inv K 10000000 {1..SPAWN_COUNT} 99 (b, s1)"
    using stress_inv_mono [OF st1(2), of 10000000] by (simp add: b)
  from wait_ok [OF this assms(2)] st1(1,3) that show ?thesis by (auto simp: b up(3) int_limits)
qed

lemma replaced:
  assumes "stress_inv K 10000100 {1..SPAWN_COUNT} 99 st" and "sys_ok K" and "a_running (view K (snd st)) = 0"
    and "f \<noteq> 0" and "\<forall>i. preempt i \<le> 1000"
    and rem: "set rem \<subseteq> {1..SPAWN_COUNT}" "distinct rem" and len: "length rem \<le> 33"
  obtains st' k c where
    "main_calls K preempt 100 ((Spawn f, Library_error) # terminates rem @ spawns f (sort rem)) st = Some st'"
    and "stress_inv K k {1..SPAWN_COUNT} c st'"
proof -
  have "10000100 + 100001 \<le> INT_MAX" by (simp add: int_limits)
  from full_call [OF assms(1-3) spec [OF assms(5)] this assms(4), of 100]
  obtain st3 c3 where st3: "main_call K (preempt 100) (Spawn f) Library_error st = Some (- 1, st3)"
    "stress_inv K (10000100 + 100001) {1..SPAWN_COUNT} c3 st3" "a_running (view K (snd st3)) = 0"
    by (elim exE conjE)
  have k: "10000100 + 100001 + 100001 * int (length rem) \<le> INT_MAX" using len by (simp add: int_limits)
  from terminates_ok [OF st3(2) assms(2) st3(3) assms(5) k subset_refl rem, of 101]
  obtain st4 c4 where st4: "main_calls K preempt 101 (terminates rem) st3 = Some st4"
    "stress_inv K (10000100 + 100001 + 100001 * int (length rem)) ({1..SPAWN_COUNT} - set rem) c4 st4"
    "a_running (view K (snd st4)) = 0"
    by (elim exE conjE)
  have sort: "sorted_wrt (<) (sort rem)" "{1..SPAWN_COUNT} - ({1..SPAWN_COUNT} - set rem) = set (sort rem)"
    using rem by (auto simp: strict_sorted_iff)
  have k: "10000100 + 100001 + 100001 * int (length rem) + 100001 * int (length (sort rem)) \<le> INT_MAX"
    using len by (simp add: int_limits)
  from spawns_ok [OF st4(2) assms(2) st4(3) assms(5) k assms(4) Diff_subset sort(2,1),
      of "101 + length (terminates rem)"]
  obtain st5 k c where
    st5: "main_calls K preempt (101 + length (terminates rem)) (spawns f (sort rem)) st4 = Some st5"
    "stress_inv K k {1..SPAWN_COUNT} c st5"
    by (elim exE conjE)
  have "main_calls K preempt 100 ((Spawn f, Library_error) # terminates rem @ spawns f (sort rem)) st = Some st5"
    using st4(1) st5(1) by (simp add: st3(1) main_calls_append)
  with st5(2) that show ?thesis by blast
qed

lemma test4:
  assumes "sys_ok K" and "mangling_ok K" and "f \<noteq> 0" and "\<forall>i. preempt i \<le> 1000"
    and "distinct shuffled" and "set shuffled = {1..SPAWN_COUNT}"
  shows "Test4 K preempt shuffled f"
proof -
  let ?rem = "take (nat (SPAWN_COUNT * 1 div 3)) shuffled"
  have rem: "set ?rem \<subseteq> {1..SPAWN_COUNT}" "distinct ?rem" "length ?rem \<le> 33"
    using assms(5,6) set_take_subset [of _ shuffled] by (auto simp: SPAWN_COUNT_def MAX_THREAD_NUM_def)
  obtain s where s: "initializeLibrary K 1 boot = Some s" "stress_inv K 1 {} 0 (0, s)"
    "a_running (view K s) = 0"
    by (rule stress_init [OF assms(1,2)])
  obtain st1 st2 where st: "main_calls K preempt 0 (spawns f [1..SPAWN_COUNT]) (0, s) = Some st1"
    "wait_ran K (nat SPAWN_COUNT) 1 st1 = Some st2" "stress_inv K 10000100 {1..SPAWN_COUNT} 99 st2"
    "a_running (view K (snd st2)) = 0"
    by (rule all_begun [OF s(2) assms(1) s(3) assms(3,4)])
  obtain st' k c where st': "main_calls K preempt 100
      ((Spawn f, Library_error) # terminates ?rem @ spawns f (sort ?rem)) st2 = Some st'"
    "stress_inv K k {1..SPAWN_COUNT} c st'"
    by (rule replaced [OF st(3) assms(1) st(4) assms(3,4) rem])
  have "exits K (snd st')" using st'(2) assms(1) reachable_exits by (auto simp: stress_inv_def)
  then show ?thesis
    unfolding Test4_def Let_def s(1) Option.bind.simps st(1,2) st'(1) by (cases st') simp
qed

subsection \<open>Test5 passes\<close>

definition test5_inv :: "platform \<Rightarrow> int \<Rightarrow> int list \<times> stress \<Rightarrow> bool" where
  "test5_inv K k = (\<lambda>(activeThreads, st). distinct activeThreads \<and> set activeThreads \<subseteq> {1..SPAWN_COUNT} \<and>
     (\<exists>c. stress_inv K k (set activeThreads) c st) \<and> a_running (view K (snd st)) = 0)"

lemma getRandomActiveThread_active:
  assumes "in_range draw" and "xs \<noteq> []"
  shows "getRandomActiveThread draw i xs \<in> set xs"
proof -
  have "0 \<le> int (length xs) - 1" using assms(2) by (cases xs) auto
  with assms(1) have "0 \<le> draw i 0 (int (length xs) - 1) \<and> draw i 0 (int (length xs) - 1) \<le> int (length xs) - 1"
    unfolding in_range_def by blast
  then show ?thesis unfolding getRandomActiveThread_def by (intro nth_mem) linarith
qed

lemma smallest_missing:
  assumes "set xs \<subseteq> {1..SPAWN_COUNT}" and "distinct xs" and "xs = [] \<or> int (length xs) < SPAWN_COUNT"
  obtains j where "j \<in> {1..SPAWN_COUNT} - set xs" and "\<And>i. 1 \<le> i \<Longrightarrow> i < j \<Longrightarrow> i \<in> set xs"
proof -
  have "int (length xs) < SPAWN_COUNT" using assms(3) by (auto simp: SPAWN_COUNT_def MAX_THREAD_NUM_def)
  then have "card (set xs) < card {1..SPAWN_COUNT}" using distinct_card [OF assms(2)] by simp
  then have "\<not> {1..SPAWN_COUNT} \<subseteq> set xs" using card_mono [of "set xs" "{1..SPAWN_COUNT}"] by auto
  then have ne: "{1..SPAWN_COUNT} - set xs \<noteq> {}" and fin: "finite ({1..SPAWN_COUNT} - set xs)" by auto
  note m = Min_in [OF fin ne] and le = Min_le [OF fin]
  show ?thesis
  proof (rule that [OF m])
    fix i
    assume i: "1 \<le> i" "i < Min ({1..SPAWN_COUNT} - set xs)"
    then have "i \<le> SPAWN_COUNT" using m by auto
    show "i \<in> set xs"
    proof (rule ccontr)
      assume "i \<notin> set xs"
      then have "Min ({1..SPAWN_COUNT} - set xs) \<le> i" using i(1) \<open>i \<le> SPAWN_COUNT\<close> by (intro le) simp
      with i(2) show False by simp
    qed
  qed
qed

lemma doOperation_ok:
  assumes "test5_inv K k (xs, st)" and "sys_ok K" and "in_range draw" and "f \<noteq> 0" and "n \<le> 1000"
    and "k + 100001 \<le> INT_MAX"
  shows "\<exists>x'. doOperation K n draw i f (xs, st) = Some x' \<and> test5_inv K (k + 100001) x'"
proof -
  obtain c where inv: "distinct xs" "set xs \<subseteq> {1..SPAWN_COUNT}" "stress_inv K k (set xs) c st"
    "a_running (view K (snd st)) = 0"
    using assms(1) by (auto simp: test5_inv_def)
  let ?option = "draw (2 * i) 1 10" and ?tid = "getRandomActiveThread draw (2 * i + 1) xs"
  show ?thesis
  proof (cases "xs = [] \<or> (?option = 1 \<and> int (length xs) < MAX_THREAD_NUM - 1)")
    case True
    then obtain j where j: "j \<in> {1..SPAWN_COUNT} - set xs" "\<And>i. 1 \<le> i \<Longrightarrow> i < j \<Longrightarrow> i \<in> set xs"
      using smallest_missing [OF inv(2,1)] unfolding SPAWN_COUNT_def by blast
    have "fits (Above 0) (Returned j)" using j(1) by simp
    then obtain st' where st': "main_call K n (Spawn f) (Above 0) st = Some (j, st')"
      "stress_inv K (k + 100001) (insert j (set xs)) (c + 1) st'" "a_running (view K (snd st')) = 0"
      using spawn_call [OF inv(3) assms(2) inv(4) assms(5,6,4) inv(2) j] by blast
    have "test5_inv K (k + 100001) (insort_insert j xs, st')"
      using inv(1,2) j(1) st'(2,3) by (auto simp: test5_inv_def set_insort_insert distinct_insort_insert)
    with True st'(1) show ?thesis by (simp add: doOperation_def)
  next
    case False
    then have tid: "?tid \<in> set xs" by (intro getRandomActiveThread_active assms(3)) simp
    note call = other_call [OF inv(3) assms(2) inv(4) assms(5,6) inv(2) tid]
    have keep: "test5_inv K (k + 100001) (xs, st')"
      if "stress_inv K (k + 100001) (set xs) c' st'" "a_running (view K (snd st')) = 0" for c' st'
      using that inv(1,2) by (auto simp: test5_inv_def)
    consider "?option = 3" | "?option = 4" | "?option = 5" | "?option \<notin> {3, 4, 5}" by auto
    then show ?thesis
    proof cases
      case 1
      obtain st' c' where "main_call K n (Terminate ?tid) (Exactly (Returned 0)) st = Some (0, st')"
        "stress_inv K (k + 100001) (set xs - {?tid}) c' st'" "a_running (view K (snd st')) = 0"
        using call [of "Terminate ?tid" "set xs - {?tid}"] by blast
      moreover from this(2,3) have "test5_inv K (k + 100001) (removeAll ?tid xs, st')"
        using inv(1,2) by (auto simp: test5_inv_def distinct_removeAll)
      ultimately show ?thesis using False 1 by (simp add: doOperation_def Let_def)
    next
      case 2
      obtain st' c' where "main_call K n (Block ?tid) (Exactly (Returned 0)) st = Some (0, st')"
        "stress_inv K (k + 100001) (set xs) c' st'" "a_running (view K (snd st')) = 0"
        using call [of "Block ?tid" "set xs"] by blast
      with keep False 2 show ?thesis by (simp add: doOperation_def Let_def)
    next
      case 3
      obtain st' c' where "main_call K n (Resume ?tid) (Exactly (Returned 0)) st = Some (0, st')"
        "stress_inv K (k + 100001) (set xs) c' st'" "a_running (view K (snd st')) = 0"
        using call [of "Resume ?tid" "set xs"] by blast
      with keep False 3 show ?thesis by (simp add: doOperation_def Let_def)
    next
      case 4
      have "stress_inv K (k + 100001) (set xs) c st" by (rule stress_inv_mono [OF inv(3)]) simp
      then have "test5_inv K (k + 100001) (xs, st)" using keep inv(4) by blast
      moreover have "doOperation K n draw i f (xs, st) = Some (xs, st)"
        using 4 False by (simp add: doOperation_def Let_def) blast
      ultimately show ?thesis by blast
    qed
  qed
qed

lemma doOperations_ok:
  assumes "test5_inv K k x" and "sys_ok K" and "in_range draw" and "f \<noteq> 0" and "\<forall>i. preempt i \<le> 1000"
    and "k + 100001 * int n \<le> INT_MAX"
  shows "\<exists>x'. doOperations K preempt draw f n x = Some x' \<and> test5_inv K (k + 100001 * int n) x'"
  using assms
proof (induction n arbitrary: x k)
  case (Suc n)
  obtain xs st where x: "x = (xs, st)" by (cases x)
  have "preempt n \<le> 1000" "k + 100001 \<le> INT_MAX" using Suc.prems(5,6) by auto
  then obtain x' where x': "doOperation K (preempt n) draw n f x = Some x'" "test5_inv K (k + 100001) x'"
    using doOperation_ok [OF Suc.prems(1) [unfolded x] Suc.prems(2-4)] x by blast
  have k: "k + 100001 + 100001 * int n = k + 100001 * int (Suc n)" by simp
  from Suc.IH [OF x'(2) Suc.prems(2-5), unfolded k] Suc.prems(6) x'(1) show ?case by simp
qed simp

lemma test5:
  assumes "sys_ok K" and "mangling_ok K" and "f \<noteq> 0" and "\<forall>i. preempt i \<le> 1000" and "in_range draw"
  shows "Test5 K preempt draw f"
proof -
  obtain s where s: "initializeLibrary K 1 boot = Some s" "stress_inv K 1 {} 0 (0, s)"
    "a_running (view K s) = 0"
    by (rule stress_init [OF assms(1,2)])
  then have inv: "test5_inv K 1 ([], 0, s)" by (auto simp: test5_inv_def)
  have "1 + 100001 * int 1000 \<le> INT_MAX" by (simp add: int_limits)
  then obtain x' where x': "doOperations K preempt draw f 1000 ([], 0, s) = Some x'"
    "test5_inv K (1 + 100001 * int 1000) x'"
    using doOperations_ok [OF inv assms(1,5,3,4)] by blast
  obtain xs b s' where x: "x' = (xs, b, s')" by (cases x') auto
  have "exits K s'" using x'(2) assms(1) reachable_exits by (auto simp: x test5_inv_def stress_inv_def)
  then show ?thesis by (simp add: Test5_def s(1) x'(1) x)
qed

text \<open>
  The library passes the tests with random numbers on every platform whose system calls succeed,
  whatever the generator draws and however often the timer expires before each call. In Test4 all
  99 threads get their tids in order, one more is refused with a message, and after a random third
  of them is terminated the same tids are given again, smallest first. In Test5 a thousand random
  calls (spawn, terminate, block, resume) all succeed. No thread is lost on the way: each round of
  the timer comes back to the main thread.
\<close>

lemma library_passes_random_tests:
  assumes "sys_ok K" and "mangling_ok K" and "f \<noteq> 0" and "\<forall>i. preempt i \<le> 1000"
    and "distinct shuffled" and "set shuffled = {1..SPAWN_COUNT}" and "in_range draw"
  shows "Test4 K preempt shuffled f \<and> Test5 K preempt draw f"
  using assms by (intro conjI test4 test5)

end
