(* ===== verification/StackMemory.thy ===== *)
theory StackMemory
  imports Thread
begin

text \<open>
  Memory as bytes, for the programs whose local variables lie on stacks that are arrays of the
  program: an \<open>int\<close> is four bytes, the low one first, a stack frame a range of addresses below the
  stack pointer. The lemmas say which writes below one stack pointer change which bytes below the same
  or another one.
\<close>

type_synonym memory = "addr \<Rightarrow> 8 word"

definition write_bytes :: "addr \<Rightarrow> 8 word list \<Rightarrow> memory \<Rightarrow> memory" where
  "write_bytes a bs m = (\<lambda>x. if unat (x - a) < length bs then bs ! unat (x - a) else m x)"

definition read_bytes :: "memory \<Rightarrow> addr \<Rightarrow> nat \<Rightarrow> 8 word list" where
  "read_bytes m a n = map (\<lambda>k. m (a + word_of_nat k)) [0..<n]"

subsection \<open>Integers as bytes\<close>

fun le_bytes :: "nat \<Rightarrow> nat \<Rightarrow> 8 word list" where
  "le_bytes 0 n = []"
| "le_bytes (Suc k) n = word_of_nat n # le_bytes k (n div 256)"

fun le_value :: "8 word list \<Rightarrow> nat" where
  "le_value [] = 0"
| "le_value (b # bs) = unat b + 256 * le_value bs"

lemma length_le_bytes [simp]: "length (le_bytes k n) = k"
  by (induction k arbitrary: n) simp_all

lemma le_value_bytes: "le_value (le_bytes k n) = n mod 256 ^ k"
proof (induction k arbitrary: n)
  case (Suc k)
  have "unat (word_of_nat n :: 8 word) = n mod 256" by (simp add: unsigned_of_nat take_bit_eq_mod)
  with Suc show ?case by (simp add: mod_mult2_eq)
qed simp

definition write_int :: "addr \<Rightarrow> int \<Rightarrow> memory \<Rightarrow> memory" where
  "write_int a i m = write_bytes a (le_bytes 4 (size_t_of_int i)) m"

definition read_int :: "memory \<Rightarrow> addr \<Rightarrow> int" where
  "read_int m a = int_of_size_t (le_value (read_bytes m a 4))"

lemma int_of_le_bytes:
  assumes "in_int i"
  shows "int_of_size_t (le_value (le_bytes 4 (size_t_of_int i))) = i"
proof -
  have "int (size_t_of_int i mod 256 ^ 4) mod 2 ^ 32 = i mod 2 ^ 32"
    by (simp add: size_t_of_int_def zmod_int mod_mod_cancel)
  moreover have "i mod 2 ^ 32 = (if i < 0 then i + 2 ^ 32 else i)"
  proof (cases "i < 0")
    case True
    have "i mod 2 ^ 32 = (i + 2 ^ 32) mod 2 ^ 32" by simp
    also have "\<dots> = i + 2 ^ 32"
      by (rule mod_pos_pos_trivial) (use True assms in \<open>simp_all add: in_int_def int_limits\<close>)
    finally show ?thesis using True by simp
  qed (use assms in \<open>simp add: in_int_def int_limits\<close>)
  ultimately show ?thesis
    using assms unfolding int_of_size_t_def le_value_bytes Let_def
    by (auto simp: in_int_def int_limits)
qed

subsection \<open>Frames below a stack pointer\<close>

lemma unat_below: "d < 2 ^ 64 \<Longrightarrow> unat (p - (p - word_of_nat d :: addr)) = d"
  by (simp add: unsigned_of_nat take_bit_eq_mod)

lemma below_plus: "k \<le> d \<Longrightarrow> p - word_of_nat d + word_of_nat k = (p - word_of_nat (d - k) :: addr)"
  by (simp add: of_nat_diff)

lemma read_below: "n \<le> d \<Longrightarrow> read_bytes m (p - word_of_nat d) n = map (\<lambda>k. m (p - word_of_nat (d - k))) [0..<n]"
  by (auto simp: read_bytes_def below_plus)

lemma read_below_eq:
  assumes "n \<le> d" and "\<And>e. d - n < e \<Longrightarrow> e \<le> d \<Longrightarrow> m' (p - word_of_nat e) = m (p - word_of_nat e)"
  shows "read_bytes m' (p - word_of_nat d) n = read_bytes m (p - word_of_nat d) n"
  unfolding read_below [OF assms(1)] by (rule map_cong) (use assms in \<open>auto simp del: of_nat_diff\<close>)

text \<open>A write of some bytes at \<open>d\<close> below the stack pointer, by the distance of the addresses from it.\<close>

lemma write_hits:
  assumes "length bs \<le> d" and "d < 2 ^ 64"
  shows "write_bytes (p - word_of_nat d) bs m x =
    (if unat (p - x) \<le> d \<and> d - unat (p - x) < length bs then bs ! (d - unat (p - x)) else m x)"
proof -
  let ?D = "unat (p - x)"
  have x: "x - (p - word_of_nat d) = word_of_nat d - (p - x)" by simp
  have d: "unat (word_of_nat d :: addr) = d" using assms(2) by (simp add: unsigned_of_nat take_bit_eq_mod)
  have D: "?D < 2 ^ 64" using unsigned_less [of "p - x"] by simp
  have "unat (x - (p - word_of_nat d)) = (if ?D \<le> d then d - ?D else d + 2 ^ 64 - ?D)"
    unfolding x using D d by (subst unat_sub_if') simp
  with assms(1) D show ?thesis by (auto simp: write_bytes_def)
qed

lemma write_below:
  assumes "length bs \<le> d" and "d < 2 ^ 64" and "e < 2 ^ 64"
  shows "write_bytes (p - word_of_nat d) bs m (p - word_of_nat e) =
    (if e \<le> d \<and> d - e < length bs then bs ! (d - e) else m (p - word_of_nat e))"
  unfolding write_hits [OF assms(1,2)] unat_below [OF assms(3)] ..

lemma read_written:
  assumes "length bs \<le> d" and "d < 2 ^ 64"
  shows "read_bytes (write_bytes (p - word_of_nat d) bs m) (p - word_of_nat d) (length bs) = bs"
  unfolding read_below [OF assms(1)] using assms by (intro nth_equalityI) (auto simp: write_below)

lemma read_int_written:
  assumes "in_int i" and "4 \<le> d" and "d < 2 ^ 64"
  shows "read_int (write_int (p - word_of_nat d) i m) (p - word_of_nat d) = i"
  using read_written [of "le_bytes 4 (size_t_of_int i)" d p m] assms int_of_le_bytes [OF assms(1)]
  by (simp add: read_int_def write_int_def)

text \<open>Two stacks of \<open>STACK_SIZE\<close> bytes that do not overlap.\<close>

definition blocks_apart :: "addr \<Rightarrow> addr \<Rightarrow> bool" where
  "blocks_apart a b \<longleftrightarrow> unat a + STACK_SIZE \<le> 2 ^ 64 \<and> unat b + STACK_SIZE \<le> 2 ^ 64 \<and>
     (unat a + STACK_SIZE \<le> unat b \<or> unat b + STACK_SIZE \<le> unat a)"

definition stack_top :: "addr \<Rightarrow> addr" where
  "stack_top a = a + word_of_nat STACK_SIZE - 8"

lemma blocks_apart_sym: "blocks_apart a b \<Longrightarrow> blocks_apart b a"
  by (auto simp: blocks_apart_def)

text \<open>Bytes below the top of one are far from the frames below the top of the other.\<close>

lemma far_below:
  assumes "blocks_apart a b" and "e + 8 \<le> STACK_SIZE"
  shows "STACK_SIZE \<le> unat (stack_top a - (stack_top b - word_of_nat e))"
proof -
  have ab: "unat a + 4096 \<le> 2 ^ 64" "unat b + 4096 \<le> 2 ^ 64" "unat a + 4096 \<le> unat b \<or> unat b + 4096 \<le> unat a"
    using assms(1) by (auto simp: blocks_apart_def STACK_SIZE_def)
  have e: "unat (word_of_nat e :: addr) = e" "e \<le> 4088"
    using assms(2) by (simp_all add: STACK_SIZE_def unsigned_of_nat take_bit_eq_mod)
  have x: "stack_top a - (stack_top b - word_of_nat e) = (a - b) + word_of_nat e"
    by (simp add: stack_top_def)
  have d: "unat (a - b) = (if unat b \<le> unat a then unat a - unat b else unat a + 2 ^ 64 - unat b)"
    by (subst unat_sub_if') simp
  have "4096 \<le> unat (a - b)" and small: "unat (a - b) + e < 2 ^ 64"
    using ab e(2) d unsigned_less [of a] by (auto split: if_splits)
  moreover have "unat ((a - b) + word_of_nat e) = unat (a - b) + e"
    using small e by (subst unat_add_lem [THEN iffD1]) simp_all
  ultimately show ?thesis unfolding x by (simp add: STACK_SIZE_def)
qed

end
