(* ===== verification/DemoJmp.thy ===== *)
theory DemoJmp
  imports StackMemory
begin

text \<open>
  \<open>demo_jmp.c\<close>: two threads that switch cooperatively with \<open>sigsetjmp\<close> and \<open>siglongjmp\<close>, each on an
  array of the program. Contexts and address translation are those of theory \<open>Thread\<close>; the demo has
  the same code for them. The local variables, the return addresses and the frames of the functions
  that are called lie in memory below the stack pointer, so what a thread writes can destroy what
  another one left there; that it does not is part of the property.
\<close>

text \<open>
  A saved context: what \<open>setup_thread\<close> wrote into the slots of the jump buffer, or the point in
  \<open>yield\<close> where \<open>sigsetjmp\<close> saved it, with the stack pointer of the function that called \<open>yield\<close>.
\<close>

datatype bookmark = Fresh (jb_sp: addr) (jb_pc: addr) | In_yield (saved_sp: addr)

text \<open>The lines the program prints, one constructor for each format string.\<close>

datatype line = In_thread nat int | Yielding nat | Yield_returned int

text \<open>
  The state: the globals and the memory of the arrays, the function that is being executed (\<open>thread0\<close>
  or \<open>thread1\<close>, the program counter) and the stack pointer it was entered with, and the output, the
  last line first.
\<close>

record jmp_demo =
  current_thread :: int
  jmp_env :: "nat \<Rightarrow> bookmark"
  memory_of :: memory
  in_function :: nat
  entered_sp :: addr
  printed_lines :: "line list"

text \<open>
  What linker, compiler and C library decide: the addresses of \<open>stack0\<close> and \<open>stack1\<close> and of the two
  functions; how many bytes below the stack pointer of a thread function its variable \<open>i\<close> lies
  and the call of \<open>yield\<close> pushes its return address, which address that is, how deep the frames of the
  called functions reach and what they leave behind there.
\<close>

record layout =
  stack_at :: "nat \<Rightarrow> addr"
  entry_at :: "nat \<Rightarrow> addr"
  local_below :: nat
  return_below :: nat
  return_to :: "nat \<Rightarrow> 8 word list"
  frame_bytes :: nat
  leftover :: "line list \<Rightarrow> memory"
  jmp_platform :: platform

text \<open>The two versions of \<open>translate_address\<close>, with the pointer guard they find in memory.\<close>

definition demo_translate :: "addr \<Rightarrow> addr \<Rightarrow> addr" where
  "demo_translate guard a = word_rotl 0x11 (a XOR guard)"

definition demo_translate32 :: "32 word \<Rightarrow> 32 word \<Rightarrow> 32 word" where
  "demo_translate32 guard a = word_rotl 0x9 (a XOR guard)"

lemma demo_translate: "demo_translate = translate_address" "demo_translate32 = translate_address32"
  by (simp_all add: fun_eq_iff demo_translate_def translate_address_def demo_translate32_def translate_address32_def)

definition setup_thread :: "layout \<Rightarrow> nat \<Rightarrow> addr \<Rightarrow> addr \<Rightarrow> jmp_demo \<Rightarrow> jmp_demo" where
  "setup_thread Y t stk entry_point s =
     (let sp = stk + word_of_nat STACK_SIZE - 8; pc = entry_point;
          guard = pointer_guard (jmp_platform Y) in
      s\<lparr>jmp_env := (jmp_env s)(t := Fresh (demo_translate guard sp) (demo_translate guard pc))\<rparr>)"

definition setup_threads :: "layout \<Rightarrow> jmp_demo \<Rightarrow> jmp_demo" where
  "setup_threads Y s =
     setup_thread Y 1 (stack_at Y 1) (entry_at Y 1) (setup_thread Y 0 (stack_at Y 0) (entry_at Y 0) s)"

text \<open>
  A call of a library function overwrites the memory of its frames: everything more than \<open>d\<close> bytes
  below the stack pointer of the running thread function, as deep as the frames reach.
\<close>

definition call_frames :: "layout \<Rightarrow> nat \<Rightarrow> jmp_demo \<Rightarrow> jmp_demo" where
  "call_frames Y d s = s\<lparr>memory_of := (\<lambda>x.
     if d < unat (entered_sp s - x) \<and> unat (entered_sp s - x) \<le> frame_bytes Y
     then leftover Y (printed_lines s) x else memory_of s x)\<rparr>"

definition print_line :: "layout \<Rightarrow> nat \<Rightarrow> line \<Rightarrow> jmp_demo \<Rightarrow> jmp_demo" where
  "print_line Y d l s = call_frames Y d (s\<lparr>printed_lines := l # printed_lines s\<rparr>)"

text \<open>The variable \<open>i\<close> of the running function.\<close>

definition load_i :: "layout \<Rightarrow> jmp_demo \<Rightarrow> int" where
  "load_i Y s = read_int (memory_of s) (entered_sp s - word_of_nat (local_below Y))"

definition store_i :: "layout \<Rightarrow> int \<Rightarrow> jmp_demo \<Rightarrow> jmp_demo" where
  "store_i Y i s = s\<lparr>memory_of := write_int (entered_sp s - word_of_nat (local_below Y)) i (memory_of s)\<rparr>"

text \<open>
  \<open>jump_to_thread\<close>, up to the point where the other thread goes on. The decoded program counter of a
  fresh context starts one of the two functions, which begins with \<open>i = 0\<close>. In a saved context
  \<open>sigsetjmp\<close> returns 1, \<open>yield\<close> prints it and returns to the address it finds on the stack, and the
  function sleeps. Any other address leaves the program: \<open>None\<close>.
\<close>

definition jump_to_thread :: "layout \<Rightarrow> nat \<Rightarrow> jmp_demo \<Rightarrow> jmp_demo option" where
  "jump_to_thread Y t s =
     (let s = s\<lparr>current_thread := int t\<rparr> in
      case jmp_env s t of
        Fresh sp pc \<Rightarrow>
          Option.bind (List.find (\<lambda>f. entry_at Y f = demangle (jmp_platform Y) pc) [0, 1]) (\<lambda>f.
          Some (store_i Y 0 (s\<lparr>in_function := f, entered_sp := demangle (jmp_platform Y) sp\<rparr>)))
      | In_yield sp \<Rightarrow>
          (let s = print_line Y (return_below Y) (Yield_returned 1) (s\<lparr>entered_sp := sp\<rparr>) in
           Option.bind (List.find (\<lambda>f. return_to Y f =
               read_bytes (memory_of s) (sp - word_of_nat (return_below Y)) 8) [0, 1]) (\<lambda>f.
           Some (call_frames Y (local_below Y) (s\<lparr>in_function := f\<rparr>)))))"

definition yield_demo :: "layout \<Rightarrow> jmp_demo \<Rightarrow> jmp_demo option" where
  "yield_demo Y s =
     (let s = s\<lparr>memory_of := write_bytes (entered_sp s - word_of_nat (return_below Y))
                  (return_to Y (in_function s)) (memory_of s)\<rparr>;
          s = s\<lparr>jmp_env := (jmp_env s)(nat (current_thread s) := In_yield (entered_sp s))\<rparr>;
          s = print_line Y (return_below Y) (Yield_returned 0) s in
      jump_to_thread Y (nat (1 - current_thread s)) s)"

text \<open>
  One turn of the endless loop of \<open>thread0\<close> (which yields after every third number) or \<open>thread1\<close>
  (after every fifth), up to the next turn of the thread that runs then; \<open>++i\<close> must not overflow. Of
  \<open>usleep\<close> there is only its frame.
\<close>

definition thread_turn :: "layout \<Rightarrow> nat \<Rightarrow> int \<Rightarrow> jmp_demo \<Rightarrow> jmp_demo option" where
  "thread_turn Y t m s =
     (let i = load_i Y s + 1 in
      if \<not> in_int i then None
      else
        (let s = print_line Y (local_below Y) (In_thread t i) (store_i Y i s) in
         if i smod m = 0 then yield_demo Y (print_line Y (local_below Y) (Yielding t) s)
         else Some (call_frames Y (local_below Y) s)))"

definition thread0 :: "layout \<Rightarrow> jmp_demo \<Rightarrow> jmp_demo option" where
  "thread0 Y s = thread_turn Y 0 3 s"

definition thread1 :: "layout \<Rightarrow> jmp_demo \<Rightarrow> jmp_demo option" where
  "thread1 Y s = thread_turn Y 1 5 s"

text \<open>
  The program after \<open>n\<close> turns of the two loops together. The arrays start as zeros; nothing the
  program reads was there before.
\<close>

definition demo_start :: jmp_demo where
  "demo_start = \<lparr>current_thread = - 1, jmp_env = (\<lambda>_. Fresh 0 0), memory_of = (\<lambda>_. 0),
     in_function = 0, entered_sp = 0, printed_lines = []\<rparr>"

fun main_jmp :: "layout \<Rightarrow> nat \<Rightarrow> jmp_demo option" where
  "main_jmp Y 0 = jump_to_thread Y 0 (setup_threads Y demo_start)"
| "main_jmp Y (Suc n) =
     Option.bind (main_jmp Y n) (\<lambda>s. if in_function s = 0 then thread0 Y s else thread1 Y s)"

subsection \<open>What the two threads rely on\<close>

text \<open>
  The C library decodes addresses; the two functions and the two calls of \<open>yield\<close> have addresses of
  their own; \<open>i\<close> and the return address lie below the stack pointer, one below the other, and all
  frames fit into \<open>STACK_SIZE\<close> bytes.
\<close>

definition frames_fit :: "layout \<Rightarrow> bool" where
  "frames_fit Y \<longleftrightarrow> mangling_ok (jmp_platform Y) \<and> entry_at Y 0 \<noteq> entry_at Y 1 \<and>
     return_to Y 0 \<noteq> return_to Y 1 \<and> length (return_to Y 0) = 8 \<and> length (return_to Y 1) = 8 \<and>
     4 \<le> local_below Y \<and> local_below Y + 8 \<le> return_below Y \<and> return_below Y \<le> frame_bytes Y \<and>
     frame_bytes Y + 8 \<le> STACK_SIZE"

abbreviation top_of :: "layout \<Rightarrow> nat \<Rightarrow> addr" where
  "top_of Y t \<equiv> stack_top (stack_at Y t)"

definition local_i :: "layout \<Rightarrow> nat \<Rightarrow> jmp_demo \<Rightarrow> int" where
  "local_i Y t s = read_int (memory_of s) (top_of Y t - word_of_nat (local_below Y))"

definition return_slot :: "layout \<Rightarrow> nat \<Rightarrow> jmp_demo \<Rightarrow> 8 word list" where
  "return_slot Y t s = read_bytes (memory_of s) (top_of Y t - word_of_nat (return_below Y)) 8"

text \<open>The two arrays do not overlap.\<close>

definition two_stacks :: "layout \<Rightarrow> bool" where
  "two_stacks Y \<longleftrightarrow> frames_fit Y \<and> blocks_apart (stack_at Y 0) (stack_at Y 1)"

subsection \<open>What a write leaves alone\<close>

lemma fitD:
  assumes "two_stacks Y"
  shows "mangling_ok (jmp_platform Y)" "length (return_to Y 0) = 8" "length (return_to Y (Suc 0)) = 8"
  "4 \<le> local_below Y" "local_below Y + 8 \<le> return_below Y" "return_below Y \<le> frame_bytes Y"
  "frame_bytes Y + 8 \<le> STACK_SIZE"
  using assms by (simp_all add: two_stacks_def frames_fit_def)

lemma far:
  assumes "c \<noteq> t" and "c < 2" and "t < 2" and "e + 8 \<le> STACK_SIZE" and ok: "two_stacks Y"
  shows "STACK_SIZE \<le> unat (top_of Y c - (top_of Y t - word_of_nat e))"
proof -
  have "c = 0 \<and> t = 1 \<or> c = 1 \<and> t = 0" using assms(1-3) by linarith
  then have "blocks_apart (stack_at Y c) (stack_at Y t)" using ok blocks_apart_sym unfolding two_stacks_def by auto
  then show ?thesis using assms(4) by (rule far_below)
qed

lemma frames_cell:
  assumes "entered_sp s = top_of Y c" and "c < 2" and "t < 2" and "e + 8 \<le> STACK_SIZE" and "c = t \<Longrightarrow> e \<le> d" and ok: "two_stacks Y"
  shows "memory_of (call_frames Y d s) (top_of Y t - word_of_nat e) = memory_of s (top_of Y t - word_of_nat e)"
proof (cases "c = t")
  case True
  then show ?thesis using assms unat_below [of e "top_of Y t"] by (simp add: call_frames_def STACK_SIZE_def)
next
  case False
  then show ?thesis using far [OF False assms(2-4) ok] assms(1) fitD(7) [OF ok] by (simp add: call_frames_def)
qed

lemma write_cell:
  assumes "c < 2" and "t < 2" and "e + 8 \<le> STACK_SIZE" and "length bs \<le> d" and "d + 8 \<le> STACK_SIZE"
    and "c = t \<Longrightarrow> d < e \<or> e + length bs \<le> d" and ok: "two_stacks Y"
  shows "write_bytes (top_of Y c - word_of_nat d) bs m (top_of Y t - word_of_nat e) = m (top_of Y t - word_of_nat e)"
proof (cases "c = t")
  case True
  then show ?thesis using assms write_below [OF assms(4), of e "top_of Y t" m] by (auto simp: STACK_SIZE_def)
next
  case False
  have "d < 2 ^ 64" using assms(5) by (simp add: STACK_SIZE_def)
  then show ?thesis using far [OF False assms(1-3) ok] assms(5) by (simp add: write_hits [OF assms(4)])
qed

lemma frames_keep:
  assumes "entered_sp s = top_of Y c" and "c < 2" and "t < 2" and "local_below Y \<le> d" and ok: "two_stacks Y"
  shows "local_i Y t (call_frames Y d s) = local_i Y t s"
    and "c \<noteq> t \<or> return_below Y \<le> d \<Longrightarrow> return_slot Y t (call_frames Y d s) = return_slot Y t s"
proof -
  have "read_bytes (memory_of (call_frames Y d s)) (top_of Y t - word_of_nat (local_below Y)) 4 =
      read_bytes (memory_of s) (top_of Y t - word_of_nat (local_below Y)) 4"
    by (rule read_below_eq) (use assms fitD [OF ok] in \<open>auto intro!: frames_cell [OF assms(1-3)]\<close>)
  then show "local_i Y t (call_frames Y d s) = local_i Y t s" by (simp add: local_i_def read_int_def)
  show "return_slot Y t (call_frames Y d s) = return_slot Y t s" if "c \<noteq> t \<or> return_below Y \<le> d"
    unfolding return_slot_def
    by (rule read_below_eq) (use that assms fitD [OF ok] in \<open>auto intro!: frames_cell [OF assms(1-3)]\<close>)
qed

lemma print_keep:
  assumes "entered_sp s = top_of Y c" and "c < 2" and "t < 2" and "local_below Y \<le> d" and ok: "two_stacks Y"
  shows "local_i Y t (print_line Y d l s) = local_i Y t s"
    and "c \<noteq> t \<or> return_below Y \<le> d \<Longrightarrow> return_slot Y t (print_line Y d l s) = return_slot Y t s"
  using frames_keep [where s = "s\<lparr>printed_lines := l # printed_lines s\<rparr>" and Y = Y and c = c and t = t and d = d] assms
  by (simp_all add: print_line_def local_i_def return_slot_def)

lemma store_keep:
  assumes "entered_sp s = top_of Y c" and "c < 2" and "t < 2" and "in_int i" and ok: "two_stacks Y"
  shows "local_i Y t (store_i Y i s) = (if t = c then i else local_i Y t s)"
    and "return_slot Y t (store_i Y i s) = return_slot Y t s"
proof -
  have d: "local_below Y < 2 ^ 64" using fitD [OF ok] by (simp add: STACK_SIZE_def)
  have "read_bytes (memory_of (store_i Y i s)) (top_of Y t - word_of_nat (local_below Y)) 4 =
      read_bytes (memory_of s) (top_of Y t - word_of_nat (local_below Y)) 4" if "t \<noteq> c"
    by (rule read_below_eq)
      (use that assms fitD [OF ok] in \<open>auto simp: store_i_def write_int_def intro!: write_cell [OF assms(2,3)]\<close>)
  then show "local_i Y t (store_i Y i s) = (if t = c then i else local_i Y t s)"
    using assms(1,4) fitD(4) [OF ok] d read_int_written [of i "local_below Y" "top_of Y c" "memory_of s"]
    by (auto simp: local_i_def read_int_def store_i_def)
  show "return_slot Y t (store_i Y i s) = return_slot Y t s"
    unfolding return_slot_def
    by (rule read_below_eq)
      (use assms fitD [OF ok] in \<open>auto simp: store_i_def write_int_def intro!: write_cell [OF assms(2,3)]\<close>)
qed

lemma push_keep:
  assumes "s' = s\<lparr>memory_of := write_bytes (top_of Y c - word_of_nat (return_below Y)) bs (memory_of s)\<rparr>"
    and "c < 2" and "t < 2" and "length bs = 8" and ok: "two_stacks Y"
  shows "local_i Y t s' = local_i Y t s" and "return_slot Y t s' = (if t = c then bs else return_slot Y t s)"
proof -
  have d: "return_below Y < 2 ^ 64" "length bs \<le> return_below Y" using fitD [OF ok] assms(4) by (simp_all add: STACK_SIZE_def)
  have "read_bytes (memory_of s') (top_of Y t - word_of_nat (local_below Y)) 4 =
      read_bytes (memory_of s) (top_of Y t - word_of_nat (local_below Y)) 4"
    by (rule read_below_eq) (use assms fitD [OF ok] in \<open>auto intro!: write_cell [OF assms(2,3)]\<close>)
  then show "local_i Y t s' = local_i Y t s" by (simp add: local_i_def read_int_def)
  have "return_slot Y t s' = return_slot Y t s" if "t \<noteq> c"
    unfolding return_slot_def
    by (rule read_below_eq) (use that assms fitD [OF ok] in \<open>auto intro!: write_cell [OF assms(2,3)]\<close>)
  then show "return_slot Y t s' = (if t = c then bs else return_slot Y t s)"
    using read_written [OF d(2,1), of "top_of Y c" "memory_of s"] assms(1,4) by (auto simp: return_slot_def)
qed

lemma jmp_fields [simp]:
  "current_thread (call_frames Y d s) = current_thread s" "jmp_env (call_frames Y d s) = jmp_env s"
  "in_function (call_frames Y d s) = in_function s" "entered_sp (call_frames Y d s) = entered_sp s"
  "printed_lines (call_frames Y d s) = printed_lines s"
  "current_thread (print_line Y d l s) = current_thread s" "jmp_env (print_line Y d l s) = jmp_env s"
  "in_function (print_line Y d l s) = in_function s" "entered_sp (print_line Y d l s) = entered_sp s"
  "printed_lines (print_line Y d l s) = l # printed_lines s"
  "current_thread (store_i Y i s) = current_thread s" "jmp_env (store_i Y i s) = jmp_env s"
  "in_function (store_i Y i s) = in_function s" "entered_sp (store_i Y i s) = entered_sp s"
  "printed_lines (store_i Y i s) = printed_lines s"
  by (simp_all add: call_frames_def print_line_def store_i_def)

lemma slot_fields [simp]:
  "local_i Y t (s\<lparr>current_thread := x\<rparr>) = local_i Y t s" "local_i Y t (s\<lparr>jmp_env := e\<rparr>) = local_i Y t s"
  "local_i Y t (s\<lparr>in_function := f\<rparr>) = local_i Y t s" "local_i Y t (s\<lparr>entered_sp := a\<rparr>) = local_i Y t s"
  "return_slot Y t (s\<lparr>current_thread := x\<rparr>) = return_slot Y t s" "return_slot Y t (s\<lparr>jmp_env := e\<rparr>) = return_slot Y t s"
  "return_slot Y t (s\<lparr>in_function := f\<rparr>) = return_slot Y t s" "return_slot Y t (s\<lparr>entered_sp := a\<rparr>) = return_slot Y t s"
  by (simp_all add: local_i_def return_slot_def)

subsection \<open>A switch\<close>

text \<open>Thread \<open>c\<close> executes its own function on its own stack.\<close>

definition runs :: "layout \<Rightarrow> nat \<Rightarrow> jmp_demo \<Rightarrow> bool" where
  "runs Y c s \<longleftrightarrow> current_thread s = int c \<and> in_function s = c \<and> entered_sp s = top_of Y c"

text \<open>Thread \<open>u\<close> waits: not started yet, or in \<open>yield\<close> with its return address on its stack.\<close>

definition fresh_mark :: "layout \<Rightarrow> nat \<Rightarrow> bookmark" where
  "fresh_mark Y u = Fresh (demo_translate (pointer_guard (jmp_platform Y)) (top_of Y u))
     (demo_translate (pointer_guard (jmp_platform Y)) (entry_at Y u))"

definition waits :: "layout \<Rightarrow> bool \<Rightarrow> nat \<Rightarrow> jmp_demo \<Rightarrow> bool" where
  "waits Y started u s \<longleftrightarrow>
     (if started then jmp_env s u = In_yield (top_of Y u) \<and> return_slot Y u s = return_to Y u
      else jmp_env s u = fresh_mark Y u)"

lemma demangle_demo:
  "mangling_ok K \<Longrightarrow> demangle K (demo_translate (pointer_guard K) a) = a"
  by (simp add: mangling_ok_def demo_translate)

lemma entry_found:
  "two_stacks Y \<Longrightarrow> u < 2 \<Longrightarrow> List.find (\<lambda>f. entry_at Y f = entry_at Y u) [0, 1] = Some u"
  by (auto simp: two_stacks_def frames_fit_def less_2_cases_iff)

lemma return_found:
  "two_stacks Y \<Longrightarrow> u < 2 \<Longrightarrow> List.find (\<lambda>f. return_to Y f = return_to Y u) [0, 1] = Some u"
  by (auto simp: two_stacks_def frames_fit_def less_2_cases_iff)

lemma jump_continues:
  assumes ok: "two_stacks Y" and w: "waits Y started u s" and u: "u < 2"
  shows "\<exists>s'. jump_to_thread Y u s = Some s' \<and> runs Y u s' \<and> jmp_env s' = jmp_env s \<and>
    printed_lines s' = (if started then [Yield_returned 1] else []) @ printed_lines s \<and>
    (\<forall>t < 2. local_i Y t s' = (if t = u \<and> \<not> started then 0 else local_i Y t s) \<and>
       (t = u \<or> return_slot Y t s' = return_slot Y t s))"
proof (cases started)
  case True
  let ?s1 = "s\<lparr>current_thread := int u, entered_sp := top_of Y u\<rparr>"
  let ?s2 = "print_line Y (return_below Y) (Yield_returned 1) ?s1"
  let ?s' = "call_frames Y (local_below Y) (?s2\<lparr>in_function := u\<rparr>)"
  have sp: "entered_sp ?s1 = top_of Y u" "entered_sp (?s2\<lparr>in_function := u\<rparr>) = top_of Y u" by simp_all
  have le: "local_below Y \<le> return_below Y" using fitD(5) [OF ok] by simp
  have ret: "read_bytes (memory_of ?s2) (top_of Y u - word_of_nat (return_below Y)) 8 = return_to Y u"
    using print_keep(2) [OF sp(1) u u le ok, of "Yield_returned 1"] w True
    by (simp add: waits_def flip: return_slot_def)
  have "jump_to_thread Y u s = Some ?s'"
    using w True return_found [OF ok u] by (simp add: jump_to_thread_def waits_def Let_def ret del: find.simps)
  moreover have "local_i Y t ?s' = local_i Y t s \<and> (t = u \<or> return_slot Y t ?s' = return_slot Y t s)" if "t < 2" for t
    using frames_keep [OF sp(2) u that order_refl ok] print_keep [OF sp(1) u that le ok, of "Yield_returned 1"] by auto
  ultimately show ?thesis using True by (intro exI [of _ ?s']) (simp add: runs_def)
next
  case False
  let ?s1 = "s\<lparr>current_thread := int u, in_function := u, entered_sp := top_of Y u\<rparr>"
  have "jump_to_thread Y u s = Some (store_i Y 0 ?s1)"
    using w False entry_found [OF ok u] demangle_demo [OF fitD(1) [OF ok]]
    by (simp add: jump_to_thread_def waits_def fresh_mark_def Let_def del: find.simps)
  moreover have "in_int 0" by (simp add: in_int_def int_limits)
  moreover have sp: "entered_sp ?s1 = top_of Y u" by simp
  ultimately show ?thesis
    using store_keep [OF sp u _ _ ok, of _ 0] False by (intro exI [of _ "store_i Y 0 ?s1"]) (simp add: runs_def)
qed

lemma yield_switches:
  assumes ok: "two_stacks Y" and r: "runs Y c s" and c: "c < 2" and w: "waits Y started (1 - c) s"
  shows "\<exists>s'. yield_demo Y s = Some s' \<and> runs Y (1 - c) s' \<and> waits Y True c s' \<and>
    printed_lines s' = (if started then [Yield_returned 1] else []) @ Yield_returned 0 # printed_lines s \<and>
    local_i Y c s' = local_i Y c s \<and> local_i Y (1 - c) s' = (if started then local_i Y (1 - c) s else 0)"
proof -
  let ?m = "s\<lparr>memory_of := write_bytes (top_of Y c - word_of_nat (return_below Y)) (return_to Y c) (memory_of s)\<rparr>"
  let ?e = "?m\<lparr>jmp_env := (jmp_env ?m)(c := In_yield (top_of Y c))\<rparr>"
  let ?p = "print_line Y (return_below Y) (Yield_returned 0) ?e"
  have u: "1 - c < 2" "1 - c \<noteq> c" "nat (1 - int c) = 1 - c" using c by (auto simp: less_2_cases_iff)
  have len: "length (return_to Y c) = 8" using c fitD(2,3) [OF ok] by (auto simp: less_2_cases_iff)
  have le: "local_below Y \<le> return_below Y" using fitD(5) [OF ok] by simp
  have sp: "entered_sp ?e = top_of Y c" using r by (simp add: runs_def)
  have p: "local_i Y t ?p = local_i Y t s" "return_slot Y t ?p = (if t = c then return_to Y c else return_slot Y t s)"
    if "t < 2" for t
    using print_keep [OF sp c that le ok, of "Yield_returned 0"] push_keep [OF refl c that len ok, of s] by simp_all
  have "waits Y started (1 - c) ?p" using w u p(2) [OF u(1)] by (simp add: waits_def)
  from jump_continues [OF ok this u(1)] obtain s' where s': "jump_to_thread Y (1 - c) ?p = Some s'" "runs Y (1 - c) s'"
    "jmp_env s' = jmp_env ?p" "printed_lines s' = (if started then [Yield_returned 1] else []) @ printed_lines ?p"
    "\<And>t. t < 2 \<Longrightarrow> local_i Y t s' = (if t = 1 - c \<and> \<not> started then 0 else local_i Y t ?p)"
    "\<And>t. t < 2 \<Longrightarrow> t \<noteq> 1 - c \<Longrightarrow> return_slot Y t s' = return_slot Y t ?p" by blast
  have "yield_demo Y s = Some s'" using r s'(1) u(3) by (simp add: yield_demo_def runs_def)
  moreover have "waits Y True c s'" using s'(3) s'(6) [OF c] p(2) [OF c] u(2) by (simp add: waits_def)
  ultimately show ?thesis using s'(2,4) s'(5) [OF c] s'(5) [OF u(1)] p(1) [OF c] p(1) [OF u(1)] u(2) by auto
qed

text \<open>A turn without and with a switch.\<close>

lemma turn_counts:
  assumes ok: "two_stacks Y" and r: "runs Y c s" and c: "c < 2" and i: "i = local_i Y c s + 1" "in_int i"
    and p: "p = print_line Y (local_below Y) (In_thread c i) (store_i Y i s)"
  shows "runs Y c p" and "jmp_env p = jmp_env s" and "printed_lines p = In_thread c i # printed_lines s"
    and "t < 2 \<Longrightarrow> local_i Y t p = (if t = c then i else local_i Y t s)"
    and "t < 2 \<Longrightarrow> t \<noteq> c \<Longrightarrow> return_slot Y t p = return_slot Y t s"
    and "load_i Y s = local_i Y c s"
proof -
  have sp: "entered_sp s = top_of Y c" "entered_sp (store_i Y i s) = top_of Y c" using r by (simp_all add: runs_def)
  show "runs Y c p" "jmp_env p = jmp_env s" "printed_lines p = In_thread c i # printed_lines s"
    using r by (simp_all add: p runs_def)
  show "load_i Y s = local_i Y c s" using sp by (simp add: load_i_def local_i_def)
  assume t: "t < 2"
  show "local_i Y t p = (if t = c then i else local_i Y t s)"
    using print_keep(1) [OF sp(2) c t order_refl ok, of "In_thread c i"] store_keep(1) [OF sp(1) c t i(2) ok] by (simp add: p)
  show "return_slot Y t p = return_slot Y t s" if "t \<noteq> c"
    using print_keep(2) [OF sp(2) c t order_refl ok, of "In_thread c i"] store_keep(2) [OF sp(1) c t i(2) ok] that by (simp add: p)
qed

lemma turn_stays:
  assumes ok: "two_stacks Y" and r: "runs Y c s" and c: "c < 2" and w: "waits Y started (1 - c) s"
    and i: "in_int (local_i Y c s + 1)" "(local_i Y c s + 1) smod m \<noteq> 0"
  shows "\<exists>s'. thread_turn Y c m s = Some s' \<and> runs Y c s' \<and> waits Y started (1 - c) s' \<and>
    printed_lines s' = In_thread c (local_i Y c s + 1) # printed_lines s \<and>
    local_i Y c s' = local_i Y c s + 1 \<and> local_i Y (1 - c) s' = local_i Y (1 - c) s"
proof -
  let ?p = "print_line Y (local_below Y) (In_thread c (local_i Y c s + 1)) (store_i Y (local_i Y c s + 1) s)"
  let ?s' = "call_frames Y (local_below Y) ?p"
  note t = turn_counts [OF ok r c refl i(1) refl]
  have u: "1 - c < 2" "1 - c \<noteq> c" using c by (auto simp: less_2_cases_iff)
  have sp: "entered_sp ?p = top_of Y c" using t(1) by (simp add: runs_def)
  have "thread_turn Y c m s = Some ?s'" using t(6) i by (simp add: thread_turn_def Let_def)
  moreover have "runs Y c ?s'" using t(1) by (simp add: runs_def)
  moreover have "waits Y started (1 - c) ?s'"
    using w t(2,5) u frames_keep(2) [OF sp c u(1) order_refl ok] by (simp add: waits_def)
  ultimately show ?thesis
    using t(3) t(4) [OF c] t(4) [OF u(1)] u(2) frames_keep(1) [OF sp c c order_refl ok]
      frames_keep(1) [OF sp c u(1) order_refl ok] by (intro exI [of _ ?s']) simp
qed

lemma turn_yields:
  assumes ok: "two_stacks Y" and r: "runs Y c s" and c: "c < 2" and w: "waits Y started (1 - c) s"
    and i: "in_int (local_i Y c s + 1)" "(local_i Y c s + 1) smod m = 0"
  shows "\<exists>s'. thread_turn Y c m s = Some s' \<and> runs Y (1 - c) s' \<and> waits Y True c s' \<and>
    printed_lines s' = (if started then [Yield_returned 1] else []) @
      Yield_returned 0 # Yielding c # In_thread c (local_i Y c s + 1) # printed_lines s \<and>
    local_i Y c s' = local_i Y c s + 1 \<and> local_i Y (1 - c) s' = (if started then local_i Y (1 - c) s else 0)"
proof -
  let ?p = "print_line Y (local_below Y) (In_thread c (local_i Y c s + 1)) (store_i Y (local_i Y c s + 1) s)"
  let ?y = "print_line Y (local_below Y) (Yielding c) ?p"
  note t = turn_counts [OF ok r c refl i(1) refl]
  have u: "1 - c < 2" "1 - c \<noteq> c" using c by (auto simp: less_2_cases_iff)
  have sp: "entered_sp ?p = top_of Y c" using t(1) by (simp add: runs_def)
  have "runs Y c ?y" using t(1) by (simp add: runs_def)
  moreover have "waits Y started (1 - c) ?y"
    using w t(2,5) u print_keep(2) [OF sp c u(1) order_refl ok] by (simp add: waits_def)
  ultimately obtain s' where s': "yield_demo Y ?y = Some s'" "runs Y (1 - c) s'" "waits Y True c s'"
    "printed_lines s' = (if started then [Yield_returned 1] else []) @ Yield_returned 0 # printed_lines ?y"
    "local_i Y c s' = local_i Y c ?y" "local_i Y (1 - c) s' = (if started then local_i Y (1 - c) ?y else 0)"
    using yield_switches [OF ok _ c] by blast
  have "thread_turn Y c m s = Some s'" using t(6) i s'(1) by (simp add: thread_turn_def Let_def)
  then show ?thesis
    using s'(2-) t(3) t(4) [OF c] t(4) [OF u(1)] u(2) print_keep(1) [OF sp c c order_refl ok]
      print_keep(1) [OF sp c u(1) order_refl ok] by (intro exI [of _ s']) simp
qed

subsection \<open>The two threads alternate\<close>

text \<open>After \<open>q\<close> full rounds and \<open>r\<close> more turns; a round is three turns of \<open>thread0\<close>, five of \<open>thread1\<close>.\<close>

definition jmp_inv :: "layout \<Rightarrow> nat \<Rightarrow> nat \<Rightarrow> jmp_demo \<Rightarrow> bool" where
  "jmp_inv Y q r s \<longleftrightarrow>
     runs Y (if r < 3 then 0 else 1) s \<and>
     waits Y (0 < q \<or> 3 \<le> r) (if r < 3 then 1 else 0) s \<and>
     local_i Y 0 s = 3 * int q + (if r < 3 then int r else 3) \<and>
     local_i Y 1 s = 5 * int q + (if r < 3 then 0 else int r - 3) \<and>
     count_list (printed_lines s) (Yield_returned 1) = (if r < 3 then 2 * q - 1 else 2 * q)"

lemma c_mod: "0 \<le> n \<Longrightarrow> 0 < k \<Longrightarrow> n smod k = n mod k" for n k :: int
  by (auto simp: signed_modulo_int_def sgn_if)

lemma jmp_inv_start:
  assumes ok: "two_stacks Y"
  shows "\<exists>s. main_jmp Y 0 = Some s \<and> jmp_inv Y 0 0 s"
proof -
  let ?s = "setup_threads Y demo_start"
  have "waits Y False 0 ?s" and w: "jmp_env ?s 1 = fresh_mark Y 1"
    by (simp_all add: waits_def fresh_mark_def setup_threads_def setup_thread_def stack_top_def Let_def)
  from jump_continues [OF ok this(1)] obtain s' where s': "jump_to_thread Y 0 ?s = Some s'" "runs Y 0 s'"
    "jmp_env s' = jmp_env ?s" "printed_lines s' = printed_lines ?s"
    "\<And>t. t < 2 \<Longrightarrow> local_i Y t s' = (if t = 0 then 0 else local_i Y t ?s)" by auto
  have "local_i Y 1 ?s = 0"
    by (simp add: local_i_def setup_threads_def setup_thread_def demo_start_def read_int_def read_bytes_def
        int_of_size_t_def numeral_eq_Suc Let_def)
  then show ?thesis using s' s'(5) [of 0] s'(5) [of 1] w
    by (intro exI [of _ s'])
      (simp add: jmp_inv_def waits_def setup_threads_def setup_thread_def demo_start_def Let_def)
qed

lemma turn0:
  assumes ok: "two_stacks Y" and inv: "jmp_inv Y q r s" and "r < 3" and "3 * int q + 3 \<le> INT_MAX"
  shows "\<exists>s'. thread0 Y s = Some s' \<and> jmp_inv Y q (Suc r) s'"
proof -
  have s: "runs Y 0 s" "waits Y (0 < q) (1 - 0) s" "local_i Y 0 s = 3 * int q + int r"
    using inv assms(3) by (simp_all add: jmp_inv_def)
  have i: "in_int (local_i Y 0 s + 1)" using s(3) assms(3,4) by (auto simp: in_int_def int_limits)
  have m: "(local_i Y 0 s + 1) smod 3 = 0 \<longleftrightarrow> r = 2" using s(3) assms(3) by (simp add: c_mod) presburger
  show ?thesis
  proof (cases "r = 2")
    case True
    with m turn_yields [OF ok s(1) _ s(2) i, of 3] inv show ?thesis
      unfolding thread0_def by (fastforce simp: jmp_inv_def)
  next
    case False
    with m turn_stays [OF ok s(1) _ s(2) i, of 3] inv assms(3) show ?thesis
      unfolding thread0_def by (fastforce simp: jmp_inv_def)
  qed
qed

lemma turn1:
  assumes ok: "two_stacks Y" and inv: "jmp_inv Y q r s" and "3 \<le> r" and "r < 8" and "5 * int q + 5 \<le> INT_MAX"
  shows "\<exists>s'. thread1 Y s = Some s' \<and> (if r = 7 then jmp_inv Y (Suc q) 0 s' else jmp_inv Y q (Suc r) s')"
proof -
  have s: "runs Y 1 s" "waits Y True (1 - 1) s" "local_i Y 1 s = 5 * int q + (int r - 3)"
    using inv assms(3) by (simp_all add: jmp_inv_def)
  have i: "in_int (local_i Y 1 s + 1)" using s(3) assms(3-5) by (auto simp: in_int_def int_limits)
  have m: "(local_i Y 1 s + 1) smod 5 = 0 \<longleftrightarrow> r = 7" using s(3) assms(3,4) by (simp add: c_mod) presburger
  show ?thesis
  proof (cases "r = 7")
    case True
    with m turn_yields [OF ok s(1) _ s(2) i, of 5] inv show ?thesis
      unfolding thread1_def by (fastforce simp: jmp_inv_def)
  next
    case False
    with m turn_stays [OF ok s(1) _ s(2) i, of 5] inv assms(3) show ?thesis
      unfolding thread1_def by (fastforce simp: jmp_inv_def)
  qed
qed

lemma main_jmp_inv:
  assumes ok: "two_stacks Y" and "int n \<le> 2000000000"
  shows "\<exists>s. main_jmp Y n = Some s \<and> jmp_inv Y (n div 8) (n mod 8) s"
  using assms(2)
proof (induction n)
  case 0
  then show ?case using jmp_inv_start [OF ok] by simp
next
  case (Suc n)
  then obtain s where s: "main_jmp Y n = Some s" "jmp_inv Y (n div 8) (n mod 8) s" by auto
  have q: "8 * int (n div 8) \<le> int n" using times_div_less_eq_dividend [of 8 n] by linarith
  have f: "in_function s = (if n mod 8 < 3 then 0 else 1)" using s(2) by (simp add: jmp_inv_def runs_def)
  have next_turn: "Suc n div 8 = (if n mod 8 = 7 then Suc (n div 8) else n div 8)"
    "Suc n mod 8 = (if n mod 8 = 7 then 0 else Suc (n mod 8))"
    by (simp_all add: div_Suc mod_Suc)
  show ?case
  proof (cases "n mod 8 < 3")
    case True
    have "3 * int (n div 8) + 3 \<le> INT_MAX" using q Suc.prems by (simp add: int_limits)
    from turn0 [OF ok s(2) True this] show ?thesis using s(1) f True next_turn by auto
  next
    case False
    have "5 * int (n div 8) + 5 \<le> INT_MAX" using q Suc.prems by (simp add: int_limits)
    from turn1 [OF ok s(2) _ _ this] show ?thesis using s(1) f False next_turn by auto
  qed
qed

text \<open>
  C39. The two threads of \<open>demo_jmp.c\<close> alternate, three numbers of thread 0, then five of thread 1. For
  two arrays that do not overlap, the frames of the functions fitting into them, the program has not
  left its code after \<open>n\<close> turns, for every \<open>n\<close> up to two thousand million (\<open>++i\<close> overflows later):
  the thread that is to run executes its own function with the stack pointer in the last word of its
  own array; the bytes of each local variable, which lies in memory where the other thread and every
  called function write too, hold the number of turns of its own thread; and every switch but the
  first, which starts thread 1, made the \<open>sigsetjmp\<close> of a suspended \<open>yield\<close> return for the second time
  and \<open>yield\<close> return through the address on the stack.
\<close>

theorem jmp_demo_alternates:
  assumes "frames_fit Y" and "blocks_apart (stack_at Y 0) (stack_at Y 1)" and "int n \<le> 2000000000"
  shows "\<exists>s. main_jmp Y n = Some s \<and>
    (let c = if n mod 8 < 3 then 0 else 1 in
     current_thread s = int c \<and> in_function s = c \<and>
     entered_sp s = stack_at Y c + word_of_nat STACK_SIZE - 8) \<and>
    local_i Y 0 s = int (3 * (n div 8) + min 3 (n mod 8)) \<and>
    local_i Y 1 s = int (5 * (n div 8) + (n mod 8 - 3)) \<and>
    local_i Y 0 s + local_i Y 1 s = int n \<and>
    count_list (printed_lines s) (Yield_returned 1) = (if n mod 8 < 3 then 2 * (n div 8) - 1 else 2 * (n div 8))"
proof -
  have ok: "two_stacks Y" using assms(1,2) by (simp add: two_stacks_def)
  obtain s where s: "main_jmp Y n = Some s" "jmp_inv Y (n div 8) (n mod 8) s"
    using main_jmp_inv [OF ok assms(3)] by blast
  have n: "8 * int (n div 8) + int (n mod 8) = int n" by (simp add: zdiv_int zmod_int)
  have i: "local_i Y 0 s = int (3 * (n div 8) + min 3 (n mod 8))"
    "local_i Y 1 s = int (5 * (n div 8) + (n mod 8 - 3))"
    using s(2) by (auto simp: jmp_inv_def)
  moreover from this have "local_i Y 0 s + local_i Y 1 s = int n" using n by (auto simp: min_def)
  ultimately show ?thesis using s by (intro exI [of _ s]) (auto simp: jmp_inv_def runs_def stack_top_def Let_def)
qed

definition demo_layout :: layout where
  "demo_layout = \<lparr>stack_at = (\<lambda>t. 0x10000 + word_of_nat (4096 * t)), entry_at = (\<lambda>t. 0x400 + word_of_nat (256 * t)),
     local_below = 12, return_below = 32, return_to = (\<lambda>t. le_bytes 8 (0x440 + 256 * t)), frame_bytes = 2000,
     leftover = (\<lambda>ls x. 0xAA), jmp_platform = good_platform\<rparr>"

theorem jmp_demo_alternates_witness:
  "\<exists>s. main_jmp demo_layout 20 = Some s \<and> current_thread s = 1 \<and> in_function s = 1 \<and>
     local_i demo_layout 0 s = 9 \<and> local_i demo_layout 1 s = 11"
proof -
  have "le_bytes 8 0x440 \<noteq> le_bytes 8 0x540"
    using le_value_bytes [where k = 8 and n = "0x440"] le_value_bytes [where k = 8 and n = "0x540"]
    by (auto simp del: le_bytes.simps)
  then have "frames_fit demo_layout"
    by (simp add: demo_layout_def frames_fit_def mangling_ok_good_platform STACK_SIZE_def)
  moreover have "blocks_apart (stack_at demo_layout 0) (stack_at demo_layout 1)"
    by (simp add: demo_layout_def blocks_apart_def STACK_SIZE_def)
  ultimately show ?thesis using jmp_demo_alternates [of demo_layout 20] by auto
qed

text \<open>
  The arrays must not overlap: with both threads on one array the two variables are the same four
  bytes, so after the first turn, when the one should be 1 and the other 0, the property fails.
\<close>

lemma one_array_one_variable:
  assumes "stack_at Y 0 = stack_at Y 1"
  shows "local_i Y 0 s = local_i Y 1 s" and "\<not> blocks_apart (stack_at Y 0) (stack_at Y 1)"
  using assms by (simp_all add: local_i_def blocks_apart_def STACK_SIZE_def)

end
