(* ===== verification/DemoSignals.thy ===== *)
theory DemoSignals
  imports Platform
begin

text \<open>
  \<open>demo_itimer.c\<close> and \<open>demo_singInt_handler.c\<close>: a signal handler and the main program it interrupts.
  A step is one statement of \<open>main\<close>, or the delivery of the signal between two statements, which
  runs the handler as a whole (the signal is blocked while it runs).
\<close>

subsection \<open>The interval timer\<close>

text \<open>Where \<open>main\<close> is in its loop: before the test of \<open>gotit\<close>, before \<open>printf\<close>, before \<open>gotit = 0\<close>.\<close>

datatype main_point = At_test | At_print | At_reset

datatype step = Main_step | Timer_signal

record itimer_demo =
  gotit :: int
  main_at :: main_point
  handler_set :: bool
  timer_set :: itimerval
  alive :: bool
  stdout :: "string list"

definition print_line :: "string \<Rightarrow> itimer_demo \<Rightarrow> itimer_demo" where
  "print_line txt s = s\<lparr>stdout := txt # stdout s\<rparr>"

definition timer_handler :: "itimer_demo \<Rightarrow> itimer_demo" where
  "timer_handler s = print_line (''Timer expired'' @ [CHR 0x0A]) (s\<lparr>gotit := 1\<rparr>)"

text \<open>
  \<open>main\<close> up to the loop. \<open>ra\<close> and \<open>rt\<close> are what \<open>sigaction\<close> and \<open>setitimer\<close> return; a failure is
  reported and the program goes on.
\<close>

definition demo_timer :: itimerval where
  "demo_timer =
     \<lparr>it_interval = \<lparr>tv_sec = 3, tv_usec = 0\<rparr>, it_value = \<lparr>tv_sec = 1, tv_usec = 0\<rparr>\<rparr>"

definition itimer_setup :: "int \<Rightarrow> int \<Rightarrow> itimer_demo" where
  "itimer_setup ra rt =
     (let s = \<lparr>gotit = 0, main_at = At_test, handler_set = False, timer_set = zero_timer, alive = True, stdout = []\<rparr>;
          s = (if ra < 0 then print_line ''sigaction error.'' s else s\<lparr>handler_set := True\<rparr>)
      in (if rt \<noteq> 0 then print_line ''setitimer error.'' s else s\<lparr>timer_set := demo_timer\<rparr>))"

text \<open>One statement of the endless loop.\<close>

definition itimer_loop :: "itimer_demo \<Rightarrow> itimer_demo" where
  "itimer_loop s =
     (case main_at s of
        At_test \<Rightarrow> if gotit s \<noteq> 0 then s\<lparr>main_at := At_print\<rparr> else s
      | At_print \<Rightarrow> (print_line (''Got it!'' @ [CHR 0x0A]) s)\<lparr>main_at := At_reset\<rparr>
      | At_reset \<Rightarrow> s\<lparr>gotit := 0, main_at := At_test\<rparr>)"

text \<open>Without a handler the default action of \<open>SIGVTALRM\<close> ends the process.\<close>

fun itimer_step :: "step \<Rightarrow> itimer_demo \<Rightarrow> itimer_demo" where
  "itimer_step Main_step s = (if alive s then itimer_loop s else s)"
| "itimer_step Timer_signal s =
     (if \<not> alive s then s else if handler_set s then timer_handler s else s\<lparr>alive := False\<rparr>)"

definition itimer_run :: "step list \<Rightarrow> itimer_demo" where
  "itimer_run steps = fold itimer_step steps (itimer_setup 0 0)"

abbreviation expired :: string where "expired \<equiv> ''Timer expired'' @ [CHR 0x0A]"

abbreviation got_it :: string where "got_it \<equiv> ''Got it!'' @ [CHR 0x0A]"

text \<open>
  Expiries that \<open>main\<close> has still to report: one if the flag is set (and not about to be reset), which
  may stand for several expiries.
\<close>

definition pending :: "itimer_demo \<Rightarrow> nat" where
  "pending s = (if main_at s = At_print \<or> main_at s = At_test \<and> gotit s \<noteq> 0 then 1 else 0)"

definition itimer_inv :: "itimer_demo \<Rightarrow> bool" where
  "itimer_inv s \<longleftrightarrow> alive s \<and> handler_set s \<and> timer_set s = demo_timer \<and> (gotit s = 1 \<or> gotit s = 0 \<and> main_at s = At_test) \<and>
     count_list (stdout s) got_it + pending s \<le> count_list (stdout s) expired"

lemma itimer_inv_step: "itimer_inv s \<Longrightarrow> itimer_inv (itimer_step a s)"
  by (cases a; cases "main_at s")
    (auto simp: itimer_inv_def itimer_loop_def timer_handler_def print_line_def pending_def)

lemma itimer_inv_fold: "itimer_inv s \<Longrightarrow> itimer_inv (fold itimer_step steps s)"
  by (induction steps arbitrary: s) (simp_all add: itimer_inv_step)

lemma itimer_run_inv: "itimer_inv (itimer_run steps)"
  unfolding itimer_run_def
  by (rule itimer_inv_fold)
    (simp add: itimer_inv_def itimer_setup_def Let_def pending_def print_line_def)

text \<open>
  C40. The notification between the handler and the loop of \<open>demo_itimer.c\<close>, for every interleaving of
  timer signals with the statements of \<open>main\<close>: the program keeps running, it never says \<open>Got it!\<close> more
  often than the timer expired, and a signal that arrives before the test or the \<open>printf\<close> is
  reported within two more statements; but one that arrives between the \<open>printf\<close> and \<open>gotit = 0\<close> is
  forgotten, since the flag is cleared without another report.
\<close>

theorem itimer_demo_notifies:
  "alive (itimer_run steps) \<and>
   count_list (stdout (itimer_run steps)) got_it \<le> count_list (stdout (itimer_run steps)) expired \<and>
   (let s = itimer_run (steps @ [Timer_signal]) in
      if main_at s = At_reset
      then gotit (itimer_step Main_step s) = 0 \<and> stdout (itimer_step Main_step s) = stdout s
      else \<exists>k \<le> 2. stdout (fold itimer_step (replicate k Main_step) s) = got_it # stdout s)"
proof -
  let ?s = "itimer_run (steps @ [Timer_signal])"
  have inv: "itimer_inv (itimer_run steps)" "itimer_inv ?s" by (rule itimer_run_inv)+
  have got: "gotit ?s = 1"
    using inv(1) by (simp add: itimer_run_def itimer_inv_def timer_handler_def print_line_def)
  have "\<exists>k \<le> 2. stdout (fold itimer_step (replicate k Main_step) ?s) = got_it # stdout ?s"
    if "main_at ?s \<noteq> At_reset"
  proof (cases "main_at ?s")
    case At_test
    with got inv(2) show ?thesis
      by (intro exI [of _ 2]) (simp add: itimer_inv_def itimer_loop_def print_line_def numeral_2_eq_2)
  next
    case At_print
    with got inv(2) show ?thesis
      by (intro exI [of _ 1]) (simp add: itimer_inv_def itimer_loop_def print_line_def)
  qed (use that in simp)
  moreover have "gotit (itimer_step Main_step ?s) = 0 \<and> stdout (itimer_step Main_step ?s) = stdout ?s"
    if "main_at ?s = At_reset"
    using that inv(2) by (simp add: itimer_inv_def itimer_loop_def)
  ultimately show ?thesis using inv(1) by (simp add: itimer_inv_def Let_def)
qed

subsection \<open>The handler of SIGINT\<close>

text \<open>
  \<open>struct sigaction sa\<close> is not initialised but for the handler, so its flags are whatever was on the
  stack: a parameter. Of the flags only \<open>SA_RESETHAND\<close> matters here, which restores the default action
  when the handler is entered.
\<close>

record sigint_demo =
  int_handler :: bool
  resethand :: bool
  running :: bool
  lines :: "string list"

definition sigint_main :: "int \<Rightarrow> bool \<Rightarrow> sigint_demo" where
  "sigint_main ra flag =
     (if ra < 0
      then \<lparr>int_handler = False, resethand = False, running = True, lines = [''sigaction error.'']\<rparr>
      else \<lparr>int_handler = True, resethand = flag, running = True, lines = []\<rparr>)"

definition catch_int :: "sigint_demo \<Rightarrow> sigint_demo" where
  "catch_int s = s\<lparr>lines := ('' Don'' @ [CHR 0x27] @ ''t do that!'' @ [CHR 0x0A]) # lines s\<rparr>"

text \<open>A delivery of SIGINT; between two of them \<open>main\<close> waits in \<open>pause\<close>.\<close>

definition sigint :: "sigint_demo \<Rightarrow> sigint_demo" where
  "sigint s =
     (if \<not> running s then s
      else if int_handler s then catch_int (s\<lparr>int_handler := \<not> resethand s\<rparr>)
      else s\<lparr>running := False\<rparr>)"

lemma sigint_ignored: "running ((sigint ^^ n) (sigint_main 0 False)) \<and> length (lines ((sigint ^^ n) (sigint_main 0 False))) = n"
proof -
  have "(sigint ^^ n) (sigint_main 0 False) =
      \<lparr>int_handler = True, resethand = False, running = True,
       lines = replicate n ('' Don'' @ [CHR 0x27] @ ''t do that!'' @ [CHR 0x0A])\<rparr>"
    by (induction n) (simp_all add: sigint_main_def sigint_def catch_int_def)
  then show ?thesis by simp
qed

lemma sigint_second_kills: "\<not> running ((sigint ^^ Suc (Suc n)) (sigint_main 0 True))"
  by (induction n) (simp_all add: sigint_main_def sigint_def catch_int_def)

end
