(* ===== verification/Preproc.thy ===== *)
theory Preproc
  imports "HOL-Library.Word" "HOL-Library.Signed_Division" "HOL-Library.Char_ord"
begin

unbundle bit_operations_syntax

text \<open>
  The C preprocessor as the compiler probes of the build directory use it (the files
  \<open>CMakeCCompilerId.c\<close> and \<open>CMakeCXXCompilerId.cpp\<close> that CMake compiles to find out which compiler
  it has). A probe is a function of the macros the compiler predefines: the parameter of the model.
\<close>

subsection \<open>Predefined macros\<close>

text \<open>What a macro stands for: a number with its spelling, a string literal, nothing.\<close>

datatype token = Number string int | Literal string | Blank

type_synonym macros = "string \<Rightarrow> token option"

definition is_defined :: "macros \<Rightarrow> string \<Rightarrow> bool" where
  "is_defined m x \<longleftrightarrow> m x \<noteq> None"

text \<open>
  A name in an arithmetic \<open>#if\<close>: what is not a macro counts as 0. (The macros that are compared
  stand for numbers, if they are defined.)
\<close>

definition num :: "macros \<Rightarrow> string \<Rightarrow> int" where
  "num m x = (case m x of Some (Number sp n) \<Rightarrow> n | _ \<Rightarrow> 0)"

text \<open>
  A name in an expression of the program: \<open>None\<close> where the program does not compile, because the
  name is not a macro for a number.
\<close>

definition operand :: "macros \<Rightarrow> string \<Rightarrow> int option" where
  "operand m x = (case m x of Some (Number sp n) \<Rightarrow> Some n | _ \<Rightarrow> None)"

text \<open>A name between string literals, and the operator \<open>#\<close> of \<open>STRINGIFY\<close>.\<close>

definition literal :: "macros \<Rightarrow> string \<Rightarrow> string option" where
  "literal m x = (case m x of Some (Literal s) \<Rightarrow> Some s | Some Blank \<Rightarrow> Some '''' | _ \<Rightarrow> None)"

definition stringify :: "macros \<Rightarrow> string \<Rightarrow> string" where
  "stringify m x =
     (case m x of None \<Rightarrow> x | Some (Number sp n) \<Rightarrow> sp
      | Some (Literal s) \<Rightarrow> [CHR 0x22] @ s @ [CHR 0x22] | Some Blank \<Rightarrow> '''')"

subsection \<open>Digits\<close>

definition DEC :: "int \<Rightarrow> string" where
  "DEC n = map (\<lambda>d. char_of (48 + d))
     [n sdiv 10000000 smod 10, n sdiv 1000000 smod 10, n sdiv 100000 smod 10, n sdiv 10000 smod 10,
      n sdiv 1000 smod 10, n sdiv 100 smod 10, n sdiv 10 smod 10, n smod 10]"

definition HEX :: "int \<Rightarrow> string" where
  "HEX n = map (\<lambda>d. char_of (48 + d))
     [drop_bit 28 n AND 0xF, drop_bit 24 n AND 0xF, drop_bit 20 n AND 0xF, drop_bit 16 n AND 0xF,
      drop_bit 12 n AND 0xF, drop_bit 8 n AND 0xF, drop_bit 4 n AND 0xF, n AND 0xF]"

text \<open>\<open>DEC(e)\<close> and \<open>HEX(e)\<close> where \<open>e\<close> is an expression over one macro.\<close>

definition expand :: "(int \<Rightarrow> string) \<Rightarrow> macros \<Rightarrow> string \<Rightarrow> string option" where
  "expand f m x = map_option f (operand m x)"

subsection \<open>The macros a probe defines\<close>

text \<open>
  What \<open>#define\<close> has given the macros of the probe so far; \<open>None\<close> is not defined. A version
  component is a text, or \<open>None\<close> where it does not compile.
\<close>

record ids =
  COMPILER_ID :: string
  SIMULATE_ID :: "string option"
  COMPILER_VERSION :: "string option option"
  COMPILER_VERSION_MAJOR :: "string option option"
  COMPILER_VERSION_MINOR :: "string option option"
  COMPILER_VERSION_PATCH :: "string option option"
  COMPILER_VERSION_TWEAK :: "string option option"
  COMPILER_VERSION_INTERNAL :: "string option option"
  COMPILER_VERSION_INTERNAL_STR :: "string option option"
  SIMULATE_VERSION_MAJOR :: "string option option"
  SIMULATE_VERSION_MINOR :: "string option option"
  SIMULATE_VERSION_PATCH :: "string option option"

definition no_ids :: ids where
  "no_ids =
     \<lparr>COMPILER_ID = '''', SIMULATE_ID = None, COMPILER_VERSION = None, COMPILER_VERSION_MAJOR = None,
      COMPILER_VERSION_MINOR = None, COMPILER_VERSION_PATCH = None, COMPILER_VERSION_TWEAK = None,
      COMPILER_VERSION_INTERNAL = None, COMPILER_VERSION_INTERNAL_STR = None,
      SIMULATE_VERSION_MAJOR = None, SIMULATE_VERSION_MINOR = None, SIMULATE_VERSION_PATCH = None\<rparr>"

text \<open>A \<open>#define\<close>; a second one for the same name replaces the first.\<close>

type_synonym directive = "ids \<Rightarrow> ids"

abbreviation define_COMPILER_ID :: "string \<Rightarrow> directive" where
  "define_COMPILER_ID v \<equiv> COMPILER_ID_update (\<lambda>_. v)"

abbreviation define_SIMULATE_ID :: "string \<Rightarrow> directive" where
  "define_SIMULATE_ID v \<equiv> SIMULATE_ID_update (\<lambda>_. Some v)"

abbreviation define_COMPILER_VERSION :: "string option \<Rightarrow> directive" where
  "define_COMPILER_VERSION v \<equiv> COMPILER_VERSION_update (\<lambda>_. Some v)"

abbreviation define_COMPILER_VERSION_MAJOR :: "string option \<Rightarrow> directive" where
  "define_COMPILER_VERSION_MAJOR v \<equiv> COMPILER_VERSION_MAJOR_update (\<lambda>_. Some v)"

abbreviation define_COMPILER_VERSION_MINOR :: "string option \<Rightarrow> directive" where
  "define_COMPILER_VERSION_MINOR v \<equiv> COMPILER_VERSION_MINOR_update (\<lambda>_. Some v)"

abbreviation define_COMPILER_VERSION_PATCH :: "string option \<Rightarrow> directive" where
  "define_COMPILER_VERSION_PATCH v \<equiv> COMPILER_VERSION_PATCH_update (\<lambda>_. Some v)"

abbreviation define_COMPILER_VERSION_TWEAK :: "string option \<Rightarrow> directive" where
  "define_COMPILER_VERSION_TWEAK v \<equiv> COMPILER_VERSION_TWEAK_update (\<lambda>_. Some v)"

abbreviation define_COMPILER_VERSION_INTERNAL :: "string option \<Rightarrow> directive" where
  "define_COMPILER_VERSION_INTERNAL v \<equiv> COMPILER_VERSION_INTERNAL_update (\<lambda>_. Some v)"

abbreviation define_COMPILER_VERSION_INTERNAL_STR :: "string option \<Rightarrow> directive" where
  "define_COMPILER_VERSION_INTERNAL_STR v \<equiv> COMPILER_VERSION_INTERNAL_STR_update (\<lambda>_. Some v)"

abbreviation define_SIMULATE_VERSION_MAJOR :: "string option \<Rightarrow> directive" where
  "define_SIMULATE_VERSION_MAJOR v \<equiv> SIMULATE_VERSION_MAJOR_update (\<lambda>_. Some v)"

abbreviation define_SIMULATE_VERSION_MINOR :: "string option \<Rightarrow> directive" where
  "define_SIMULATE_VERSION_MINOR v \<equiv> SIMULATE_VERSION_MINOR_update (\<lambda>_. Some v)"

abbreviation define_SIMULATE_VERSION_PATCH :: "string option \<Rightarrow> directive" where
  "define_SIMULATE_VERSION_PATCH v \<equiv> SIMULATE_VERSION_PATCH_update (\<lambda>_. Some v)"

text \<open>The directives of a group, in their order.\<close>

fun directives :: "directive list \<Rightarrow> directive" where
  "directives [] d = d"
| "directives (f # fs) d = directives fs (f d)"

end
