(* ===== verification/CompilerId.thy ===== *)
theory CompilerId
  imports Preproc
begin

text \<open>
  The identification of the C compiler in \<open>CMakeFiles/3.22.3/CompilerIdC/CMakeCCompilerId.c\<close>: one
  definition for each branch of the cascade that defines \<open>COMPILER_ID\<close> and the version macros, in
  the order of the file, and the cascade that picks the first branch whose condition holds.
\<close>

definition id_Intel :: "macros \<Rightarrow> ids \<Rightarrow> ids" where
  "id_Intel m = directives
     [define_COMPILER_ID ''Intel'',
      (if is_defined m ''_MSC_VER'' then directives
         [define_SIMULATE_ID ''MSVC''] else id),
      (if is_defined m ''__GNUC__'' then directives
         [define_SIMULATE_ID ''GNU''] else id),
      (if (num m ''__INTEL_COMPILER'' < 2021) \<or> (num m ''__INTEL_COMPILER'' = 202110) \<or>
            (num m ''__INTEL_COMPILER'' = 202111) then directives
         [define_COMPILER_VERSION_MAJOR (expand (\<lambda>n. DEC (n sdiv 100)) m ''__INTEL_COMPILER''),
          define_COMPILER_VERSION_MINOR (expand (\<lambda>n. DEC (n sdiv 10 smod 10)) m ''__INTEL_COMPILER''),
          (if is_defined m ''__INTEL_COMPILER_UPDATE'' then directives
             [define_COMPILER_VERSION_PATCH (expand DEC m ''__INTEL_COMPILER_UPDATE'')]
           else directives
             [define_COMPILER_VERSION_PATCH (expand (\<lambda>n. DEC (n smod 10)) m ''__INTEL_COMPILER'')])]
       else directives
         [define_COMPILER_VERSION_MAJOR (expand DEC m ''__INTEL_COMPILER''),
          define_COMPILER_VERSION_MINOR (expand DEC m ''__INTEL_COMPILER_UPDATE''),
          define_COMPILER_VERSION_PATCH (Some (DEC 0))]),
      (if is_defined m ''__INTEL_COMPILER_BUILD_DATE'' then directives
         [define_COMPILER_VERSION_TWEAK (expand DEC m ''__INTEL_COMPILER_BUILD_DATE'')] else id),
      (if is_defined m ''_MSC_VER'' then directives
         [define_SIMULATE_VERSION_MAJOR (expand (\<lambda>n. DEC (n sdiv 100)) m ''_MSC_VER''),
          define_SIMULATE_VERSION_MINOR (expand (\<lambda>n. DEC (n smod 100)) m ''_MSC_VER'')] else id),
      (if is_defined m ''__GNUC__'' then directives
         [define_SIMULATE_VERSION_MAJOR (expand DEC m ''__GNUC__'')]
       else if is_defined m ''__GNUG__'' then directives
         [define_SIMULATE_VERSION_MAJOR (expand DEC m ''__GNUG__'')] else id),
      (if is_defined m ''__GNUC_MINOR__'' then directives
         [define_SIMULATE_VERSION_MINOR (expand DEC m ''__GNUC_MINOR__'')] else id),
      (if is_defined m ''__GNUC_PATCHLEVEL__'' then directives
         [define_SIMULATE_VERSION_PATCH (expand DEC m ''__GNUC_PATCHLEVEL__'')] else id)]"

definition id_IntelLLVM :: "macros \<Rightarrow> ids \<Rightarrow> ids" where
  "id_IntelLLVM m = directives
     [define_COMPILER_ID ''IntelLLVM'',
      (if is_defined m ''_MSC_VER'' then directives
         [define_SIMULATE_ID ''MSVC''] else id),
      (if is_defined m ''__GNUC__'' then directives
         [define_SIMULATE_ID ''GNU''] else id),
      (if num m ''__INTEL_LLVM_COMPILER'' < 1000000 then directives
         [define_COMPILER_VERSION_MAJOR (expand (\<lambda>n. DEC (n sdiv 100)) m ''__INTEL_LLVM_COMPILER''),
          define_COMPILER_VERSION_MINOR (expand (\<lambda>n. DEC (n sdiv 10 smod 10)) m ''__INTEL_LLVM_COMPILER''),
          define_COMPILER_VERSION_PATCH (expand (\<lambda>n. DEC (n smod 10)) m ''__INTEL_LLVM_COMPILER'')]
       else directives
         [define_COMPILER_VERSION_MAJOR (expand (\<lambda>n. DEC (n sdiv 10000)) m ''__INTEL_LLVM_COMPILER''),
          define_COMPILER_VERSION_MINOR (expand (\<lambda>n. DEC (n sdiv 100 smod 100)) m ''__INTEL_LLVM_COMPILER''),
          define_COMPILER_VERSION_PATCH (expand (\<lambda>n. DEC (n smod 100)) m ''__INTEL_LLVM_COMPILER'')]),
      (if is_defined m ''_MSC_VER'' then directives
         [define_SIMULATE_VERSION_MAJOR (expand (\<lambda>n. DEC (n sdiv 100)) m ''_MSC_VER''),
          define_SIMULATE_VERSION_MINOR (expand (\<lambda>n. DEC (n smod 100)) m ''_MSC_VER'')] else id),
      (if is_defined m ''__GNUC__'' then directives
         [define_SIMULATE_VERSION_MAJOR (expand DEC m ''__GNUC__'')]
       else if is_defined m ''__GNUG__'' then directives
         [define_SIMULATE_VERSION_MAJOR (expand DEC m ''__GNUG__'')] else id),
      (if is_defined m ''__GNUC_MINOR__'' then directives
         [define_SIMULATE_VERSION_MINOR (expand DEC m ''__GNUC_MINOR__'')] else id),
      (if is_defined m ''__GNUC_PATCHLEVEL__'' then directives
         [define_SIMULATE_VERSION_PATCH (expand DEC m ''__GNUC_PATCHLEVEL__'')] else id)]"

definition id_PathScale :: "macros \<Rightarrow> ids \<Rightarrow> ids" where
  "id_PathScale m = directives
     [define_COMPILER_ID ''PathScale'',
      define_COMPILER_VERSION_MAJOR (expand DEC m ''__PATHCC__''),
      define_COMPILER_VERSION_MINOR (expand DEC m ''__PATHCC_MINOR__''),
      (if is_defined m ''__PATHCC_PATCHLEVEL__'' then directives
         [define_COMPILER_VERSION_PATCH (expand DEC m ''__PATHCC_PATCHLEVEL__'')] else id)]"

definition id_Embarcadero :: "macros \<Rightarrow> ids \<Rightarrow> ids" where
  "id_Embarcadero m = directives
     [define_COMPILER_ID ''Embarcadero'',
      define_COMPILER_VERSION_MAJOR (expand (\<lambda>n. HEX (drop_bit 24 n AND 0x00FF)) m ''__CODEGEARC_VERSION__''),
      define_COMPILER_VERSION_MINOR (expand (\<lambda>n. HEX (drop_bit 16 n AND 0x00FF)) m ''__CODEGEARC_VERSION__''),
      define_COMPILER_VERSION_PATCH (expand (\<lambda>n. DEC (n AND 0xFFFF)) m ''__CODEGEARC_VERSION__'')]"

definition id_Borland :: "macros \<Rightarrow> ids \<Rightarrow> ids" where
  "id_Borland m = directives
     [define_COMPILER_ID ''Borland'',
      define_COMPILER_VERSION_MAJOR (expand (\<lambda>n. HEX (drop_bit 8 n)) m ''__BORLANDC__''),
      define_COMPILER_VERSION_MINOR (expand (\<lambda>n. HEX (n AND 0xFF)) m ''__BORLANDC__'')]"

definition id_Watcom :: "macros \<Rightarrow> ids \<Rightarrow> ids" where
  "id_Watcom m = directives
     [define_COMPILER_ID ''Watcom'',
      define_COMPILER_VERSION_MAJOR (expand (\<lambda>n. DEC (n sdiv 100)) m ''__WATCOMC__''),
      define_COMPILER_VERSION_MINOR (expand (\<lambda>n. DEC (n sdiv 10 smod 10)) m ''__WATCOMC__''),
      (if num m ''__WATCOMC__'' smod 10 > 0 then directives
         [define_COMPILER_VERSION_PATCH (expand (\<lambda>n. DEC (n smod 10)) m ''__WATCOMC__'')] else id)]"

definition id_OpenWatcom :: "macros \<Rightarrow> ids \<Rightarrow> ids" where
  "id_OpenWatcom m = directives
     [define_COMPILER_ID ''OpenWatcom'',
      define_COMPILER_VERSION_MAJOR (expand (\<lambda>n. DEC ((n - 1100) sdiv 100)) m ''__WATCOMC__''),
      define_COMPILER_VERSION_MINOR (expand (\<lambda>n. DEC (n sdiv 10 smod 10)) m ''__WATCOMC__''),
      (if num m ''__WATCOMC__'' smod 10 > 0 then directives
         [define_COMPILER_VERSION_PATCH (expand (\<lambda>n. DEC (n smod 10)) m ''__WATCOMC__'')] else id)]"

definition id_SunPro :: "macros \<Rightarrow> ids \<Rightarrow> ids" where
  "id_SunPro m = directives
     [define_COMPILER_ID ''SunPro'',
      (if num m ''__SUNPRO_C'' \<ge> 0x5100 then directives
         [define_COMPILER_VERSION_MAJOR (expand (\<lambda>n. HEX (drop_bit 12 n)) m ''__SUNPRO_C''),
          define_COMPILER_VERSION_MINOR (expand (\<lambda>n. HEX (drop_bit 4 n AND 0xFF)) m ''__SUNPRO_C''),
          define_COMPILER_VERSION_PATCH (expand (\<lambda>n. HEX (n AND 0xF)) m ''__SUNPRO_C'')]
       else directives
         [define_COMPILER_VERSION_MAJOR (expand (\<lambda>n. HEX (drop_bit 8 n)) m ''__SUNPRO_C''),
          define_COMPILER_VERSION_MINOR (expand (\<lambda>n. HEX (drop_bit 4 n AND 0xF)) m ''__SUNPRO_C''),
          define_COMPILER_VERSION_PATCH (expand (\<lambda>n. HEX (n AND 0xF)) m ''__SUNPRO_C'')])]"

definition id_HP :: "macros \<Rightarrow> ids \<Rightarrow> ids" where
  "id_HP m = directives
     [define_COMPILER_ID ''HP'',
      define_COMPILER_VERSION_MAJOR (expand (\<lambda>n. DEC (n sdiv 10000)) m ''__HP_cc''),
      define_COMPILER_VERSION_MINOR (expand (\<lambda>n. DEC (n sdiv 100 smod 100)) m ''__HP_cc''),
      define_COMPILER_VERSION_PATCH (expand (\<lambda>n. DEC (n smod 100)) m ''__HP_cc'')]"

definition id_Compaq :: "macros \<Rightarrow> ids \<Rightarrow> ids" where
  "id_Compaq m = directives
     [define_COMPILER_ID ''Compaq'',
      define_COMPILER_VERSION_MAJOR (expand (\<lambda>n. DEC (n sdiv 10000000)) m ''__DECC_VER''),
      define_COMPILER_VERSION_MINOR (expand (\<lambda>n. DEC (n sdiv 100000 smod 100)) m ''__DECC_VER''),
      define_COMPILER_VERSION_PATCH (expand (\<lambda>n. DEC (n smod 10000)) m ''__DECC_VER'')]"

definition id_zOS :: "macros \<Rightarrow> ids \<Rightarrow> ids" where
  "id_zOS m = directives
     [define_COMPILER_ID ''zOS'',
      define_COMPILER_VERSION_MAJOR (expand (\<lambda>n. DEC (n sdiv 100)) m ''__IBMC__''),
      define_COMPILER_VERSION_MINOR (expand (\<lambda>n. DEC (n sdiv 10 smod 10)) m ''__IBMC__''),
      define_COMPILER_VERSION_PATCH (expand (\<lambda>n. DEC (n smod 10)) m ''__IBMC__'')]"

definition id_XLClang :: "macros \<Rightarrow> ids \<Rightarrow> ids" where
  "id_XLClang m = directives
     [define_COMPILER_ID ''XLClang'',
      define_COMPILER_VERSION_MAJOR (expand DEC m ''__ibmxl_version__''),
      define_COMPILER_VERSION_MINOR (expand DEC m ''__ibmxl_release__''),
      define_COMPILER_VERSION_PATCH (expand DEC m ''__ibmxl_modification__''),
      define_COMPILER_VERSION_TWEAK (expand DEC m ''__ibmxl_ptf_fix_level__'')]"

definition id_XL :: "macros \<Rightarrow> ids \<Rightarrow> ids" where
  "id_XL m = directives
     [define_COMPILER_ID ''XL'',
      define_COMPILER_VERSION_MAJOR (expand (\<lambda>n. DEC (n sdiv 100)) m ''__IBMC__''),
      define_COMPILER_VERSION_MINOR (expand (\<lambda>n. DEC (n sdiv 10 smod 10)) m ''__IBMC__''),
      define_COMPILER_VERSION_PATCH (expand (\<lambda>n. DEC (n smod 10)) m ''__IBMC__'')]"

definition id_VisualAge :: "macros \<Rightarrow> ids \<Rightarrow> ids" where
  "id_VisualAge m = directives
     [define_COMPILER_ID ''VisualAge'',
      define_COMPILER_VERSION_MAJOR (expand (\<lambda>n. DEC (n sdiv 100)) m ''__IBMC__''),
      define_COMPILER_VERSION_MINOR (expand (\<lambda>n. DEC (n sdiv 10 smod 10)) m ''__IBMC__''),
      define_COMPILER_VERSION_PATCH (expand (\<lambda>n. DEC (n smod 10)) m ''__IBMC__'')]"

definition id_NVHPC :: "macros \<Rightarrow> ids \<Rightarrow> ids" where
  "id_NVHPC m = directives
     [define_COMPILER_ID ''NVHPC'',
      define_COMPILER_VERSION_MAJOR (expand DEC m ''__NVCOMPILER_MAJOR__''),
      define_COMPILER_VERSION_MINOR (expand DEC m ''__NVCOMPILER_MINOR__''),
      (if is_defined m ''__NVCOMPILER_PATCHLEVEL__'' then directives
         [define_COMPILER_VERSION_PATCH (expand DEC m ''__NVCOMPILER_PATCHLEVEL__'')] else id)]"

definition id_PGI :: "macros \<Rightarrow> ids \<Rightarrow> ids" where
  "id_PGI m = directives
     [define_COMPILER_ID ''PGI'',
      define_COMPILER_VERSION_MAJOR (expand DEC m ''__PGIC__''),
      define_COMPILER_VERSION_MINOR (expand DEC m ''__PGIC_MINOR__''),
      (if is_defined m ''__PGIC_PATCHLEVEL__'' then directives
         [define_COMPILER_VERSION_PATCH (expand DEC m ''__PGIC_PATCHLEVEL__'')] else id)]"

definition id_Cray :: "macros \<Rightarrow> ids \<Rightarrow> ids" where
  "id_Cray m = directives
     [define_COMPILER_ID ''Cray'',
      define_COMPILER_VERSION_MAJOR (expand DEC m ''_RELEASE_MAJOR''),
      define_COMPILER_VERSION_MINOR (expand DEC m ''_RELEASE_MINOR'')]"

definition id_TI :: "macros \<Rightarrow> ids \<Rightarrow> ids" where
  "id_TI m = directives
     [define_COMPILER_ID ''TI'',
      define_COMPILER_VERSION_MAJOR (expand (\<lambda>n. DEC (n sdiv 1000000)) m ''__TI_COMPILER_VERSION__''),
      define_COMPILER_VERSION_MINOR (expand (\<lambda>n. DEC (n sdiv 1000 smod 1000)) m ''__TI_COMPILER_VERSION__''),
      define_COMPILER_VERSION_PATCH (expand (\<lambda>n. DEC (n smod 1000)) m ''__TI_COMPILER_VERSION__'')]"

definition id_FujitsuClang :: "macros \<Rightarrow> ids \<Rightarrow> ids" where
  "id_FujitsuClang m = directives
     [define_COMPILER_ID ''FujitsuClang'',
      define_COMPILER_VERSION_MAJOR (expand DEC m ''__FCC_major__''),
      define_COMPILER_VERSION_MINOR (expand DEC m ''__FCC_minor__''),
      define_COMPILER_VERSION_PATCH (expand DEC m ''__FCC_patchlevel__''),
      define_COMPILER_VERSION_INTERNAL_STR (literal m ''__clang_version__'')]"

definition id_Fujitsu :: "macros \<Rightarrow> ids \<Rightarrow> ids" where
  "id_Fujitsu m = directives
     [define_COMPILER_ID ''Fujitsu'',
      (if is_defined m ''__FCC_version__'' then directives
         [define_COMPILER_VERSION (literal m ''__FCC_version__'')]
       else if is_defined m ''__FCC_major__'' then directives
         [define_COMPILER_VERSION_MAJOR (expand DEC m ''__FCC_major__''),
          define_COMPILER_VERSION_MINOR (expand DEC m ''__FCC_minor__''),
          define_COMPILER_VERSION_PATCH (expand DEC m ''__FCC_patchlevel__'')] else id),
      (if is_defined m ''__fcc_version'' then directives
         [define_COMPILER_VERSION_INTERNAL (expand DEC m ''__fcc_version'')]
       else if is_defined m ''__FCC_VERSION'' then directives
         [define_COMPILER_VERSION_INTERNAL (expand DEC m ''__FCC_VERSION'')] else id)]"

definition id_GHS :: "macros \<Rightarrow> ids \<Rightarrow> ids" where
  "id_GHS m = directives
     [define_COMPILER_ID ''GHS'',
      (if is_defined m ''__GHS_VERSION_NUMBER'' then directives
         [define_COMPILER_VERSION_MAJOR (expand (\<lambda>n. DEC (n sdiv 100)) m ''__GHS_VERSION_NUMBER''),
          define_COMPILER_VERSION_MINOR (expand (\<lambda>n. DEC (n sdiv 10 smod 10)) m ''__GHS_VERSION_NUMBER''),
          define_COMPILER_VERSION_PATCH (expand (\<lambda>n. DEC (n smod 10)) m ''__GHS_VERSION_NUMBER'')] else id)]"

definition id_TinyCC :: "macros \<Rightarrow> ids \<Rightarrow> ids" where
  "id_TinyCC m = directives
     [define_COMPILER_ID ''TinyCC'']"

definition id_Bruce :: "macros \<Rightarrow> ids \<Rightarrow> ids" where
  "id_Bruce m = directives
     [define_COMPILER_ID ''Bruce'']"

definition id_SCO :: "macros \<Rightarrow> ids \<Rightarrow> ids" where
  "id_SCO m = directives
     [define_COMPILER_ID ''SCO'']"

definition id_ARMCC :: "macros \<Rightarrow> ids \<Rightarrow> ids" where
  "id_ARMCC m = directives
     [define_COMPILER_ID ''ARMCC'',
      (if num m ''__ARMCC_VERSION'' \<ge> 1000000 then directives
         [define_COMPILER_VERSION_MAJOR (expand (\<lambda>n. DEC (n sdiv 1000000)) m ''__ARMCC_VERSION''),
          define_COMPILER_VERSION_MINOR (expand (\<lambda>n. DEC (n sdiv 10000 smod 100)) m ''__ARMCC_VERSION''),
          define_COMPILER_VERSION_PATCH (expand (\<lambda>n. DEC (n smod 10000)) m ''__ARMCC_VERSION'')]
       else directives
         [define_COMPILER_VERSION_MAJOR (expand (\<lambda>n. DEC (n sdiv 100000)) m ''__ARMCC_VERSION''),
          define_COMPILER_VERSION_MINOR (expand (\<lambda>n. DEC (n sdiv 10000 smod 10)) m ''__ARMCC_VERSION''),
          define_COMPILER_VERSION_PATCH (expand (\<lambda>n. DEC (n smod 10000)) m ''__ARMCC_VERSION'')])]"

definition id_AppleClang :: "macros \<Rightarrow> ids \<Rightarrow> ids" where
  "id_AppleClang m = directives
     [define_COMPILER_ID ''AppleClang'',
      (if is_defined m ''_MSC_VER'' then directives
         [define_SIMULATE_ID ''MSVC''] else id),
      define_COMPILER_VERSION_MAJOR (expand DEC m ''__clang_major__''),
      define_COMPILER_VERSION_MINOR (expand DEC m ''__clang_minor__''),
      define_COMPILER_VERSION_PATCH (expand DEC m ''__clang_patchlevel__''),
      (if is_defined m ''_MSC_VER'' then directives
         [define_SIMULATE_VERSION_MAJOR (expand (\<lambda>n. DEC (n sdiv 100)) m ''_MSC_VER''),
          define_SIMULATE_VERSION_MINOR (expand (\<lambda>n. DEC (n smod 100)) m ''_MSC_VER'')] else id),
      define_COMPILER_VERSION_TWEAK (expand DEC m ''__apple_build_version__'')]"

definition id_ARMClang :: "macros \<Rightarrow> ids \<Rightarrow> ids" where
  "id_ARMClang m = directives
     [define_COMPILER_ID ''ARMClang'',
      define_COMPILER_VERSION_MAJOR (expand (\<lambda>n. DEC (n sdiv 1000000)) m ''__ARMCOMPILER_VERSION''),
      define_COMPILER_VERSION_MINOR (expand (\<lambda>n. DEC (n sdiv 10000 smod 100)) m ''__ARMCOMPILER_VERSION''),
      define_COMPILER_VERSION_PATCH (expand (\<lambda>n. DEC (n smod 10000)) m ''__ARMCOMPILER_VERSION''),
      define_COMPILER_VERSION_INTERNAL (expand DEC m ''__ARMCOMPILER_VERSION'')]"

definition id_Clang :: "macros \<Rightarrow> ids \<Rightarrow> ids" where
  "id_Clang m = directives
     [define_COMPILER_ID ''Clang'',
      (if is_defined m ''_MSC_VER'' then directives
         [define_SIMULATE_ID ''MSVC''] else id),
      define_COMPILER_VERSION_MAJOR (expand DEC m ''__clang_major__''),
      define_COMPILER_VERSION_MINOR (expand DEC m ''__clang_minor__''),
      define_COMPILER_VERSION_PATCH (expand DEC m ''__clang_patchlevel__''),
      (if is_defined m ''_MSC_VER'' then directives
         [define_SIMULATE_VERSION_MAJOR (expand (\<lambda>n. DEC (n sdiv 100)) m ''_MSC_VER''),
          define_SIMULATE_VERSION_MINOR (expand (\<lambda>n. DEC (n smod 100)) m ''_MSC_VER'')] else id)]"

definition id_GNU :: "macros \<Rightarrow> ids \<Rightarrow> ids" where
  "id_GNU m = directives
     [define_COMPILER_ID ''GNU'',
      define_COMPILER_VERSION_MAJOR (expand DEC m ''__GNUC__''),
      (if is_defined m ''__GNUC_MINOR__'' then directives
         [define_COMPILER_VERSION_MINOR (expand DEC m ''__GNUC_MINOR__'')] else id),
      (if is_defined m ''__GNUC_PATCHLEVEL__'' then directives
         [define_COMPILER_VERSION_PATCH (expand DEC m ''__GNUC_PATCHLEVEL__'')] else id)]"

definition id_MSVC :: "macros \<Rightarrow> ids \<Rightarrow> ids" where
  "id_MSVC m = directives
     [define_COMPILER_ID ''MSVC'',
      define_COMPILER_VERSION_MAJOR (expand (\<lambda>n. DEC (n sdiv 100)) m ''_MSC_VER''),
      define_COMPILER_VERSION_MINOR (expand (\<lambda>n. DEC (n smod 100)) m ''_MSC_VER''),
      (if is_defined m ''_MSC_FULL_VER'' then directives
         [(if num m ''_MSC_VER'' \<ge> 1400 then directives
             [define_COMPILER_VERSION_PATCH (expand (\<lambda>n. DEC (n smod 100000)) m ''_MSC_FULL_VER'')]
           else directives
             [define_COMPILER_VERSION_PATCH (expand (\<lambda>n. DEC (n smod 10000)) m ''_MSC_FULL_VER'')])] else id),
      (if is_defined m ''_MSC_BUILD'' then directives
         [define_COMPILER_VERSION_TWEAK (expand DEC m ''_MSC_BUILD'')] else id)]"

definition id_ADSP :: "macros \<Rightarrow> ids \<Rightarrow> ids" where
  "id_ADSP m = directives
     [define_COMPILER_ID ''ADSP'',
      (if is_defined m ''__VISUALDSPVERSION__'' then directives
         [define_COMPILER_VERSION_MAJOR (expand (\<lambda>n. HEX (drop_bit 24 n)) m ''__VISUALDSPVERSION__''),
          define_COMPILER_VERSION_MINOR (expand (\<lambda>n. HEX (drop_bit 16 n AND 0xFF)) m ''__VISUALDSPVERSION__''),
          define_COMPILER_VERSION_PATCH (expand (\<lambda>n. HEX (drop_bit 8 n AND 0xFF)) m ''__VISUALDSPVERSION__'')] else id)]"

definition id_IAR :: "macros \<Rightarrow> ids \<Rightarrow> ids" where
  "id_IAR m = directives
     [define_COMPILER_ID ''IAR'',
      (if is_defined m ''__VER__'' \<and> is_defined m ''__ICCARM__'' then directives
         [define_COMPILER_VERSION_MAJOR (expand (\<lambda>n. DEC (n sdiv 1000000)) m ''__VER__''),
          define_COMPILER_VERSION_MINOR (expand (\<lambda>n. DEC (n sdiv 1000 smod 1000)) m ''__VER__''),
          define_COMPILER_VERSION_PATCH (expand (\<lambda>n. DEC (n smod 1000)) m ''__VER__''),
          define_COMPILER_VERSION_INTERNAL (expand DEC m ''__IAR_SYSTEMS_ICC__'')]
       else if is_defined m ''__VER__'' \<and> (is_defined m ''__ICCAVR__'' \<or> is_defined m ''__ICCRX__'' \<or>
             is_defined m ''__ICCRH850__'' \<or> is_defined m ''__ICCRL78__'' \<or> is_defined m ''__ICC430__'' \<or>
             is_defined m ''__ICCRISCV__'' \<or> is_defined m ''__ICCV850__'' \<or> is_defined m ''__ICC8051__'' \<or>
             is_defined m ''__ICCSTM8__'') then directives
         [define_COMPILER_VERSION_MAJOR (expand (\<lambda>n. DEC (n sdiv 100)) m ''__VER__''),
          define_COMPILER_VERSION_MINOR (expand (\<lambda>n. DEC (n - n sdiv 100 * 100)) m ''__VER__''),
          define_COMPILER_VERSION_PATCH (expand DEC m ''__SUBVERSION__''),
          define_COMPILER_VERSION_INTERNAL (expand DEC m ''__IAR_SYSTEMS_ICC__'')] else id)]"

definition id_SDCC :: "macros \<Rightarrow> ids \<Rightarrow> ids" where
  "id_SDCC m = directives
     [define_COMPILER_ID ''SDCC'',
      (if is_defined m ''__SDCC_VERSION_MAJOR'' then directives
         [define_COMPILER_VERSION_MAJOR (expand DEC m ''__SDCC_VERSION_MAJOR''),
          define_COMPILER_VERSION_MINOR (expand DEC m ''__SDCC_VERSION_MINOR''),
          define_COMPILER_VERSION_PATCH (expand DEC m ''__SDCC_VERSION_PATCH'')]
       else directives
         [define_COMPILER_VERSION_MAJOR (expand (\<lambda>n. DEC (n sdiv 100)) m ''SDCC''),
          define_COMPILER_VERSION_MINOR (expand (\<lambda>n. DEC (n sdiv 10 smod 10)) m ''SDCC''),
          define_COMPILER_VERSION_PATCH (expand (\<lambda>n. DEC (n smod 10)) m ''SDCC'')])]"

definition id_HP_native :: "macros \<Rightarrow> ids \<Rightarrow> ids" where
  "id_HP_native m = directives
     [define_COMPILER_ID ''HP'']"

definition id_unknown :: "macros \<Rightarrow> ids \<Rightarrow> ids" where
  "id_unknown m = directives
     [define_COMPILER_ID '''']"

definition identify :: "macros \<Rightarrow> ids" where
  "identify m =
     (if is_defined m ''__INTEL_COMPILER'' \<or> is_defined m ''__ICC'' then id_Intel m no_ids
      else if (is_defined m ''__clang__'' \<and> is_defined m ''__INTEL_CLANG_COMPILER'') \<or> is_defined m ''__INTEL_LLVM_COMPILER''
        then id_IntelLLVM m no_ids
      else if is_defined m ''__PATHCC__'' then id_PathScale m no_ids
      else if is_defined m ''__BORLANDC__'' \<and> is_defined m ''__CODEGEARC_VERSION__''
        then id_Embarcadero m no_ids
      else if is_defined m ''__BORLANDC__'' then id_Borland m no_ids
      else if is_defined m ''__WATCOMC__'' \<and> (num m ''__WATCOMC__'' < 1200) then id_Watcom m no_ids
      else if is_defined m ''__WATCOMC__'' then id_OpenWatcom m no_ids
      else if is_defined m ''__SUNPRO_C'' then id_SunPro m no_ids
      else if is_defined m ''__HP_cc'' then id_HP m no_ids
      else if is_defined m ''__DECC'' then id_Compaq m no_ids
      else if is_defined m ''__IBMC__'' \<and> is_defined m ''__COMPILER_VER__'' then id_zOS m no_ids
      else if is_defined m ''__ibmxl__'' \<and> is_defined m ''__clang__'' then id_XLClang m no_ids
      else if is_defined m ''__IBMC__'' \<and> \<not> is_defined m ''__COMPILER_VER__'' \<and> (num m ''__IBMC__'' \<ge> 800)
        then id_XL m no_ids
      else if is_defined m ''__IBMC__'' \<and> \<not> is_defined m ''__COMPILER_VER__'' \<and> (num m ''__IBMC__'' < 800)
        then id_VisualAge m no_ids
      else if is_defined m ''__NVCOMPILER'' then id_NVHPC m no_ids
      else if is_defined m ''__PGI'' then id_PGI m no_ids
      else if is_defined m ''_CRAYC'' then id_Cray m no_ids
      else if is_defined m ''__TI_COMPILER_VERSION__'' then id_TI m no_ids
      else if is_defined m ''__CLANG_FUJITSU'' then id_FujitsuClang m no_ids
      else if is_defined m ''__FUJITSU'' then id_Fujitsu m no_ids
      else if is_defined m ''__ghs__'' then id_GHS m no_ids
      else if is_defined m ''__TINYC__'' then id_TinyCC m no_ids
      else if is_defined m ''__BCC__'' then id_Bruce m no_ids
      else if is_defined m ''__SCO_VERSION__'' then id_SCO m no_ids
      else if is_defined m ''__ARMCC_VERSION'' \<and> \<not> is_defined m ''__clang__'' then id_ARMCC m no_ids
      else if is_defined m ''__clang__'' \<and> is_defined m ''__apple_build_version__'' then id_AppleClang m no_ids
      else if is_defined m ''__clang__'' \<and> is_defined m ''__ARMCOMPILER_VERSION'' then id_ARMClang m no_ids
      else if is_defined m ''__clang__'' then id_Clang m no_ids
      else if is_defined m ''__GNUC__'' then id_GNU m no_ids
      else if is_defined m ''_MSC_VER'' then id_MSVC m no_ids
      else if is_defined m ''__VISUALDSPVERSION__'' \<or> is_defined m ''__ADSPBLACKFIN__'' \<or> is_defined m ''__ADSPTS__'' \<or>
            is_defined m ''__ADSP21000__'' then id_ADSP m no_ids
      else if is_defined m ''__IAR_SYSTEMS_ICC__'' \<or> is_defined m ''__IAR_SYSTEMS_ICC'' then id_IAR m no_ids
      else if is_defined m ''__SDCC_VERSION_MAJOR'' \<or> is_defined m ''SDCC'' then id_SDCC m no_ids
      else if is_defined m ''__hpux'' \<or> is_defined m ''__hpua'' then id_HP_native m no_ids
      else id_unknown m no_ids)"

lemmas branch_defs =
  id_Intel_def id_IntelLLVM_def id_PathScale_def id_Embarcadero_def id_Borland_def id_Watcom_def
  id_OpenWatcom_def id_SunPro_def id_HP_def id_Compaq_def id_zOS_def id_XLClang_def id_XL_def
  id_VisualAge_def id_NVHPC_def id_PGI_def id_Cray_def id_TI_def id_FujitsuClang_def
  id_Fujitsu_def id_GHS_def id_TinyCC_def id_Bruce_def id_SCO_def id_ARMCC_def id_AppleClang_def
  id_ARMClang_def id_Clang_def id_GNU_def id_MSVC_def id_ADSP_def id_IAR_def id_SDCC_def
  id_HP_native_def id_unknown_def

end
