(* ===== verification/CompilerIdCXX.thy ===== *)
theory CompilerIdCXX
  imports CompilerId
begin

text \<open>
  The identification of the C++ compiler in \<open>CMakeFiles/3.22.3/CompilerIdCXX/CMakeCXXCompilerId.cpp\<close>.
  A branch whose text is that of the C file is the same definition; the others are defined here.
\<close>

definition cxx_Comeau :: "macros \<Rightarrow> ids \<Rightarrow> ids" where
  "cxx_Comeau m = directives
     [define_COMPILER_ID ''Comeau'',
      define_COMPILER_VERSION_MAJOR (expand (\<lambda>n. DEC (n sdiv 100)) m ''__COMO_VERSION__''),
      define_COMPILER_VERSION_MINOR (expand (\<lambda>n. DEC (n smod 100)) m ''__COMO_VERSION__'')]"

definition cxx_SunPro :: "macros \<Rightarrow> ids \<Rightarrow> ids" where
  "cxx_SunPro m = directives
     [define_COMPILER_ID ''SunPro'',
      (if num m ''__SUNPRO_CC'' \<ge> 0x5100 then directives
         [define_COMPILER_VERSION_MAJOR (expand (\<lambda>n. HEX (drop_bit 12 n)) m ''__SUNPRO_CC''),
          define_COMPILER_VERSION_MINOR (expand (\<lambda>n. HEX (drop_bit 4 n AND 0xFF)) m ''__SUNPRO_CC''),
          define_COMPILER_VERSION_PATCH (expand (\<lambda>n. HEX (n AND 0xF)) m ''__SUNPRO_CC'')]
       else directives
         [define_COMPILER_VERSION_MAJOR (expand (\<lambda>n. HEX (drop_bit 8 n)) m ''__SUNPRO_CC''),
          define_COMPILER_VERSION_MINOR (expand (\<lambda>n. HEX (drop_bit 4 n AND 0xF)) m ''__SUNPRO_CC''),
          define_COMPILER_VERSION_PATCH (expand (\<lambda>n. HEX (n AND 0xF)) m ''__SUNPRO_CC'')])]"

definition cxx_HP :: "macros \<Rightarrow> ids \<Rightarrow> ids" where
  "cxx_HP m = directives
     [define_COMPILER_ID ''HP'',
      define_COMPILER_VERSION_MAJOR (expand (\<lambda>n. DEC (n sdiv 10000)) m ''__HP_aCC''),
      define_COMPILER_VERSION_MINOR (expand (\<lambda>n. DEC (n sdiv 100 smod 100)) m ''__HP_aCC''),
      define_COMPILER_VERSION_PATCH (expand (\<lambda>n. DEC (n smod 100)) m ''__HP_aCC'')]"

definition cxx_Compaq :: "macros \<Rightarrow> ids \<Rightarrow> ids" where
  "cxx_Compaq m = directives
     [define_COMPILER_ID ''Compaq'',
      define_COMPILER_VERSION_MAJOR (expand (\<lambda>n. DEC (n sdiv 10000000)) m ''__DECCXX_VER''),
      define_COMPILER_VERSION_MINOR (expand (\<lambda>n. DEC (n sdiv 100000 smod 100)) m ''__DECCXX_VER''),
      define_COMPILER_VERSION_PATCH (expand (\<lambda>n. DEC (n smod 10000)) m ''__DECCXX_VER'')]"

definition cxx_zOS :: "macros \<Rightarrow> ids \<Rightarrow> ids" where
  "cxx_zOS m = directives
     [define_COMPILER_ID ''zOS'',
      define_COMPILER_VERSION_MAJOR (expand (\<lambda>n. DEC (n sdiv 100)) m ''__IBMCPP__''),
      define_COMPILER_VERSION_MINOR (expand (\<lambda>n. DEC (n sdiv 10 smod 10)) m ''__IBMCPP__''),
      define_COMPILER_VERSION_PATCH (expand (\<lambda>n. DEC (n smod 10)) m ''__IBMCPP__'')]"

definition cxx_XL :: "macros \<Rightarrow> ids \<Rightarrow> ids" where
  "cxx_XL m = directives
     [define_COMPILER_ID ''XL'',
      define_COMPILER_VERSION_MAJOR (expand (\<lambda>n. DEC (n sdiv 100)) m ''__IBMCPP__''),
      define_COMPILER_VERSION_MINOR (expand (\<lambda>n. DEC (n sdiv 10 smod 10)) m ''__IBMCPP__''),
      define_COMPILER_VERSION_PATCH (expand (\<lambda>n. DEC (n smod 10)) m ''__IBMCPP__'')]"

definition cxx_VisualAge :: "macros \<Rightarrow> ids \<Rightarrow> ids" where
  "cxx_VisualAge m = directives
     [define_COMPILER_ID ''VisualAge'',
      define_COMPILER_VERSION_MAJOR (expand (\<lambda>n. DEC (n sdiv 100)) m ''__IBMCPP__''),
      define_COMPILER_VERSION_MINOR (expand (\<lambda>n. DEC (n sdiv 10 smod 10)) m ''__IBMCPP__''),
      define_COMPILER_VERSION_PATCH (expand (\<lambda>n. DEC (n smod 10)) m ''__IBMCPP__'')]"

definition cxx_GNU :: "macros \<Rightarrow> ids \<Rightarrow> ids" where
  "cxx_GNU m = directives
     [define_COMPILER_ID ''GNU'',
      (if is_defined m ''__GNUC__'' then directives
         [define_COMPILER_VERSION_MAJOR (expand DEC m ''__GNUC__'')]
       else directives
         [define_COMPILER_VERSION_MAJOR (expand DEC m ''__GNUG__'')]),
      (if is_defined m ''__GNUC_MINOR__'' then directives
         [define_COMPILER_VERSION_MINOR (expand DEC m ''__GNUC_MINOR__'')] else id),
      (if is_defined m ''__GNUC_PATCHLEVEL__'' then directives
         [define_COMPILER_VERSION_PATCH (expand DEC m ''__GNUC_PATCHLEVEL__'')] else id)]"

definition identify_cxx_from_Comeau :: "macros \<Rightarrow> ids \<Rightarrow> ids" where
  "identify_cxx_from_Comeau m other =
     (if is_defined m ''__COMO__'' then cxx_Comeau m no_ids
      else if is_defined m ''__INTEL_COMPILER'' \<or> is_defined m ''__ICC'' then id_Intel m no_ids
      else if (is_defined m ''__clang__'' \<and> is_defined m ''__INTEL_CLANG_COMPILER'') \<or> is_defined m ''__INTEL_LLVM_COMPILER''
        then id_IntelLLVM m no_ids
      else if is_defined m ''__PATHCC__'' then id_PathScale m no_ids
      else if is_defined m ''__BORLANDC__'' \<and> is_defined m ''__CODEGEARC_VERSION__''
        then id_Embarcadero m no_ids
      else if is_defined m ''__BORLANDC__'' then id_Borland m no_ids
      else if is_defined m ''__WATCOMC__'' \<and> (num m ''__WATCOMC__'' < 1200) then id_Watcom m no_ids
      else if is_defined m ''__WATCOMC__'' then id_OpenWatcom m no_ids
      else if is_defined m ''__SUNPRO_CC'' then cxx_SunPro m no_ids
      else if is_defined m ''__HP_aCC'' then cxx_HP m no_ids
      else other)"

definition identify_cxx_from_Compaq :: "macros \<Rightarrow> ids \<Rightarrow> ids" where
  "identify_cxx_from_Compaq m other =
     (if is_defined m ''__DECCXX'' then cxx_Compaq m no_ids
      else if is_defined m ''__IBMCPP__'' \<and> is_defined m ''__COMPILER_VER__'' then cxx_zOS m no_ids
      else if is_defined m ''__ibmxl__'' \<and> is_defined m ''__clang__'' then id_XLClang m no_ids
      else if is_defined m ''__IBMCPP__'' \<and> \<not> is_defined m ''__COMPILER_VER__'' \<and>
            (num m ''__IBMCPP__'' \<ge> 800) then cxx_XL m no_ids
      else if is_defined m ''__IBMCPP__'' \<and> \<not> is_defined m ''__COMPILER_VER__'' \<and>
            (num m ''__IBMCPP__'' < 800) then cxx_VisualAge m no_ids
      else if is_defined m ''__NVCOMPILER'' then id_NVHPC m no_ids
      else if is_defined m ''__PGI'' then id_PGI m no_ids
      else if is_defined m ''_CRAYC'' then id_Cray m no_ids
      else if is_defined m ''__TI_COMPILER_VERSION__'' then id_TI m no_ids
      else if is_defined m ''__CLANG_FUJITSU'' then id_FujitsuClang m no_ids
      else if is_defined m ''__FUJITSU'' then id_Fujitsu m no_ids
      else if is_defined m ''__ghs__'' then id_GHS m no_ids
      else if is_defined m ''__SCO_VERSION__'' then id_SCO m no_ids
      else if is_defined m ''__ARMCC_VERSION'' \<and> \<not> is_defined m ''__clang__'' then id_ARMCC m no_ids
      else if is_defined m ''__clang__'' \<and> is_defined m ''__apple_build_version__'' then id_AppleClang m no_ids
      else if is_defined m ''__clang__'' \<and> is_defined m ''__ARMCOMPILER_VERSION'' then id_ARMClang m no_ids
      else other)"

definition identify_cxx_from_Clang :: "macros \<Rightarrow> ids" where
  "identify_cxx_from_Clang m =
     (if is_defined m ''__clang__'' then id_Clang m no_ids
      else if is_defined m ''__GNUC__'' \<or> is_defined m ''__GNUG__'' then cxx_GNU m no_ids
      else if is_defined m ''_MSC_VER'' then id_MSVC m no_ids
      else if is_defined m ''__VISUALDSPVERSION__'' \<or> is_defined m ''__ADSPBLACKFIN__'' \<or> is_defined m ''__ADSPTS__'' \<or>
            is_defined m ''__ADSP21000__'' then id_ADSP m no_ids
      else if is_defined m ''__IAR_SYSTEMS_ICC__'' \<or> is_defined m ''__IAR_SYSTEMS_ICC'' then id_IAR m no_ids
      else if is_defined m ''__hpux'' \<or> is_defined m ''__hpua'' then id_HP_native m no_ids
      else id_unknown m no_ids)"

definition identify_cxx :: "macros \<Rightarrow> ids" where
  "identify_cxx m =
     identify_cxx_from_Comeau m (identify_cxx_from_Compaq m (identify_cxx_from_Clang m))"

lemmas identify_cxx_defs = identify_cxx_def identify_cxx_from_Comeau_def identify_cxx_from_Compaq_def identify_cxx_from_Clang_def

lemmas cxx_branch_defs = cxx_Comeau_def cxx_SunPro_def cxx_HP_def cxx_Compaq_def cxx_zOS_def cxx_XL_def cxx_VisualAge_def cxx_GNU_def

end
