(* ===== verification/HostId.thy ===== *)
theory HostId
  imports Preproc
begin

text \<open>
  The platform and the architecture that \<open>CMakeCCompilerId.c\<close> reports.
\<close>

definition platform_id :: "macros \<Rightarrow> string" where
  "platform_id m =
     (if is_defined m ''__linux'' \<or> is_defined m ''__linux__'' \<or> is_defined m ''linux'' then ''Linux''
     else if is_defined m ''__MSYS__'' then ''MSYS''
     else if is_defined m ''__CYGWIN__'' then ''Cygwin''
     else if is_defined m ''__MINGW32__'' then ''MinGW''
     else if is_defined m ''__APPLE__'' then ''Darwin''
     else if is_defined m ''_WIN32'' \<or> is_defined m ''__WIN32__'' \<or> is_defined m ''WIN32'' then ''Windows''
     else if is_defined m ''__FreeBSD__'' \<or> is_defined m ''__FreeBSD'' then ''FreeBSD''
     else if is_defined m ''__NetBSD__'' \<or> is_defined m ''__NetBSD'' then ''NetBSD''
     else if is_defined m ''__OpenBSD__'' \<or> is_defined m ''__OPENBSD'' then ''OpenBSD''
     else if is_defined m ''__sun'' \<or> is_defined m ''sun'' then ''SunOS''
     else if is_defined m ''_AIX'' \<or> is_defined m ''__AIX'' \<or> is_defined m ''__AIX__'' \<or> is_defined m ''__aix'' \<or>
           is_defined m ''__aix__'' then ''AIX''
     else if is_defined m ''__hpux'' \<or> is_defined m ''__hpux__'' then ''HP-UX''
     else if is_defined m ''__HAIKU__'' then ''Haiku''
     else if is_defined m ''__BeOS'' \<or> is_defined m ''__BEOS__'' \<or> is_defined m ''_BEOS'' then ''BeOS''
     else if is_defined m ''__QNX__'' \<or> is_defined m ''__QNXNTO__'' then ''QNX''
     else if is_defined m ''__tru64'' \<or> is_defined m ''_tru64'' \<or> is_defined m ''__TRU64__'' then ''Tru64''
     else if is_defined m ''__riscos'' \<or> is_defined m ''__riscos__'' then ''RISCos''
     else if is_defined m ''__sinix'' \<or> is_defined m ''__sinix__'' \<or> is_defined m ''__SINIX__'' then ''SINIX''
     else if is_defined m ''__UNIX_SV__'' then ''UNIX_SV''
     else if is_defined m ''__bsdos__'' then ''BSDOS''
     else if is_defined m ''_MPRAS'' \<or> is_defined m ''MPRAS'' then ''MP-RAS''
     else if is_defined m ''__osf'' \<or> is_defined m ''__osf__'' then ''OSF1''
     else if is_defined m ''_SCO_SV'' \<or> is_defined m ''SCO_SV'' \<or> is_defined m ''sco_sv'' then ''SCO_SV''
     else if is_defined m ''__ultrix'' \<or> is_defined m ''__ultrix__'' \<or> is_defined m ''_ULTRIX'' then ''ULTRIX''
     else if is_defined m ''__XENIX__'' \<or> is_defined m ''_XENIX'' \<or> is_defined m ''XENIX'' then ''Xenix''
     else if is_defined m ''__WATCOMC__'' then
       (if is_defined m ''__LINUX__'' then ''Linux''
       else if is_defined m ''__DOS__'' then ''DOS''
       else if is_defined m ''__OS2__'' then ''OS2''
       else if is_defined m ''__WINDOWS__'' then ''Windows3x''
       else if is_defined m ''__VXWORKS__'' then ''VxWorks''
       else '''')
     else if is_defined m ''__INTEGRITY'' then
       (if is_defined m ''INT_178B'' then ''Integrity178''
       else ''Integrity'')
     else '''')"

definition architecture_id :: "macros \<Rightarrow> string" where
  "architecture_id m =
     (if is_defined m ''_WIN32'' \<and> is_defined m ''_MSC_VER'' then
       (if is_defined m ''_M_IA64'' then ''IA64''
       else if is_defined m ''_M_ARM64EC'' then ''ARM64EC''
       else if is_defined m ''_M_X64'' \<or> is_defined m ''_M_AMD64'' then ''x64''
       else if is_defined m ''_M_IX86'' then ''X86''
       else if is_defined m ''_M_ARM64'' then ''ARM64''
       else if is_defined m ''_M_ARM'' then
         (if num m ''_M_ARM'' = 4 then ''ARMV4I''
         else if num m ''_M_ARM'' = 5 then ''ARMV5I''
         else ''ARMV'' @ stringify m ''_M_ARM'')
       else if is_defined m ''_M_MIPS'' then ''MIPS''
       else if is_defined m ''_M_SH'' then ''SHx''
       else '''')
     else if is_defined m ''__WATCOMC__'' then
       (if is_defined m ''_M_I86'' then ''I86''
       else if is_defined m ''_M_IX86'' then ''X86''
       else '''')
     else if is_defined m ''__IAR_SYSTEMS_ICC__'' \<or> is_defined m ''__IAR_SYSTEMS_ICC'' then
       (if is_defined m ''__ICCARM__'' then ''ARM''
       else if is_defined m ''__ICCRX__'' then ''RX''
       else if is_defined m ''__ICCRH850__'' then ''RH850''
       else if is_defined m ''__ICCRL78__'' then ''RL78''
       else if is_defined m ''__ICCRISCV__'' then ''RISCV''
       else if is_defined m ''__ICCAVR__'' then ''AVR''
       else if is_defined m ''__ICC430__'' then ''MSP430''
       else if is_defined m ''__ICCV850__'' then ''V850''
       else if is_defined m ''__ICC8051__'' then ''8051''
       else if is_defined m ''__ICCSTM8__'' then ''STM8''
       else '''')
     else if is_defined m ''__ghs__'' then
       (if is_defined m ''__PPC64__'' then ''PPC64''
       else if is_defined m ''__ppc__'' then ''PPC''
       else if is_defined m ''__ARM__'' then ''ARM''
       else if is_defined m ''__x86_64__'' then ''x64''
       else if is_defined m ''__i386__'' then ''X86''
       else '''')
     else if is_defined m ''__TI_COMPILER_VERSION__'' then
       (if is_defined m ''__TI_ARM__'' then ''ARM''
       else if is_defined m ''__MSP430__'' then ''MSP430''
       else if is_defined m ''__TMS320C28XX__'' then ''TMS320C28x''
       else if is_defined m ''__TMS320C6X__'' \<or> is_defined m ''_TMS320C6X'' then ''TMS320C6x''
       else '''')
     else '''')"

end
