(* ===== verification/Probe.thy ===== *)
theory Probe
  imports CompilerIdCXX HostIdCXX
begin

text \<open>
  The rest of the two compiler probes: the strings they declare, for CMake to find in the binary, and
  \<open>main\<close>, which reads one character of each so that the linker keeps it.
\<close>

subsection \<open>The strings\<close>

definition info_compiler :: "ids \<Rightarrow> string" where
  "info_compiler d = ''INFO:compiler['' @ COMPILER_ID d @ '']''"

definition info_simulate :: "ids \<Rightarrow> string option" where
  "info_simulate d = map_option (\<lambda>s. ''INFO:simulate['' @ s @ '']'') (SIMULATE_ID d)"

definition qnxnto :: "macros \<Rightarrow> string option" where
  "qnxnto m = (if is_defined m ''__QNXNTO__'' then Some ''INFO:qnxnto[]'' else None)"

definition info_cray :: "macros \<Rightarrow> string option" where
  "info_cray m =
     (if is_defined m ''__CRAYXT_COMPUTE_LINUX_TARGET'' then Some ''INFO:compiler_wrapper[CrayPrgEnv]''
      else None)"

text \<open>
  The components after the first one, each in a nested \<open>#ifdef\<close>. As with the components, the outer
  option says whether a string is declared, the inner one whether it compiles.
\<close>

fun dotted :: "string option option list \<Rightarrow> string option" where
  "dotted [] = Some ''''"
| "dotted (None # rest) = Some ''''"
| "dotted (Some None # rest) = None"
| "dotted (Some (Some s) # rest) = map_option (\<lambda>t. ''.'' @ s @ t) (dotted rest)"

definition components :: "string \<Rightarrow> string option \<Rightarrow> string option option list \<Rightarrow> string option" where
  "components prefix major rest =
     (case major of None \<Rightarrow> None
      | Some s \<Rightarrow> map_option (\<lambda>t. prefix @ s @ t @ '']'') (dotted rest))"

definition info_version :: "ids \<Rightarrow> string option option" where
  "info_version d =
     (case COMPILER_VERSION d of
        Some v \<Rightarrow> Some (map_option (\<lambda>s. ''INFO:compiler_version['' @ s @ '']'') v)
      | None \<Rightarrow>
          map_option (\<lambda>major. components ''INFO:compiler_version['' major
              [COMPILER_VERSION_MINOR d, COMPILER_VERSION_PATCH d, COMPILER_VERSION_TWEAK d])
            (COMPILER_VERSION_MAJOR d))"

definition info_version_internal :: "ids \<Rightarrow> string option option" where
  "info_version_internal d =
     map_option (map_option (\<lambda>s. ''INFO:compiler_version_internal['' @ s @ '']''))
       (case COMPILER_VERSION_INTERNAL d of Some v \<Rightarrow> Some v | None \<Rightarrow> COMPILER_VERSION_INTERNAL_STR d)"

text \<open>\<open>SIMULATE_VERSION_TWEAK\<close> is tested but no branch defines it.\<close>

definition info_simulate_version :: "ids \<Rightarrow> string option option" where
  "info_simulate_version d =
     map_option (\<lambda>major. components ''INFO:simulate_version['' major
         [SIMULATE_VERSION_MINOR d, SIMULATE_VERSION_PATCH d])
       (SIMULATE_VERSION_MAJOR d)"

definition info_platform :: "string \<Rightarrow> string" where
  "info_platform platform = ''INFO:platform['' @ platform @ '']''"

definition info_arch :: "string \<Rightarrow> string" where
  "info_arch arch = ''INFO:arch['' @ arch @ '']''"

definition C_VERSION :: "macros \<Rightarrow> string" where
  "C_VERSION m =
     (if \<not> is_defined m ''__STDC__'' \<and> \<not> is_defined m ''__clang__'' then
        (if is_defined m ''_MSC_VER'' \<or> is_defined m ''__ibmxl__'' \<or> is_defined m ''__IBMC__''
         then ''90'' else '''')
      else if num m ''__STDC_VERSION__'' > 201710 then ''23''
      else if num m ''__STDC_VERSION__'' \<ge> 201710 then ''17''
      else if num m ''__STDC_VERSION__'' \<ge> 201000 then ''11''
      else if num m ''__STDC_VERSION__'' \<ge> 199901 then ''99''
      else ''90'')"

definition CXX_STD :: "macros \<Rightarrow> int" where
  "CXX_STD m =
     (if is_defined m ''__INTEL_COMPILER'' \<and> is_defined m ''_MSVC_LANG'' \<and> num m ''_MSVC_LANG'' < 201403 then
        (if is_defined m ''__INTEL_CXX11_MODE__'' then
           (if is_defined m ''__cpp_aggregate_nsdmi'' then 201402 else 201103)
         else 199711)
      else if is_defined m ''_MSC_VER'' \<and> is_defined m ''_MSVC_LANG'' then num m ''_MSVC_LANG''
      else num m ''__cplusplus'')"

definition CXX_VERSION :: "macros \<Rightarrow> string" where
  "CXX_VERSION m =
     (if CXX_STD m > 202002 then ''23''
      else if CXX_STD m > 201703 then ''20''
      else if CXX_STD m \<ge> 201703 then ''17''
      else if CXX_STD m \<ge> 201402 then ''14''
      else if CXX_STD m \<ge> 201103 then ''11''
      else ''98'')"

definition info_language_standard_default :: "string \<Rightarrow> string" where
  "info_language_standard_default v = ''INFO:standard_default['' @ v @ '']''"

definition info_language_extensions_default :: "macros \<Rightarrow> string" where
  "info_language_extensions_default m =
     ''INFO:extensions_default['' @
     (if (is_defined m ''__clang__'' \<or> is_defined m ''__GNUC__'' \<or> is_defined m ''__xlC__'' \<or>
          is_defined m ''__TI_COMPILER_VERSION__'') \<and> \<not> is_defined m ''__STRICT_ANSI__''
      then ''ON'' else ''OFF'') @ '']''"

subsection \<open>The compiled probe\<close>

record probe =
  p_compiler :: string
  p_simulate :: "string option"
  p_qnxnto :: "string option"
  p_cray :: "string option"
  p_version :: "string option"
  p_version_internal :: "string option"
  p_simulate_version :: "string option"
  p_platform :: string
  p_arch :: string
  p_standard :: string
  p_extensions :: string

text \<open>\<open>None\<close>: some declaration does not compile.\<close>

definition declared :: "macros \<Rightarrow> ids \<Rightarrow> string \<Rightarrow> string \<Rightarrow> string \<Rightarrow> probe option" where
  "declared m d platform arch v =
     (if info_version d = Some None \<or> info_version_internal d = Some None \<or>
         info_simulate_version d = Some None
      then None
      else Some
        \<lparr>p_compiler = info_compiler d, p_simulate = info_simulate d, p_qnxnto = qnxnto m,
         p_cray = info_cray m, p_version = Option.bind (info_version d) id,
         p_version_internal = Option.bind (info_version_internal d) id,
         p_simulate_version = Option.bind (info_simulate_version d) id,
         p_platform = info_platform platform, p_arch = info_arch arch,
         p_standard = info_language_standard_default v,
         p_extensions = info_language_extensions_default m\<rparr>)"

text \<open>The \<open>#error\<close> at the top: a probe is compiled by a compiler of its own language.\<close>

definition compile_c :: "macros \<Rightarrow> probe option" where
  "compile_c m =
     (if is_defined m ''__cplusplus'' then None
      else declared m (identify m) (platform_id m) (architecture_id m) (C_VERSION m))"

definition compile_cxx :: "macros \<Rightarrow> probe option" where
  "compile_cxx m =
     (if \<not> is_defined m ''__cplusplus'' then None
      else declared m (identify_cxx m) (platform_id_cxx m) (architecture_id_cxx m) (CXX_VERSION m))"

subsection \<open>The main function\<close>

text \<open>
  \<open>s[argc]\<close>: the character at that index, converted to \<open>int\<close> (\<open>char\<close> is signed), the terminating
  zero included; past it the read is undefined.
\<close>

definition read_at :: "int \<Rightarrow> string \<Rightarrow> int option" where
  "read_at argc s =
     (if argc < 0 \<or> int (length s) < argc then None
      else if argc = int (length s) then Some 0
      else (let c = of_char (s ! nat argc) in Some (if c < 128 then c else c - 256)))"

datatype main_result = Returns int | Void | Out_of_bounds

fun require :: "int \<Rightarrow> string list \<Rightarrow> int \<Rightarrow> main_result" where
  "require argc [] acc = Returns acc"
| "require argc (s # rest) acc =
     (case read_at argc s of None \<Rightarrow> Out_of_bounds | Some c \<Rightarrow> require argc rest (acc + c))"

definition opt :: "bool \<Rightarrow> string option \<Rightarrow> string list" where
  "opt b s = (if b then (case s of Some t \<Rightarrow> [t] | None \<Rightarrow> []) else [])"

text \<open>The strings \<open>main\<close> reads, in its order.\<close>

definition required_c :: "macros \<Rightarrow> ids \<Rightarrow> probe \<Rightarrow> string list" where
  "required_c m d u =
     [p_compiler u, p_platform u, p_arch u] @
     opt (COMPILER_VERSION_MAJOR d \<noteq> None) (p_version u) @
     opt (COMPILER_VERSION_INTERNAL d \<noteq> None) (p_version_internal u) @
     opt (SIMULATE_ID d \<noteq> None) (p_simulate u) @
     opt (SIMULATE_VERSION_MAJOR d \<noteq> None) (p_simulate_version u) @
     opt (is_defined m ''__CRAYXT_COMPUTE_LINUX_TARGET'') (p_cray u) @
     [p_standard u, p_extensions u]"

definition required_cxx :: "macros \<Rightarrow> ids \<Rightarrow> probe \<Rightarrow> string list" where
  "required_cxx m d u =
     [p_compiler u, p_platform u] @
     opt (COMPILER_VERSION_MAJOR d \<noteq> None) (p_version u) @
     opt (COMPILER_VERSION_INTERNAL d \<noteq> None) (p_version_internal u) @
     opt (SIMULATE_ID d \<noteq> None) (p_simulate u) @
     opt (SIMULATE_VERSION_MAJOR d \<noteq> None) (p_simulate_version u) @
     opt (is_defined m ''__CRAYXT_COMPUTE_LINUX_TARGET'') (p_cray u) @
     [p_standard u, p_extensions u]"

definition main_c :: "macros \<Rightarrow> probe \<Rightarrow> int \<Rightarrow> main_result" where
  "main_c m u argc =
     (if is_defined m ''__18CXX'' then Void else require argc (required_c m (identify m) u) 0)"

definition main_cxx :: "macros \<Rightarrow> probe \<Rightarrow> int \<Rightarrow> main_result" where
  "main_cxx m u argc = require argc (required_cxx m (identify_cxx m) u) 0"

end
