(* ===== verification/Probe318.thy ===== *)
theory Probe318
  imports Probe
begin

text \<open>
  The probes that CMake 3.18.4 wrote, which are in the build directory beside those of 3.22.3
  (\<open>CMakeFiles/3.18.4/CompilerIdC\<close> and \<open>CompilerIdCXX\<close>). What has the same text in the newer file is
  the same definition; the rest is defined here, with the suffix \<open>_318\<close> or the prefix \<open>old_\<close>.
\<close>

definition old_Intel :: "macros \<Rightarrow> ids \<Rightarrow> ids" where
  "old_Intel m = directives
     [define_COMPILER_ID ''Intel'',
      (if is_defined m ''_MSC_VER'' then directives
         [define_SIMULATE_ID ''MSVC''] else id),
      (if is_defined m ''__GNUC__'' then directives
         [define_SIMULATE_ID ''GNU''] else id),
      define_COMPILER_VERSION_MAJOR (expand (\<lambda>n. DEC (n sdiv 100)) m ''__INTEL_COMPILER''),
      define_COMPILER_VERSION_MINOR (expand (\<lambda>n. DEC (n sdiv 10 smod 10)) m ''__INTEL_COMPILER''),
      (if is_defined m ''__INTEL_COMPILER_UPDATE'' then directives
         [define_COMPILER_VERSION_PATCH (expand DEC m ''__INTEL_COMPILER_UPDATE'')]
       else directives
         [define_COMPILER_VERSION_PATCH (expand (\<lambda>n. DEC (n smod 10)) m ''__INTEL_COMPILER'')]),
      (if is_defined m ''__INTEL_COMPILER_BUILD_DATE'' then directives
         [define_COMPILER_VERSION_TWEAK (expand DEC m ''__INTEL_COMPILER_BUILD_DATE'')] else id),
      (if is_defined m ''_MSC_VER'' then directives
         [define_SIMULATE_VERSION_MAJOR (expand (\<lambda>n. DEC (n sdiv 100)) m ''_MSC_VER''),
          define_SIMULATE_VERSION_MINOR (expand (\<lambda>n. DEC (n smod 100)) m ''_MSC_VER'')] else id),
      (if is_defined m ''__GNUC__'' then directives
         [define_SIMULATE_VERSION_MAJOR (expand DEC m ''__GNUC__'')]
       else if is_defined m ''__GNUG__'' then directives
         [define_SIMULATE_VERSION_MAJOR (expand DEC m ''__GNUG__'')] else id),
      (if is_defined m ''__GNUC_MINOR__'' then directives
         [define_SIMULATE_VERSION_MINOR (expand DEC m ''__GNUC_MINOR__'')] else id),
      (if is_defined m ''__GNUC_PATCHLEVEL__'' then directives
         [define_SIMULATE_VERSION_PATCH (expand DEC m ''__GNUC_PATCHLEVEL__'')] else id)]"

definition old_Fujitsu :: "macros \<Rightarrow> ids \<Rightarrow> ids" where
  "old_Fujitsu m = directives
     [define_COMPILER_ID ''Fujitsu'']"

definition old_IAR :: "macros \<Rightarrow> ids \<Rightarrow> ids" where
  "old_IAR m = directives
     [define_COMPILER_ID ''IAR'',
      (if is_defined m ''__VER__'' \<and> is_defined m ''__ICCARM__'' then directives
         [define_COMPILER_VERSION_MAJOR (expand (\<lambda>n. DEC (n sdiv 1000000)) m ''__VER__''),
          define_COMPILER_VERSION_MINOR (expand (\<lambda>n. DEC (n sdiv 1000 smod 1000)) m ''__VER__''),
          define_COMPILER_VERSION_PATCH (expand (\<lambda>n. DEC (n smod 1000)) m ''__VER__''),
          define_COMPILER_VERSION_INTERNAL (expand DEC m ''__IAR_SYSTEMS_ICC__'')]
       else if is_defined m ''__VER__'' \<and> (is_defined m ''__ICCAVR__'' \<or> is_defined m ''__ICCRX__'' \<or>
             is_defined m ''__ICCRH850__'' \<or> is_defined m ''__ICCRL78__'' \<or> is_defined m ''__ICC430__'' \<or>
             is_defined m ''__ICCRISCV__'' \<or> is_defined m ''__ICCV850__'' \<or>
             is_defined m ''__ICC8051__'') then directives
         [define_COMPILER_VERSION_MAJOR (expand (\<lambda>n. DEC (n sdiv 100)) m ''__VER__''),
          define_COMPILER_VERSION_MINOR (expand (\<lambda>n. DEC (n - n sdiv 100 * 100)) m ''__VER__''),
          define_COMPILER_VERSION_PATCH (expand DEC m ''__SUBVERSION__''),
          define_COMPILER_VERSION_INTERNAL (expand DEC m ''__IAR_SYSTEMS_ICC__'')] else id)]"

definition identify_318_from_Intel :: "macros \<Rightarrow> ids \<Rightarrow> ids" where
  "identify_318_from_Intel m other =
     (if is_defined m ''__INTEL_COMPILER'' \<or> is_defined m ''__ICC'' then old_Intel m no_ids
      else if is_defined m ''__PATHCC__'' then id_PathScale m no_ids
      else if is_defined m ''__BORLANDC__'' \<and> is_defined m ''__CODEGEARC_VERSION__''
        then id_Embarcadero m no_ids
      else if is_defined m ''__BORLANDC__'' then id_Borland m no_ids
      else if is_defined m ''__WATCOMC__'' \<and> (num m ''__WATCOMC__'' < 1200) then id_Watcom m no_ids
      else if is_defined m ''__WATCOMC__'' then id_OpenWatcom m no_ids
      else if is_defined m ''__SUNPRO_C'' then id_SunPro m no_ids
      else if is_defined m ''__HP_cc'' then id_HP m no_ids
      else if is_defined m ''__DECC'' then id_Compaq m no_ids
      else if is_defined m ''__IBMC__'' \<and> is_defined m ''__COMPILER_VER__'' then id_zOS m no_ids
      else other)"

definition identify_318_from_XLClang :: "macros \<Rightarrow> ids \<Rightarrow> ids" where
  "identify_318_from_XLClang m other =
     (if is_defined m ''__ibmxl__'' \<and> is_defined m ''__clang__'' then id_XLClang m no_ids
      else if is_defined m ''__IBMC__'' \<and> \<not> is_defined m ''__COMPILER_VER__'' \<and> (num m ''__IBMC__'' \<ge> 800)
        then id_XL m no_ids
      else if is_defined m ''__IBMC__'' \<and> \<not> is_defined m ''__COMPILER_VER__'' \<and> (num m ''__IBMC__'' < 800)
        then id_VisualAge m no_ids
      else if is_defined m ''__PGI'' then id_PGI m no_ids
      else if is_defined m ''_CRAYC'' then id_Cray m no_ids
      else if is_defined m ''__TI_COMPILER_VERSION__'' then id_TI m no_ids
      else if is_defined m ''__FUJITSU'' \<or> is_defined m ''__FCC_VERSION'' \<or>
            is_defined m ''__fcc_version'' then old_Fujitsu m no_ids
      else if is_defined m ''__ghs__'' then id_GHS m no_ids
      else if is_defined m ''__TINYC__'' then id_TinyCC m no_ids
      else if is_defined m ''__BCC__'' then id_Bruce m no_ids
      else if is_defined m ''__SCO_VERSION__'' then id_SCO m no_ids
      else if is_defined m ''__ARMCC_VERSION'' \<and> \<not> is_defined m ''__clang__'' then id_ARMCC m no_ids
      else if is_defined m ''__clang__'' \<and> is_defined m ''__apple_build_version__'' then id_AppleClang m no_ids
      else if is_defined m ''__clang__'' \<and> is_defined m ''__ARMCOMPILER_VERSION'' then id_ARMClang m no_ids
      else if is_defined m ''__clang__'' then id_Clang m no_ids
      else other)"

definition identify_318_from_GNU :: "macros \<Rightarrow> ids" where
  "identify_318_from_GNU m =
     (if is_defined m ''__GNUC__'' then id_GNU m no_ids
      else if is_defined m ''_MSC_VER'' then id_MSVC m no_ids
      else if is_defined m ''__VISUALDSPVERSION__'' \<or> is_defined m ''__ADSPBLACKFIN__'' \<or> is_defined m ''__ADSPTS__'' \<or>
            is_defined m ''__ADSP21000__'' then id_ADSP m no_ids
      else if is_defined m ''__IAR_SYSTEMS_ICC__'' \<or> is_defined m ''__IAR_SYSTEMS_ICC'' then old_IAR m no_ids
      else if is_defined m ''__SDCC_VERSION_MAJOR'' \<or> is_defined m ''SDCC'' then id_SDCC m no_ids
      else if is_defined m ''__hpux'' \<or> is_defined m ''__hpua'' then id_HP_native m no_ids
      else id_unknown m no_ids)"

definition identify_318 :: "macros \<Rightarrow> ids" where
  "identify_318 m =
     identify_318_from_Intel m (identify_318_from_XLClang m (identify_318_from_GNU m))"

lemmas identify_318_defs = identify_318_def identify_318_from_Intel_def identify_318_from_XLClang_def identify_318_from_GNU_def

definition identify_cxx_318_from_Comeau :: "macros \<Rightarrow> ids \<Rightarrow> ids" where
  "identify_cxx_318_from_Comeau m other =
     (if is_defined m ''__COMO__'' then cxx_Comeau m no_ids
      else if is_defined m ''__INTEL_COMPILER'' \<or> is_defined m ''__ICC'' then old_Intel m no_ids
      else if is_defined m ''__PATHCC__'' then id_PathScale m no_ids
      else if is_defined m ''__BORLANDC__'' \<and> is_defined m ''__CODEGEARC_VERSION__''
        then id_Embarcadero m no_ids
      else if is_defined m ''__BORLANDC__'' then id_Borland m no_ids
      else if is_defined m ''__WATCOMC__'' \<and> (num m ''__WATCOMC__'' < 1200) then id_Watcom m no_ids
      else if is_defined m ''__WATCOMC__'' then id_OpenWatcom m no_ids
      else if is_defined m ''__SUNPRO_CC'' then cxx_SunPro m no_ids
      else if is_defined m ''__HP_aCC'' then cxx_HP m no_ids
      else if is_defined m ''__DECCXX'' then cxx_Compaq m no_ids
      else if is_defined m ''__IBMCPP__'' \<and> is_defined m ''__COMPILER_VER__'' then cxx_zOS m no_ids
      else if is_defined m ''__ibmxl__'' \<and> is_defined m ''__clang__'' then id_XLClang m no_ids
      else if is_defined m ''__IBMCPP__'' \<and> \<not> is_defined m ''__COMPILER_VER__'' \<and>
            (num m ''__IBMCPP__'' \<ge> 800) then cxx_XL m no_ids
      else if is_defined m ''__IBMCPP__'' \<and> \<not> is_defined m ''__COMPILER_VER__'' \<and>
            (num m ''__IBMCPP__'' < 800) then cxx_VisualAge m no_ids
      else if is_defined m ''__PGI'' then id_PGI m no_ids
      else other)"

definition identify_cxx_318_from_Cray :: "macros \<Rightarrow> ids" where
  "identify_cxx_318_from_Cray m =
     (if is_defined m ''_CRAYC'' then id_Cray m no_ids
      else if is_defined m ''__TI_COMPILER_VERSION__'' then id_TI m no_ids
      else if is_defined m ''__FUJITSU'' \<or> is_defined m ''__FCC_VERSION'' \<or>
            is_defined m ''__fcc_version'' then old_Fujitsu m no_ids
      else if is_defined m ''__ghs__'' then id_GHS m no_ids
      else if is_defined m ''__SCO_VERSION__'' then id_SCO m no_ids
      else if is_defined m ''__ARMCC_VERSION'' \<and> \<not> is_defined m ''__clang__'' then id_ARMCC m no_ids
      else if is_defined m ''__clang__'' \<and> is_defined m ''__apple_build_version__'' then id_AppleClang m no_ids
      else if is_defined m ''__clang__'' \<and> is_defined m ''__ARMCOMPILER_VERSION'' then id_ARMClang m no_ids
      else if is_defined m ''__clang__'' then id_Clang m no_ids
      else if is_defined m ''__GNUC__'' \<or> is_defined m ''__GNUG__'' then cxx_GNU m no_ids
      else if is_defined m ''_MSC_VER'' then id_MSVC m no_ids
      else if is_defined m ''__VISUALDSPVERSION__'' \<or> is_defined m ''__ADSPBLACKFIN__'' \<or> is_defined m ''__ADSPTS__'' \<or>
            is_defined m ''__ADSP21000__'' then id_ADSP m no_ids
      else if is_defined m ''__IAR_SYSTEMS_ICC__'' \<or> is_defined m ''__IAR_SYSTEMS_ICC'' then old_IAR m no_ids
      else if is_defined m ''__hpux'' \<or> is_defined m ''__hpua'' then id_HP_native m no_ids
      else id_unknown m no_ids)"

definition identify_cxx_318 :: "macros \<Rightarrow> ids" where
  "identify_cxx_318 m =
     identify_cxx_318_from_Comeau m (identify_cxx_318_from_Cray m)"

lemmas identify_cxx_318_defs = identify_cxx_318_def identify_cxx_318_from_Comeau_def identify_cxx_318_from_Cray_def

definition platform_id_318 :: "macros \<Rightarrow> string" where
  "platform_id_318 m =
     (if is_defined m ''__linux'' \<or> is_defined m ''__linux__'' \<or> is_defined m ''linux'' then ''Linux''
     else if is_defined m ''__CYGWIN__'' then ''Cygwin''
     else if is_defined m ''__MINGW32__'' then ''MinGW''
     else if is_defined m ''__APPLE__'' then ''Darwin''
     else if is_defined m ''_WIN32'' \<or> is_defined m ''__WIN32__'' \<or> is_defined m ''WIN32'' then ''Windows''
     else if is_defined m ''__FreeBSD__'' \<or> is_defined m ''__FreeBSD'' then ''FreeBSD''
     else if is_defined m ''__NetBSD__'' \<or> is_defined m ''__NetBSD'' then ''NetBSD''
     else if is_defined m ''__OpenBSD__'' \<or> is_defined m ''__OPENBSD'' then ''OpenBSD''
     else if is_defined m ''__sun'' \<or> is_defined m ''sun'' then ''SunOS''
     else if is_defined m ''_AIX'' \<or> is_defined m ''__AIX'' \<or> is_defined m ''__AIX__'' \<or> is_defined m ''__aix'' \<or>
           is_defined m ''__aix__'' then ''AIX''
     else if is_defined m ''__hpux'' \<or> is_defined m ''__hpux__'' then ''HP-UX''
     else if is_defined m ''__HAIKU__'' then ''Haiku''
     else if is_defined m ''__BeOS'' \<or> is_defined m ''__BEOS__'' \<or> is_defined m ''_BEOS'' then ''BeOS''
     else if is_defined m ''__QNX__'' \<or> is_defined m ''__QNXNTO__'' then ''QNX''
     else if is_defined m ''__tru64'' \<or> is_defined m ''_tru64'' \<or> is_defined m ''__TRU64__'' then ''Tru64''
     else if is_defined m ''__riscos'' \<or> is_defined m ''__riscos__'' then ''RISCos''
     else if is_defined m ''__sinix'' \<or> is_defined m ''__sinix__'' \<or> is_defined m ''__SINIX__'' then ''SINIX''
     else if is_defined m ''__UNIX_SV__'' then ''UNIX_SV''
     else if is_defined m ''__bsdos__'' then ''BSDOS''
     else if is_defined m ''_MPRAS'' \<or> is_defined m ''MPRAS'' then ''MP-RAS''
     else if is_defined m ''__osf'' \<or> is_defined m ''__osf__'' then ''OSF1''
     else if is_defined m ''_SCO_SV'' \<or> is_defined m ''SCO_SV'' \<or> is_defined m ''sco_sv'' then ''SCO_SV''
     else if is_defined m ''__ultrix'' \<or> is_defined m ''__ultrix__'' \<or> is_defined m ''_ULTRIX'' then ''ULTRIX''
     else if is_defined m ''__XENIX__'' \<or> is_defined m ''_XENIX'' \<or> is_defined m ''XENIX'' then ''Xenix''
     else if is_defined m ''__WATCOMC__'' then
       (if is_defined m ''__LINUX__'' then ''Linux''
       else if is_defined m ''__DOS__'' then ''DOS''
       else if is_defined m ''__OS2__'' then ''OS2''
       else if is_defined m ''__WINDOWS__'' then ''Windows3x''
       else if is_defined m ''__VXWORKS__'' then ''VxWorks''
       else '''')
     else if is_defined m ''__INTEGRITY'' then
       (if is_defined m ''INT_178B'' then ''Integrity178''
       else ''Integrity'')
     else '''')"

definition architecture_id_318 :: "macros \<Rightarrow> string" where
  "architecture_id_318 m =
     (if is_defined m ''_WIN32'' \<and> is_defined m ''_MSC_VER'' then
       (if is_defined m ''_M_IA64'' then ''IA64''
       else if is_defined m ''_M_X64'' \<or> is_defined m ''_M_AMD64'' then ''x64''
       else if is_defined m ''_M_IX86'' then ''X86''
       else if is_defined m ''_M_ARM64'' then ''ARM64''
       else if is_defined m ''_M_ARM'' then
         (if num m ''_M_ARM'' = 4 then ''ARMV4I''
         else if num m ''_M_ARM'' = 5 then ''ARMV5I''
         else ''ARMV'' @ stringify m ''_M_ARM'')
       else if is_defined m ''_M_MIPS'' then ''MIPS''
       else if is_defined m ''_M_SH'' then ''SHx''
       else '''')
     else if is_defined m ''__WATCOMC__'' then
       (if is_defined m ''_M_I86'' then ''I86''
       else if is_defined m ''_M_IX86'' then ''X86''
       else '''')
     else if is_defined m ''__IAR_SYSTEMS_ICC__'' \<or> is_defined m ''__IAR_SYSTEMS_ICC'' then
       (if is_defined m ''__ICCARM__'' then ''ARM''
       else if is_defined m ''__ICCRX__'' then ''RX''
       else if is_defined m ''__ICCRH850__'' then ''RH850''
       else if is_defined m ''__ICCRL78__'' then ''RL78''
       else if is_defined m ''__ICCRISCV__'' then ''RISCV''
       else if is_defined m ''__ICCAVR__'' then ''AVR''
       else if is_defined m ''__ICC430__'' then ''MSP430''
       else if is_defined m ''__ICCV850__'' then ''V850''
       else if is_defined m ''__ICC8051__'' then ''8051''
       else '''')
     else if is_defined m ''__ghs__'' then
       (if is_defined m ''__PPC64__'' then ''PPC64''
       else if is_defined m ''__ppc__'' then ''PPC''
       else if is_defined m ''__ARM__'' then ''ARM''
       else if is_defined m ''__x86_64__'' then ''x64''
       else if is_defined m ''__i386__'' then ''X86''
       else '''')
     else '''')"

definition platform_id_cxx_318 :: "macros \<Rightarrow> string" where
  "platform_id_cxx_318 m =
     (if is_defined m ''__linux'' \<or> is_defined m ''__linux__'' \<or> is_defined m ''linux'' then ''Linux''
     else if is_defined m ''__CYGWIN__'' then ''Cygwin''
     else if is_defined m ''__MINGW32__'' then ''MinGW''
     else if is_defined m ''__APPLE__'' then ''Darwin''
     else if is_defined m ''_WIN32'' \<or> is_defined m ''__WIN32__'' \<or> is_defined m ''WIN32'' then ''Windows''
     else if is_defined m ''__FreeBSD__'' \<or> is_defined m ''__FreeBSD'' then ''FreeBSD''
     else if is_defined m ''__NetBSD__'' \<or> is_defined m ''__NetBSD'' then ''NetBSD''
     else if is_defined m ''__OpenBSD__'' \<or> is_defined m ''__OPENBSD'' then ''OpenBSD''
     else if is_defined m ''__sun'' \<or> is_defined m ''sun'' then ''SunOS''
     else if is_defined m ''_AIX'' \<or> is_defined m ''__AIX'' \<or> is_defined m ''__AIX__'' \<or> is_defined m ''__aix'' \<or>
           is_defined m ''__aix__'' then ''AIX''
     else if is_defined m ''__hpux'' \<or> is_defined m ''__hpux__'' then ''HP-UX''
     else if is_defined m ''__HAIKU__'' then ''Haiku''
     else if is_defined m ''__BeOS'' \<or> is_defined m ''__BEOS__'' \<or> is_defined m ''_BEOS'' then ''BeOS''
     else if is_defined m ''__QNX__'' \<or> is_defined m ''__QNXNTO__'' then ''QNX''
     else if is_defined m ''__tru64'' \<or> is_defined m ''_tru64'' \<or> is_defined m ''__TRU64__'' then ''Tru64''
     else if is_defined m ''__riscos'' \<or> is_defined m ''__riscos__'' then ''RISCos''
     else if is_defined m ''__sinix'' \<or> is_defined m ''__sinix__'' \<or> is_defined m ''__SINIX__'' then ''SINIX''
     else if is_defined m ''__UNIX_SV__'' then ''UNIX_SV''
     else if is_defined m ''__bsdos__'' then ''BSDOS''
     else if is_defined m ''_MPRAS'' \<or> is_defined m ''MPRAS'' then ''MP-RAS''
     else if is_defined m ''__osf'' \<or> is_defined m ''__osf__'' then ''OSF1''
     else if is_defined m ''_SCO_SV'' \<or> is_defined m ''SCO_SV'' \<or> is_defined m ''sco_sv'' then ''SCO_SV''
     else if is_defined m ''__ultrix'' \<or> is_defined m ''__ultrix__'' \<or> is_defined m ''_ULTRIX'' then ''ULTRIX''
     else if is_defined m ''__XENIX__'' \<or> is_defined m ''_XENIX'' \<or> is_defined m ''XENIX'' then ''Xenix''
     else if is_defined m ''__WATCOMC__'' then
       (if is_defined m ''__LINUX__'' then ''Linux''
       else if is_defined m ''__DOS__'' then ''DOS''
       else if is_defined m ''__OS2__'' then ''OS2''
       else if is_defined m ''__WINDOWS__'' then ''Windows3x''
       else if is_defined m ''__VXWORKS__'' then ''VxWorks''
       else '''')
     else if is_defined m ''__INTEGRITY'' then
       (if is_defined m ''INT_178B'' then ''Integrity178''
       else ''Integrity'')
     else '''')"

definition architecture_id_cxx_318 :: "macros \<Rightarrow> string" where
  "architecture_id_cxx_318 m =
     (if is_defined m ''_WIN32'' \<and> is_defined m ''_MSC_VER'' then
       (if is_defined m ''_M_IA64'' then ''IA64''
       else if is_defined m ''_M_X64'' \<or> is_defined m ''_M_AMD64'' then ''x64''
       else if is_defined m ''_M_IX86'' then ''X86''
       else if is_defined m ''_M_ARM64'' then ''ARM64''
       else if is_defined m ''_M_ARM'' then
         (if num m ''_M_ARM'' = 4 then ''ARMV4I''
         else if num m ''_M_ARM'' = 5 then ''ARMV5I''
         else ''ARMV'' @ stringify m ''_M_ARM'')
       else if is_defined m ''_M_MIPS'' then ''MIPS''
       else if is_defined m ''_M_SH'' then ''SHx''
       else '''')
     else if is_defined m ''__WATCOMC__'' then
       (if is_defined m ''_M_I86'' then ''I86''
       else if is_defined m ''_M_IX86'' then ''X86''
       else '''')
     else if is_defined m ''__IAR_SYSTEMS_ICC__'' \<or> is_defined m ''__IAR_SYSTEMS_ICC'' then
       (if is_defined m ''__ICCARM__'' then ''ARM''
       else if is_defined m ''__ICCRX__'' then ''RX''
       else if is_defined m ''__ICCRH850__'' then ''RH850''
       else if is_defined m ''__ICCRL78__'' then ''RL78''
       else if is_defined m ''__ICCRISCV__'' then ''RISCV''
       else if is_defined m ''__ICCAVR__'' then ''AVR''
       else if is_defined m ''__ICC430__'' then ''MSP430''
       else if is_defined m ''__ICCV850__'' then ''V850''
       else if is_defined m ''__ICC8051__'' then ''8051''
       else '''')
     else if is_defined m ''__ghs__'' then
       (if is_defined m ''__PPC64__'' then ''PPC64''
       else if is_defined m ''__ppc__'' then ''PPC''
       else if is_defined m ''__ARM__'' then ''ARM''
       else if is_defined m ''__x86_64__'' then ''x64''
       else if is_defined m ''__i386__'' then ''X86''
       else '''')
     else '''')"

lemma host_cxx_318: "platform_id_cxx_318 m = platform_id_318 m" "architecture_id_cxx_318 m = architecture_id_318 m"
  by (simp_all only: platform_id_cxx_318_def platform_id_318_def architecture_id_cxx_318_def architecture_id_318_def)

definition info_cray_318 :: "macros \<Rightarrow> string option" where
  "info_cray_318 m =
     (if is_defined m ''__CRAYXE'' \<or> is_defined m ''__CRAYXC'' then Some ''INFO:compiler_wrapper[CrayPrgEnv]''
      else None)"

definition info_version_318 :: "ids \<Rightarrow> string option option" where
  "info_version_318 d =
     map_option (\<lambda>major. components ''INFO:compiler_version['' major
         [COMPILER_VERSION_MINOR d, COMPILER_VERSION_PATCH d, COMPILER_VERSION_TWEAK d])
       (COMPILER_VERSION_MAJOR d)"

definition info_version_internal_318 :: "ids \<Rightarrow> string option option" where
  "info_version_internal_318 d =
     map_option (map_option (\<lambda>s. ''INFO:compiler_version_internal['' @ s @ '']'')) (COMPILER_VERSION_INTERNAL d)"

definition C_DIALECT :: "macros \<Rightarrow> string" where
  "C_DIALECT m =
     (if \<not> is_defined m ''__STDC__'' then
        (if (is_defined m ''_MSC_VER'' \<and> \<not> is_defined m ''__clang__'') \<or>
            (is_defined m ''__ibmxl__'' \<or> is_defined m ''__IBMC__'')
         then ''90'' else '''')
      else if num m ''__STDC_VERSION__'' \<ge> 201000 then ''11''
      else if num m ''__STDC_VERSION__'' \<ge> 199901 then ''99''
      else ''90'')"

text \<open>\<open>CXX_STD\<close> is computed as in the newer file.\<close>

definition CXX_DIALECT :: "macros \<Rightarrow> string" where
  "CXX_DIALECT m =
     (if CXX_STD m > 201703 then ''20''
      else if CXX_STD m \<ge> 201703 then ''17''
      else if CXX_STD m \<ge> 201402 then ''14''
      else if CXX_STD m \<ge> 201103 then ''11''
      else ''98'')"

definition info_language_dialect_default :: "string \<Rightarrow> string" where
  "info_language_dialect_default v = ''INFO:dialect_default['' @ v @ '']''"

record old_probe =
  o_compiler :: string
  o_simulate :: "string option"
  o_qnxnto :: "string option"
  o_cray :: "string option"
  o_version :: "string option"
  o_version_internal :: "string option"
  o_simulate_version :: "string option"
  o_platform :: string
  o_arch :: string
  o_dialect :: string

definition declared_318 :: "macros \<Rightarrow> ids \<Rightarrow> string \<Rightarrow> string \<Rightarrow> string \<Rightarrow> old_probe option" where
  "declared_318 m d platform arch v =
     (if info_version_318 d = Some None \<or> info_version_internal_318 d = Some None \<or>
         info_simulate_version d = Some None
      then None
      else Some
        \<lparr>o_compiler = info_compiler d, o_simulate = info_simulate d, o_qnxnto = qnxnto m,
         o_cray = info_cray_318 m, o_version = Option.bind (info_version_318 d) id,
         o_version_internal = Option.bind (info_version_internal_318 d) id,
         o_simulate_version = Option.bind (info_simulate_version d) id,
         o_platform = info_platform platform,
         o_arch = info_arch arch,
         o_dialect = info_language_dialect_default v\<rparr>)"

definition compile_c_318 :: "macros \<Rightarrow> old_probe option" where
  "compile_c_318 m =
     (if is_defined m ''__cplusplus'' then None
      else declared_318 m (identify_318 m) (platform_id_318 m) (architecture_id_318 m) (C_DIALECT m))"

definition compile_cxx_318 :: "macros \<Rightarrow> old_probe option" where
  "compile_cxx_318 m =
     (if \<not> is_defined m ''__cplusplus'' then None
      else declared_318 m (identify_cxx_318 m) (platform_id_cxx_318 m) (architecture_id_cxx_318 m) (CXX_DIALECT m))"

definition required_c_318 :: "macros \<Rightarrow> ids \<Rightarrow> old_probe \<Rightarrow> string list" where
  "required_c_318 m d u =
     [o_compiler u, o_platform u, o_arch u] @
     opt (COMPILER_VERSION_MAJOR d \<noteq> None) (o_version u) @
     opt (COMPILER_VERSION_INTERNAL d \<noteq> None) (o_version_internal u) @
     opt (SIMULATE_ID d \<noteq> None) (o_simulate u) @
     opt (SIMULATE_VERSION_MAJOR d \<noteq> None) (o_simulate_version u) @
     opt (is_defined m ''__CRAYXE'' \<or> is_defined m ''__CRAYXC'') (o_cray u) @
     [o_dialect u]"

definition required_cxx_318 :: "macros \<Rightarrow> ids \<Rightarrow> old_probe \<Rightarrow> string list" where
  "required_cxx_318 m d u =
     [o_compiler u, o_platform u] @
     opt (COMPILER_VERSION_MAJOR d \<noteq> None) (o_version u) @
     opt (COMPILER_VERSION_INTERNAL d \<noteq> None) (o_version_internal u) @
     opt (SIMULATE_ID d \<noteq> None) (o_simulate u) @
     opt (SIMULATE_VERSION_MAJOR d \<noteq> None) (o_simulate_version u) @
     opt (is_defined m ''__CRAYXE'' \<or> is_defined m ''__CRAYXC'') (o_cray u) @
     [o_dialect u]"

definition main_c_318 :: "macros \<Rightarrow> old_probe \<Rightarrow> int \<Rightarrow> main_result" where
  "main_c_318 m u argc =
     (if is_defined m ''__18CXX'' then Void else require argc (required_c_318 m (identify_318 m) u) 0)"

definition main_cxx_318 :: "macros \<Rightarrow> old_probe \<Rightarrow> int \<Rightarrow> main_result" where
  "main_cxx_318 m u argc = require argc (required_cxx_318 m (identify_cxx_318 m) u) 0"

end
