(* ===== verification/Probes.thy ===== *)
theory Probes
  imports Probe318
begin

text \<open>
  What the probes promise to CMake: the version numbers can be read back from the strings, a vendor
  is recognised even though its compiler also defines the macros of GCC, the languages and releases
  agree and on which compilers, \<open>main\<close> stays inside the strings, and which of them it does not refer to.
\<close>

subsection \<open>Which branch is taken\<close>

lemma branch_ids [simp]:
  "COMPILER_ID (id_Intel m no_ids) = ''Intel''" "COMPILER_ID (id_IntelLLVM m no_ids) = ''IntelLLVM''"
  "COMPILER_ID (id_PathScale m no_ids) = ''PathScale''"
  "COMPILER_ID (id_Embarcadero m no_ids) = ''Embarcadero''"
  "COMPILER_ID (id_Borland m no_ids) = ''Borland''" "COMPILER_ID (id_Watcom m no_ids) = ''Watcom''"
  "COMPILER_ID (id_OpenWatcom m no_ids) = ''OpenWatcom''" "COMPILER_ID (id_SunPro m no_ids) = ''SunPro''"
  "COMPILER_ID (id_HP m no_ids) = ''HP''" "COMPILER_ID (id_Compaq m no_ids) = ''Compaq''"
  "COMPILER_ID (id_zOS m no_ids) = ''zOS''" "COMPILER_ID (id_XLClang m no_ids) = ''XLClang''"
  "COMPILER_ID (id_XL m no_ids) = ''XL''" "COMPILER_ID (id_VisualAge m no_ids) = ''VisualAge''"
  "COMPILER_ID (id_NVHPC m no_ids) = ''NVHPC''" "COMPILER_ID (id_PGI m no_ids) = ''PGI''"
  "COMPILER_ID (id_Cray m no_ids) = ''Cray''" "COMPILER_ID (id_TI m no_ids) = ''TI''"
  "COMPILER_ID (id_FujitsuClang m no_ids) = ''FujitsuClang''"
  "COMPILER_ID (id_Fujitsu m no_ids) = ''Fujitsu''" "COMPILER_ID (id_GHS m no_ids) = ''GHS''"
  "COMPILER_ID (id_TinyCC m no_ids) = ''TinyCC''" "COMPILER_ID (id_Bruce m no_ids) = ''Bruce''"
  "COMPILER_ID (id_SCO m no_ids) = ''SCO''" "COMPILER_ID (id_ARMCC m no_ids) = ''ARMCC''"
  "COMPILER_ID (id_AppleClang m no_ids) = ''AppleClang''"
  "COMPILER_ID (id_ARMClang m no_ids) = ''ARMClang''" "COMPILER_ID (id_Clang m no_ids) = ''Clang''"
  "COMPILER_ID (id_GNU m no_ids) = ''GNU''" "COMPILER_ID (id_MSVC m no_ids) = ''MSVC''"
  "COMPILER_ID (id_ADSP m no_ids) = ''ADSP''" "COMPILER_ID (id_IAR m no_ids) = ''IAR''"
  "COMPILER_ID (id_SDCC m no_ids) = ''SDCC''" "COMPILER_ID (id_HP_native m no_ids) = ''HP''"
  "COMPILER_ID (id_unknown m no_ids) = ''''"
  by (simp_all add: branch_defs if_distribR if_distrib [of COMPILER_ID])

text \<open>The macros by which the vendors that come before GCC in the cascade are recognised.\<close>

definition vendor_macros :: "string list" where
  "vendor_macros =
     [''__INTEL_COMPILER'', ''__ICC'', ''__INTEL_LLVM_COMPILER'', ''__PATHCC__'', ''__BORLANDC__'',
      ''__WATCOMC__'', ''__SUNPRO_C'', ''__HP_cc'', ''__DECC'', ''__IBMC__'', ''__NVCOMPILER'', ''__PGI'',
      ''_CRAYC'', ''__TI_COMPILER_VERSION__'', ''__CLANG_FUJITSU'', ''__FUJITSU'', ''__ghs__'',
      ''__TINYC__'', ''__BCC__'', ''__SCO_VERSION__'', ''__ARMCC_VERSION'', ''__clang__'']"

lemma identify_GNU:
  "COMPILER_ID (identify m) = ''GNU'' \<longleftrightarrow>
     is_defined m ''__GNUC__'' \<and> (\<forall>x \<in> set vendor_macros. \<not> is_defined m x)"
proof
  assume "COMPILER_ID (identify m) = ''GNU''"
  then show "is_defined m ''__GNUC__'' \<and> (\<forall>x \<in> set vendor_macros. \<not> is_defined m x)"
    unfolding identify_def vendor_macros_def by (simp split: if_splits) (meson not_le)
next
  assume "is_defined m ''__GNUC__'' \<and> (\<forall>x \<in> set vendor_macros. \<not> is_defined m x)"
  then show "COMPILER_ID (identify m) = ''GNU''"
    unfolding identify_def vendor_macros_def by simp
qed

lemma identify_GNU_branch: "COMPILER_ID (identify m) = ''GNU'' \<Longrightarrow> identify m = id_GNU m no_ids"
  unfolding identify_GNU by (simp add: identify_def vendor_macros_def)

subsection \<open>Digits\<close>

definition value_of :: "int \<Rightarrow> string \<Rightarrow> int" where
  "value_of base s = foldl (\<lambda>v c. v * base + (of_char c - 48)) 0 s"

lemma digit_char: "0 \<le> d \<Longrightarrow> d < 16 \<Longrightarrow> of_char (char_of (48 + d :: int)) = 48 + d"
  by (simp add: of_char_of)

lemma digit_step: "n div (10 * k) * 10 + n div k mod 10 = n div k" if "0 \<le> k" for n k :: int
proof -
  have "n div (10 * k) = n div k div 10"
    using that zdiv_zmult2_eq [of 10 n k] by (simp add: mult.commute)
  then show ?thesis by (simp add: div_mult_mod_eq)
qed

lemma c_division: "0 \<le> n \<Longrightarrow> 0 < k \<Longrightarrow> n sdiv k = n div k" "0 \<le> n \<Longrightarrow> 0 < k \<Longrightarrow> n smod k = n mod k"
  for n k :: int
  by (auto simp: signed_divide_int_def signed_modulo_int_def sgn_if)

lemma DEC_nonneg:
  assumes "0 \<le> n"
  shows "DEC n = map (\<lambda>d. char_of (48 + d))
    [n div 10000000 mod 10, n div 1000000 mod 10, n div 100000 mod 10, n div 10000 mod 10,
     n div 1000 mod 10, n div 100 mod 10, n div 10 mod 10, n mod 10]"
  using assms by (simp add: DEC_def c_division pos_imp_zdiv_nonneg_iff)

lemma value_DEC:
  assumes "0 \<le> n"
  shows "value_of 10 (DEC n) = n mod 100000000"
proof -
  have range: "0 \<le> n div k mod 10" "n div k mod 10 < 16" "0 \<le> n mod 10" "n mod 10 < 16" for k
    by (simp_all add: order.strict_trans [OF pos_mod_bound])
  note s = digit_step [of 1 n] digit_step [of 10 n] digit_step [of 100 n] digit_step [of 1000 n]
    digit_step [of 10000 n] digit_step [of 100000 n] digit_step [of 1000000 n] digit_step [of 10000000 n]
  have top: "n mod 100000000 = n - n div 100000000 * 100000000"
    by (simp add: minus_div_mult_eq_mod)
  have "value_of 10 (DEC n) =
      ((((((n div 10000000 mod 10 * 10 + n div 1000000 mod 10) * 10 + n div 100000 mod 10) * 10 +
        n div 10000 mod 10) * 10 + n div 1000 mod 10) * 10 + n div 100 mod 10) * 10 + n div 10 mod 10) * 10 + n mod 10"
    by (simp add: value_of_def DEC_nonneg [OF assms] digit_char range)
  also have "\<dots> = n mod 100000000"
    using s top div_mult_mod_eq [of n 10] by (simp, linarith)
  finally show ?thesis .
qed

lemma DEC_digits:
  assumes "0 \<le> n" and "c \<in> set (DEC n)"
  shows "48 \<le> (of_char c :: int)" and "(of_char c :: int) < 58"
proof -
  have digit: "of_char (char_of (48 + d mod 10 :: int)) = 48 + d mod 10" for d :: int
    by (rule digit_char) (simp_all add: order.strict_trans [OF pos_mod_bound])
  show "48 \<le> (of_char c :: int)" "(of_char c :: int) < 58"
    using assms(2) unfolding DEC_nonneg [OF assms(1)]
    by (auto simp: digit simp del: of_char_of)
qed

text \<open>Reading a version string: the numbers between the brackets, separated by dots.\<close>

fun fields :: "string \<Rightarrow> string \<Rightarrow> string list" where
  "fields acc [] = [rev acc]"
| "fields acc (c # s) =
     (if c = CHR ''.'' then rev acc # fields [] s
      else if c = CHR '']'' then [rev acc] else fields (c # acc) s)"

definition version_numbers :: "string \<Rightarrow> int list" where
  "version_numbers s = map (value_of 10) (fields [] (tl (dropWhile (\<lambda>c. c \<noteq> CHR ''['') s)))"

lemma fields_digits:
  assumes "\<forall>c \<in> set s. (of_char c :: int) < 58 \<and> 48 \<le> (of_char c :: int)"
  shows "fields acc (s @ CHR ''.'' # t) = (rev acc @ s) # fields [] t"
    and "fields acc (s @ CHR '']'' # t) = [rev acc @ s]"
proof -
  have "c \<noteq> CHR ''.'' \<and> c \<noteq> CHR '']''" if "c \<in> set s" for c
    using assms that by fastforce
  then show "fields acc (s @ CHR ''.'' # t) = (rev acc @ s) # fields [] t"
    "fields acc (s @ CHR '']'' # t) = [rev acc @ s]"
    by (induction s arbitrary: acc) auto
qed

lemma version_text:
  assumes "0 \<le> a" and "0 \<le> b" and "0 \<le> c"
  shows "version_numbers (''INFO:compiler_version['' @ DEC a @ ''.'' @ DEC b @ ''.'' @ DEC c @ '']'') =
    [a mod 100000000, b mod 100000000, c mod 100000000]"
proof -
  have d: "\<forall>x \<in> set (DEC n). (of_char x :: int) < 58 \<and> 48 \<le> (of_char x :: int)" if "0 \<le> n" for n
    using DEC_digits [OF that] by blast
  have "fields [] (DEC a @ CHR ''.'' # DEC b @ CHR ''.'' # DEC c @ [CHR '']'']) = [DEC a, DEC b, DEC c]"
    by (simp add: fields_digits(1) [OF d [OF assms(1)]] fields_digits(1) [OF d [OF assms(2)]]
        fields_digits(2) [OF d [OF assms(3)]])
  then show ?thesis
    by (simp add: version_numbers_def value_DEC assms)
qed

subsection \<open>The compiled strings\<close>

lemma compile_cD:
  assumes "compile_c m = Some u"
  shows "\<not> is_defined m ''__cplusplus''" and "declared m (identify m) (platform_id m) (architecture_id m) (C_VERSION m) = Some u"
  using assms by (auto simp: compile_c_def split: if_splits)

lemma compile_cxxD:
  assumes "compile_cxx m = Some u"
  shows "declared m (identify_cxx m) (platform_id_cxx m) (architecture_id_cxx m) (CXX_VERSION m) = Some u"
  using assms by (auto simp: compile_cxx_def split: if_splits)

lemma declared_fields:
  assumes "declared m d p a v = Some u"
  shows "p_compiler u = info_compiler d" and "p_simulate u = info_simulate d" and "p_qnxnto u = qnxnto m"
    and "p_cray u = info_cray m" and "map_option Some (p_version u) = info_version d"
    and "map_option Some (p_version_internal u) = info_version_internal d"
    and "map_option Some (p_simulate_version u) = info_simulate_version d"
    and "p_platform u = info_platform p" and "p_arch u = info_arch a"
    and "p_standard u = info_language_standard_default v"
    and "p_extensions u = info_language_extensions_default m"
proof -
  have join: "map_option Some (Option.bind x id) = x" if "x \<noteq> Some None" for x :: "string option option"
    using that by (cases x) auto
  have "info_version d \<noteq> Some None \<and> info_version_internal d \<noteq> Some None \<and> info_simulate_version d \<noteq> Some None"
    using assms by (auto simp: declared_def split: if_splits)
  then show "p_compiler u = info_compiler d" "p_simulate u = info_simulate d" "p_qnxnto u = qnxnto m"
    "p_cray u = info_cray m" "map_option Some (p_version u) = info_version d"
    "map_option Some (p_version_internal u) = info_version_internal d"
    "map_option Some (p_simulate_version u) = info_simulate_version d"
    "p_platform u = info_platform p" "p_arch u = info_arch a"
    "p_standard u = info_language_standard_default v"
    "p_extensions u = info_language_extensions_default m"
    using assms join by (auto simp: declared_def split: if_splits)
qed

lemma compiler_text: "declared m d p a v = Some u \<Longrightarrow> p_compiler u = ''INFO:compiler['' @ x @ '']'' \<longleftrightarrow> COMPILER_ID d = x"
  by (simp add: declared_fields(1) info_compiler_def)

text \<open>
  C35. The C probe reports GNU exactly for a compiler that defines \<open>__GNUC__\<close> and none of the macros of
  the vendors that imitate GCC, whatever else it defines; so the order of the cascade does not
  matter for it.
\<close>

theorem gnu_reported_iff:
  assumes "compile_c m = Some u"
  shows "p_compiler u = ''INFO:compiler[GNU]'' \<longleftrightarrow>
    is_defined m ''__GNUC__'' \<and> (\<forall>x \<in> set vendor_macros. \<not> is_defined m x)"
  using compiler_text [OF compile_cD(2) [OF assms], of "''GNU''"] identify_GNU [of m] by simp

text \<open>
  C34. What CMake reads is the version of the compiler: when the C probe reports GNU, the numbers in its
  version string are the values of \<open>__GNUC__\<close>, \<open>__GNUC_MINOR__\<close> and \<open>__GNUC_PATCHLEVEL__\<close>, if they
  have at most eight digits, as \<open>DEC\<close> provides.
\<close>

theorem gnu_version_reported:
  assumes "compile_c m = Some u" and "p_compiler u = ''INFO:compiler[GNU]''"
    and "m ''__GNUC__'' = Some (Number x a)" and "m ''__GNUC_MINOR__'' = Some (Number y b)"
    and "m ''__GNUC_PATCHLEVEL__'' = Some (Number z c)"
    and "{a, b, c} \<subseteq> {0..<100000000}"
  shows "\<exists>s. p_version u = Some s \<and> version_numbers s = [a, b, c]"
proof -
  note d = compile_cD(2) [OF assms(1)]
  have id: "identify m = id_GNU m no_ids"
    using compiler_text [OF d, of "''GNU''"] assms(2) by (intro identify_GNU_branch) simp
  have "info_version (identify m) =
      Some (Some (''INFO:compiler_version['' @ DEC a @ ''.'' @ DEC b @ ''.'' @ DEC c @ '']''))"
    unfolding id using assms(3-5)
    by (simp add: id_GNU_def no_ids_def info_version_def components_def expand_def operand_def is_defined_def)
  then show ?thesis
    using declared_fields(5) [OF d] version_text [of a b c] assms(6) by (cases "p_version u") auto
qed

text \<open>The macros that only one of the two files looks at.\<close>

definition language_macros :: "string list" where
  "language_macros =
     [''__COMO__'', ''__SUNPRO_C'', ''__SUNPRO_CC'', ''__HP_cc'', ''__HP_aCC'', ''__DECC'', ''__DECCXX'',
      ''__IBMC__'', ''__IBMCPP__'', ''__TINYC__'', ''__BCC__'', ''__SDCC_VERSION_MAJOR'', ''SDCC'']"

lemma languages_agree:
  assumes "\<forall>x \<in> set language_macros. \<not> is_defined m x"
    and "is_defined m ''__GNUG__'' \<longrightarrow> is_defined m ''__GNUC__''"
  shows "identify_cxx m = identify m"
proof -
  have gnu: "(if is_defined m ''__GNUC__'' \<or> is_defined m ''__GNUG__'' then cxx_GNU m no_ids else x) =
      (if is_defined m ''__GNUC__'' then id_GNU m no_ids else x)" for x
    using assms(2) by (simp add: cxx_GNU_def id_GNU_def)
  show ?thesis
    unfolding identify_cxx_defs identify_def gnu
    using assms(1) by (simp add: language_macros_def split del: if_split cong del: if_weak_cong)
qed

text \<open>The macros by which the two releases of the probes can differ.\<close>

definition release_macros :: "string list" where
  "release_macros =
     [''__INTEL_CLANG_COMPILER'', ''__INTEL_LLVM_COMPILER'', ''__NVCOMPILER'', ''__CLANG_FUJITSU'', ''__FUJITSU'',
      ''__FCC_VERSION'', ''__fcc_version'', ''__ICCSTM8__'']"

lemma releases_agree:
  assumes "\<forall>x \<in> set release_macros. \<not> is_defined m x" and "num m ''__INTEL_COMPILER'' < 2021"
  shows "identify_318 m = identify m" and "identify_cxx_318 m = identify_cxx m"
proof -
  have intel: "old_Intel m = id_Intel m" using assms(2) by (simp add: old_Intel_def id_Intel_def fun_eq_iff)
  have iar: "old_IAR m = id_IAR m"
    using assms(1) by (simp add: old_IAR_def id_IAR_def release_macros_def)
  show "identify_318 m = identify m"
    unfolding identify_318_defs identify_def intel iar
    using assms(1) by (simp add: release_macros_def split del: if_split cong del: if_weak_cong)
  show "identify_cxx_318 m = identify_cxx m"
    unfolding identify_cxx_318_defs identify_cxx_defs intel iar
    using assms(1) by (simp add: release_macros_def split del: if_split cong del: if_weak_cong)
qed

text \<open>Intel's compilers from 2021 on define the year; the older release takes it for a version.\<close>

lemma intel_2021_misread:
  "COMPILER_VERSION_MAJOR (identify_318 [''__INTEL_COMPILER'' \<mapsto> Number ''2021'' 2021]) = Some (Some ''00000020'')"
  "COMPILER_VERSION_MAJOR (identify [''__INTEL_COMPILER'' \<mapsto> Number ''2021'' 2021]) = Some (Some ''00002021'')"
  by code_simp+

text \<open>The same for the platform and the architecture.\<close>

definition host_macros :: "string list" where
  "host_macros = [''__MSYS__'', ''_M_ARM64EC'', ''__ICCSTM8__'', ''__TI_COMPILER_VERSION__'']"

lemma hosts_agree:
  assumes "\<forall>x \<in> set host_macros. \<not> is_defined m x"
  shows "platform_id_318 m = platform_id m" and "architecture_id_318 m = architecture_id m"
  unfolding platform_id_318_def platform_id_def architecture_id_318_def architecture_id_def
  using assms by (simp_all add: host_macros_def split del: if_split cong del: if_weak_cong)

text \<open>
  The macro \<open>__cplusplus\<close>, by which the \<open>#error\<close> at the top of a file recognises the language, is
  looked at by no branch.
\<close>

lemma cplusplus_unread [simp]:
  assumes "z \<noteq> ''__cplusplus''"
  shows "is_defined (m(''__cplusplus'' \<mapsto> x)) z = is_defined m z" and "num (m(''__cplusplus'' \<mapsto> x)) z = num m z"
    and "operand (m(''__cplusplus'' \<mapsto> x)) z = operand m z" and "literal (m(''__cplusplus'' \<mapsto> x)) z = literal m z"
    and "stringify (m(''__cplusplus'' \<mapsto> x)) z = stringify m z" and "expand f (m(''__cplusplus'' \<mapsto> x)) z = expand f m z"
  using assms by (simp_all add: is_defined_def num_def operand_def literal_def stringify_def expand_def)

lemma identify_unread: "identify (m(''__cplusplus'' \<mapsto> x)) = identify m"
  by (simp add: identify_def branch_defs split del: if_split cong del: if_weak_cong)

lemma host_unread:
  "platform_id (m(''__cplusplus'' \<mapsto> x)) = platform_id m" "architecture_id (m(''__cplusplus'' \<mapsto> x)) = architecture_id m"
  by (simp_all add: platform_id_def architecture_id_def split del: if_split cong del: if_weak_cong)

lemma info_unread:
  "qnxnto (m(''__cplusplus'' \<mapsto> x)) = qnxnto m" "info_cray (m(''__cplusplus'' \<mapsto> x)) = info_cray m"
  "info_language_extensions_default (m(''__cplusplus'' \<mapsto> x)) = info_language_extensions_default m"
  by (simp_all add: qnxnto_def info_cray_def info_language_extensions_default_def)

subsection \<open>The main function\<close>

lemma char_range: "0 \<le> (of_char c :: int)" "(of_char c :: int) < 256"
  by (cases c; simp add: of_char_def horner_sum_simps split: bool.split)+

lemma read_at_ok:
  assumes "0 \<le> argc" and "argc \<le> int (length s)"
  obtains v where "read_at argc s = Some v" and "\<bar>v\<bar> \<le> 128"
proof (cases "argc = int (length s)")
  case True
  then show ?thesis using that [of 0] assms by (simp add: read_at_def)
next
  case False
  let ?c = "of_char (s ! nat argc) :: int"
  show ?thesis
    using that [of "if ?c < 128 then ?c else ?c - 256"] char_range [of "s ! nat argc"] False assms
    by (simp add: read_at_def Let_def split: if_splits)
qed

lemma require_ok:
  assumes "0 \<le> argc" and "\<forall>s \<in> set ss. argc \<le> int (length s)"
  shows "\<exists>r. require argc ss acc = Returns r \<and> \<bar>r - acc\<bar> \<le> 128 * int (length ss)"
  using assms(2)
proof (induction ss arbitrary: acc)
  case (Cons s ss)
  then have "argc \<le> int (length s)" by simp
  then obtain v where v: "read_at argc s = Some v" "\<bar>v\<bar> \<le> 128" by (rule read_at_ok [OF assms(1)])
  obtain r where "require argc ss (acc + v) = Returns r" "\<bar>r - (acc + v)\<bar> \<le> 128 * int (length ss)"
    using Cons by auto
  with v show ?case by (auto simp: algebra_simps)
qed simp

lemma require_bad: "\<exists>s \<in> set ss. int (length s) < argc \<Longrightarrow> require argc ss acc = Out_of_bounds"
  by (induction ss arbitrary: acc) (auto simp: read_at_def split: option.split)

lemma components_length: "components p a rest = Some s \<Longrightarrow> length p < length s"
  by (auto simp: components_def split: option.splits)

lemma info_version_length: "info_version d = Some (Some s) \<Longrightarrow> 15 \<le> length s"
  by (auto simp: info_version_def dest!: components_length split: option.splits)

lemma info_simulate_version_length: "info_simulate_version d = Some (Some s) \<Longrightarrow> 15 \<le> length s"
  by (auto simp: info_simulate_version_def dest!: components_length)

lemma info_version_internal_length: "info_version_internal d = Some (Some s) \<Longrightarrow> 15 \<le> length s"
  by (auto simp: info_version_internal_def split: option.splits)

lemma info_simulate_length: "info_simulate d = Some s \<Longrightarrow> 15 \<le> length s"
  by (auto simp: info_simulate_def)

lemma info_cray_length: "info_cray m = Some s \<Longrightarrow> 15 \<le> length s"
  by (auto simp: info_cray_def split: if_splits)

lemma string_lengths:
  assumes "declared m d p a v = Some u"
  shows "15 \<le> length (p_compiler u)" and "15 \<le> length (p_platform u)" and "11 \<le> length (p_arch u)"
    and "\<And>s. p_version u = Some s \<Longrightarrow> 15 \<le> length s" and "\<And>s. p_version_internal u = Some s \<Longrightarrow> 15 \<le> length s"
    and "\<And>s. p_simulate u = Some s \<Longrightarrow> 15 \<le> length s" and "\<And>s. p_simulate_version u = Some s \<Longrightarrow> 15 \<le> length s"
    and "\<And>s. p_cray u = Some s \<Longrightarrow> 15 \<le> length s"
    and "15 \<le> length (p_standard u)" and "15 \<le> length (p_extensions u)"
proof -
  note f = declared_fields [OF assms]
  show "15 \<le> length (p_compiler u)" "15 \<le> length (p_platform u)" "11 \<le> length (p_arch u)"
    "15 \<le> length (p_standard u)" "15 \<le> length (p_extensions u)"
    by (simp_all add: f info_compiler_def info_platform_def info_arch_def info_language_standard_default_def
        info_language_extensions_default_def)
  show "15 \<le> length s" if "p_version u = Some s" for s
    using f(5) that by (intro info_version_length [of d]) simp
  show "15 \<le> length s" if "p_version_internal u = Some s" for s
    using f(6) that by (intro info_version_internal_length [of d]) simp
  show "15 \<le> length s" if "p_simulate u = Some s" for s
    using f(2) that by (intro info_simulate_length [of d]) simp
  show "15 \<le> length s" if "p_simulate_version u = Some s" for s
    using f(7) that by (intro info_simulate_version_length [of d]) simp
  show "15 \<le> length s" if "p_cray u = Some s" for s
    using f(4) that by (intro info_cray_length [of m]) simp
qed

lemma length_opt: "length (opt b s) \<le> 1"
  by (cases s) (simp_all add: opt_def)

lemma set_opt: "x \<in> set (opt b s) \<longleftrightarrow> b \<and> s = Some x"
  by (cases s; cases b; simp add: opt_def eq_commute)

lemma required_lengths:
  assumes "declared m d p a v = Some u"
  shows "\<forall>s \<in> set (required_c m d u). 11 \<le> length s" and "length (required_c m d u) \<le> 10"
    and "\<forall>s \<in> set (required_cxx m d u). 15 \<le> length s" and "length (required_cxx m d u) \<le> 9"
proof -
  note l = string_lengths [OF assms]
  show "\<forall>s \<in> set (required_c m d u). 11 \<le> length s"
    using l(1-3,9,10) by (auto simp: required_c_def set_opt dest!: l(4-8))
  show "\<forall>s \<in> set (required_cxx m d u). 15 \<le> length s"
    using l(1-3,9,10) by (auto simp: required_cxx_def set_opt dest!: l(4-8))
  have o: "length (opt b s) \<le> 1" for b s by (rule length_opt)
  note os = o [of "COMPILER_VERSION_MAJOR d \<noteq> None" "p_version u"]
    o [of "COMPILER_VERSION_INTERNAL d \<noteq> None" "p_version_internal u"]
    o [of "SIMULATE_ID d \<noteq> None" "p_simulate u"]
    o [of "SIMULATE_VERSION_MAJOR d \<noteq> None" "p_simulate_version u"]
    o [of "is_defined m ''__CRAYXT_COMPUTE_LINUX_TARGET''" "p_cray u"]
  show "length (required_c m d u) \<le> 10"
    using os unfolding required_c_def length_append by simp
  show "length (required_cxx m d u) \<le> 9"
    using os unfolding required_cxx_def length_append by simp
qed

text \<open>The same for the files of CMake 3.18.4.\<close>

lemma compile_c_318D:
  "compile_c_318 m = Some u \<Longrightarrow>
    declared_318 m (identify_318 m) (platform_id_318 m) (architecture_id_318 m) (C_DIALECT m) = Some u"
  by (simp add: compile_c_318_def split: if_splits)

lemma compile_cxx_318D:
  "compile_cxx_318 m = Some u \<Longrightarrow>
    declared_318 m (identify_cxx_318 m) (platform_id_cxx_318 m) (architecture_id_cxx_318 m) (CXX_DIALECT m) = Some u"
  by (simp add: compile_cxx_318_def split: if_splits)

lemma info_version_318_length: "info_version_318 d = Some (Some s) \<Longrightarrow> 15 \<le> length s"
  by (auto simp: info_version_318_def dest!: components_length)

lemma info_version_internal_318_length: "info_version_internal_318 d = Some (Some s) \<Longrightarrow> 15 \<le> length s"
  by (auto simp: info_version_internal_318_def)

lemma info_cray_318_length: "info_cray_318 m = Some s \<Longrightarrow> 15 \<le> length s"
  by (auto simp: info_cray_318_def split: if_splits)

lemma join_option: "Option.bind x id = Some s \<longleftrightarrow> x = Some (Some s)"
  by (cases x) auto

lemma string_lengths_318:
  assumes "declared_318 m d p a v = Some u"
  shows "15 \<le> length (o_compiler u)" and "15 \<le> length (o_platform u)" and "11 \<le> length (o_arch u)"
    and "\<And>s. o_version u = Some s \<Longrightarrow> 15 \<le> length s" and "\<And>s. o_version_internal u = Some s \<Longrightarrow> 15 \<le> length s"
    and "\<And>s. o_simulate u = Some s \<Longrightarrow> 15 \<le> length s" and "\<And>s. o_simulate_version u = Some s \<Longrightarrow> 15 \<le> length s"
    and "\<And>s. o_cray u = Some s \<Longrightarrow> 15 \<le> length s" and "15 \<le> length (o_dialect u)"
    and "a = [] \<Longrightarrow> length (o_arch u) = 11"
  using assms
  by (auto simp: declared_318_def info_compiler_def info_platform_def info_arch_def
      info_language_dialect_default_def join_option split: if_splits
      intro: info_version_318_length info_version_internal_318_length info_simulate_version_length
        info_simulate_length info_cray_318_length)

lemma required_lengths_318:
  assumes "declared_318 m d p a v = Some u"
  shows "\<forall>s \<in> set (required_c_318 m d u). 11 \<le> length s" and "length (required_c_318 m d u) \<le> 10"
    and "\<forall>s \<in> set (required_cxx_318 m d u). 15 \<le> length s" and "length (required_cxx_318 m d u) \<le> 10"
proof -
  note l = string_lengths_318 [OF assms]
  show "\<forall>s \<in> set (required_c_318 m d u). 11 \<le> length s"
    using l(1-3,9) by (auto simp: required_c_318_def set_opt dest!: l(4-8))
  show "\<forall>s \<in> set (required_cxx_318 m d u). 15 \<le> length s"
    using l(1-3,9) by (auto simp: required_cxx_318_def set_opt dest!: l(4-8))
  note os = length_opt [of "COMPILER_VERSION_MAJOR d \<noteq> None" "o_version u"]
    length_opt [of "COMPILER_VERSION_INTERNAL d \<noteq> None" "o_version_internal u"]
    length_opt [of "SIMULATE_ID d \<noteq> None" "o_simulate u"]
    length_opt [of "SIMULATE_VERSION_MAJOR d \<noteq> None" "o_simulate_version u"]
    length_opt [of "is_defined m ''__CRAYXE'' \<or> is_defined m ''__CRAYXC''" "o_cray u"]
  show "length (required_c_318 m d u) \<le> 10"
    using os unfolding required_c_318_def length_append by simp
  show "length (required_cxx_318 m d u) \<le> 10"
    using os unfolding required_cxx_318_def length_append by simp
qed

lemma require_small:
  assumes "\<forall>s \<in> set ss. n \<le> length s" and "length ss \<le> 10" and "argc \<in> {0..int n}"
  shows "\<exists>r. require argc ss 0 = Returns r \<and> \<bar>r\<bar> \<le> 1280"
proof -
  have "0 \<le> argc" "\<forall>s \<in> set ss. argc \<le> int (length s)" using assms(1,3) by force+
  from require_ok [OF this, of 0] assms(2) show ?thesis by force
qed

text \<open>
  C37. \<open>main\<close> of the probes uses the number of command-line arguments as an index. Whatever the compiler
  defines, in C it stays inside every string up to 11, in C++, where the architecture is not read, up
  to 15, terminating zero included, and the sum it returns is small; with 12 the C probes read past
  the end of the architecture string wherever the architecture is not recognised. This holds for
  both releases.
\<close>

theorem main_reads_in_bounds:
  assumes "compile_c m = Some u" and "compile_c_318 m = Some v" and "\<not> is_defined m ''__18CXX''"
    and "compile_cxx n = Some w" and "compile_cxx_318 n = Some x"
  shows "(\<forall>argc \<in> {0..11}. (\<exists>r. main_c m u argc = Returns r \<and> \<bar>r\<bar> \<le> 1280) \<and>
      (\<exists>r. main_c_318 m v argc = Returns r \<and> \<bar>r\<bar> \<le> 1280)) \<and>
    (\<forall>argc \<in> {0..15}. (\<exists>r. main_cxx n w argc = Returns r \<and> \<bar>r\<bar> \<le> 1280) \<and>
      (\<exists>r. main_cxx_318 n x argc = Returns r \<and> \<bar>r\<bar> \<le> 1280)) \<and>
    (architecture_id m = [] \<longrightarrow> main_c m u 12 = Out_of_bounds) \<and>
    (architecture_id_318 m = [] \<longrightarrow> main_c_318 m v 12 = Out_of_bounds)"
proof -
  note c = compile_cD(2) [OF assms(1)] and c8 = compile_c_318D [OF assms(2)]
  note x = compile_cxxD [OF assms(4)] and x8 = compile_cxx_318D [OF assms(5)]
  note l = required_lengths [OF c] required_lengths_318 [OF c8]
  note lx = required_lengths(3,4) [OF x] required_lengths_318(3,4) [OF x8]
  have main: "main_c m u argc = require argc (required_c m (identify m) u) 0"
    "main_c_318 m v argc = require argc (required_c_318 m (identify_318 m) v) 0" for argc
    using assms(3) by (simp_all add: main_c_def main_c_318_def)
  have "(\<exists>r. main_c m u argc = Returns r \<and> \<bar>r\<bar> \<le> 1280) \<and> (\<exists>r. main_c_318 m v argc = Returns r \<and> \<bar>r\<bar> \<le> 1280)"
    if "argc \<in> {0..11}" for argc
    unfolding main using that by (intro conjI require_small [OF l(1,2)] require_small [OF l(5,6)]) simp_all
  moreover have "(\<exists>r. main_cxx n w argc = Returns r \<and> \<bar>r\<bar> \<le> 1280) \<and> (\<exists>r. main_cxx_318 n x argc = Returns r \<and> \<bar>r\<bar> \<le> 1280)"
    if "argc \<in> {0..15}" for argc
    unfolding main_cxx_def main_cxx_318_def
    using that lx(2) by (intro conjI require_small [OF lx(1)] require_small [OF lx(3,4)]) simp_all
  moreover have "main_c m u 12 = Out_of_bounds" if "architecture_id m = []"
    unfolding main
    by (rule require_bad) (simp add: required_c_def declared_fields(9) [OF c] info_arch_def that)
  moreover have "main_c_318 m v 12 = Out_of_bounds" if "architecture_id_318 m = []"
    unfolding main
    by (rule require_bad) (simp add: required_c_318_def string_lengths_318(10) [OF c8 that])
  ultimately show ?thesis by blast
qed

subsection \<open>Versions given as a text\<close>

lemma no_ids_fields [simp]:
  "COMPILER_VERSION no_ids = None" "COMPILER_VERSION_INTERNAL_STR no_ids = None"
  by (simp_all add: no_ids_def)

text \<open>Only the two branches of Fujitsu define a version as a text.\<close>

lemma no_version_text:
  "COMPILER_VERSION (id_Intel m no_ids) = None" "COMPILER_VERSION (id_IntelLLVM m no_ids) = None"
  "COMPILER_VERSION (id_PathScale m no_ids) = None" "COMPILER_VERSION (id_Embarcadero m no_ids) = None"
  "COMPILER_VERSION (id_Borland m no_ids) = None" "COMPILER_VERSION (id_Watcom m no_ids) = None"
  "COMPILER_VERSION (id_OpenWatcom m no_ids) = None" "COMPILER_VERSION (id_SunPro m no_ids) = None"
  "COMPILER_VERSION (id_HP m no_ids) = None" "COMPILER_VERSION (id_Compaq m no_ids) = None"
  "COMPILER_VERSION (id_zOS m no_ids) = None" "COMPILER_VERSION (id_XLClang m no_ids) = None"
  "COMPILER_VERSION (id_XL m no_ids) = None" "COMPILER_VERSION (id_VisualAge m no_ids) = None"
  "COMPILER_VERSION (id_NVHPC m no_ids) = None" "COMPILER_VERSION (id_PGI m no_ids) = None"
  "COMPILER_VERSION (id_Cray m no_ids) = None" "COMPILER_VERSION (id_TI m no_ids) = None"
  "COMPILER_VERSION (id_GHS m no_ids) = None" "COMPILER_VERSION (id_TinyCC m no_ids) = None"
  "COMPILER_VERSION (id_Bruce m no_ids) = None" "COMPILER_VERSION (id_SCO m no_ids) = None"
  "COMPILER_VERSION (id_ARMCC m no_ids) = None" "COMPILER_VERSION (id_AppleClang m no_ids) = None"
  "COMPILER_VERSION (id_ARMClang m no_ids) = None" "COMPILER_VERSION (id_Clang m no_ids) = None"
  "COMPILER_VERSION (id_GNU m no_ids) = None" "COMPILER_VERSION (id_MSVC m no_ids) = None"
  "COMPILER_VERSION (id_ADSP m no_ids) = None" "COMPILER_VERSION (id_IAR m no_ids) = None"
  "COMPILER_VERSION (id_SDCC m no_ids) = None" "COMPILER_VERSION (id_HP_native m no_ids) = None"
  "COMPILER_VERSION (id_unknown m no_ids) = None"
  by (simp_all add: branch_defs if_distribR if_distrib [of COMPILER_VERSION])

lemma no_internal_text:
  "COMPILER_VERSION_INTERNAL_STR (id_Intel m no_ids) = None"
  "COMPILER_VERSION_INTERNAL_STR (id_IntelLLVM m no_ids) = None"
  "COMPILER_VERSION_INTERNAL_STR (id_PathScale m no_ids) = None"
  "COMPILER_VERSION_INTERNAL_STR (id_Embarcadero m no_ids) = None"
  "COMPILER_VERSION_INTERNAL_STR (id_Borland m no_ids) = None"
  "COMPILER_VERSION_INTERNAL_STR (id_Watcom m no_ids) = None"
  "COMPILER_VERSION_INTERNAL_STR (id_OpenWatcom m no_ids) = None"
  "COMPILER_VERSION_INTERNAL_STR (id_SunPro m no_ids) = None"
  "COMPILER_VERSION_INTERNAL_STR (id_HP m no_ids) = None"
  "COMPILER_VERSION_INTERNAL_STR (id_Compaq m no_ids) = None"
  "COMPILER_VERSION_INTERNAL_STR (id_zOS m no_ids) = None"
  "COMPILER_VERSION_INTERNAL_STR (id_XLClang m no_ids) = None"
  "COMPILER_VERSION_INTERNAL_STR (id_XL m no_ids) = None"
  "COMPILER_VERSION_INTERNAL_STR (id_VisualAge m no_ids) = None"
  "COMPILER_VERSION_INTERNAL_STR (id_NVHPC m no_ids) = None"
  "COMPILER_VERSION_INTERNAL_STR (id_PGI m no_ids) = None"
  "COMPILER_VERSION_INTERNAL_STR (id_Cray m no_ids) = None"
  "COMPILER_VERSION_INTERNAL_STR (id_TI m no_ids) = None"
  "COMPILER_VERSION_INTERNAL_STR (id_GHS m no_ids) = None"
  "COMPILER_VERSION_INTERNAL_STR (id_TinyCC m no_ids) = None"
  "COMPILER_VERSION_INTERNAL_STR (id_Bruce m no_ids) = None"
  "COMPILER_VERSION_INTERNAL_STR (id_SCO m no_ids) = None"
  "COMPILER_VERSION_INTERNAL_STR (id_ARMCC m no_ids) = None"
  "COMPILER_VERSION_INTERNAL_STR (id_AppleClang m no_ids) = None"
  "COMPILER_VERSION_INTERNAL_STR (id_ARMClang m no_ids) = None"
  "COMPILER_VERSION_INTERNAL_STR (id_Clang m no_ids) = None"
  "COMPILER_VERSION_INTERNAL_STR (id_GNU m no_ids) = None"
  "COMPILER_VERSION_INTERNAL_STR (id_MSVC m no_ids) = None"
  "COMPILER_VERSION_INTERNAL_STR (id_ADSP m no_ids) = None"
  "COMPILER_VERSION_INTERNAL_STR (id_IAR m no_ids) = None"
  "COMPILER_VERSION_INTERNAL_STR (id_SDCC m no_ids) = None"
  "COMPILER_VERSION_INTERNAL_STR (id_HP_native m no_ids) = None"
  "COMPILER_VERSION_INTERNAL_STR (id_unknown m no_ids) = None"
  by (simp_all add: branch_defs if_distribR if_distrib [of COMPILER_VERSION_INTERNAL_STR])

lemma no_cxx_text:
  "COMPILER_VERSION (cxx_Comeau m no_ids) = None" "COMPILER_VERSION_INTERNAL_STR (cxx_Comeau m no_ids) = None"
  "COMPILER_VERSION (cxx_SunPro m no_ids) = None" "COMPILER_VERSION_INTERNAL_STR (cxx_SunPro m no_ids) = None"
  "COMPILER_VERSION (cxx_HP m no_ids) = None" "COMPILER_VERSION_INTERNAL_STR (cxx_HP m no_ids) = None"
  "COMPILER_VERSION (cxx_Compaq m no_ids) = None" "COMPILER_VERSION_INTERNAL_STR (cxx_Compaq m no_ids) = None"
  "COMPILER_VERSION (cxx_zOS m no_ids) = None" "COMPILER_VERSION_INTERNAL_STR (cxx_zOS m no_ids) = None"
  "COMPILER_VERSION (cxx_XL m no_ids) = None" "COMPILER_VERSION_INTERNAL_STR (cxx_XL m no_ids) = None"
  "COMPILER_VERSION (cxx_VisualAge m no_ids) = None" "COMPILER_VERSION_INTERNAL_STR (cxx_VisualAge m no_ids) = None"
  "COMPILER_VERSION (cxx_GNU m no_ids) = None" "COMPILER_VERSION_INTERNAL_STR (cxx_GNU m no_ids) = None"
  by (simp_all add: cxx_branch_defs cxx_Comeau_def if_distribR if_distrib [of COMPILER_VERSION]
      if_distrib [of COMPILER_VERSION_INTERNAL_STR])

definition textless :: "ids \<Rightarrow> bool" where
  "textless d \<longleftrightarrow> COMPILER_ID d = ''Fujitsu'' \<or> COMPILER_ID d = ''FujitsuClang'' \<or>
     COMPILER_VERSION d = None \<and> COMPILER_VERSION_INTERNAL_STR d = None"

lemma textless_if: "textless a \<Longrightarrow> textless b \<Longrightarrow> textless (if c then a else b)"
  by simp

lemma identify_textless: "textless (identify m)"
  unfolding identify_def
  by (intro textless_if) (simp_all add: textless_def no_version_text no_internal_text)

text \<open>In the older release no branch gives a version as a text.\<close>

definition numbered :: "ids \<Rightarrow> bool" where
  "numbered d \<longleftrightarrow> COMPILER_VERSION d = None \<and> COMPILER_VERSION_INTERNAL_STR d = None"

lemma numbered_if: "numbered a \<Longrightarrow> numbered b \<Longrightarrow> numbered (if c then a else b)"
  by simp

lemma fujitsu_textless: "textless (id_Fujitsu m no_ids)" "textless (id_FujitsuClang m no_ids)"
  by (simp_all add: textless_def)

lemma numbered_textless: "numbered d \<Longrightarrow> textless d"
  by (simp add: numbered_def textless_def)

lemma identify_cxx_textless: "textless (identify_cxx m)"
  unfolding identify_cxx_defs
  by (intro textless_if) (simp_all only: numbered_textless numbered_def no_version_text no_internal_text
      no_cxx_text simp_thms fujitsu_textless)

lemma old_no_text:
  "COMPILER_VERSION (old_Intel m no_ids) = None" "COMPILER_VERSION (old_Fujitsu m no_ids) = None"
  "COMPILER_VERSION (old_IAR m no_ids) = None"
  by (simp_all add: old_Intel_def old_Fujitsu_def old_IAR_def if_distribR if_distrib [of COMPILER_VERSION])

lemma old_no_internal_text:
  "COMPILER_VERSION_INTERNAL_STR (old_Intel m no_ids) = None"
  "COMPILER_VERSION_INTERNAL_STR (old_Fujitsu m no_ids) = None"
  "COMPILER_VERSION_INTERNAL_STR (old_IAR m no_ids) = None"
  by (simp_all add: old_Intel_def old_Fujitsu_def old_IAR_def if_distribR if_distrib [of COMPILER_VERSION_INTERNAL_STR])

lemmas no_text = no_version_text no_internal_text no_cxx_text old_no_text old_no_internal_text

lemma identify_318_numbered: "numbered (identify_318 m)" "numbered (identify_cxx_318 m)"
  unfolding identify_318_defs identify_cxx_318_defs
  by (intro numbered_if; simp only: numbered_def no_text simp_thms)+

lemma numbered_strings:
  assumes "numbered d"
  shows "info_version_318 d = info_version d" and "info_version_internal_318 d = info_version_internal d"
  using assms by (simp_all add: numbered_def info_version_318_def info_version_def info_version_internal_318_def
      info_version_internal_def split: option.split)

subsection \<open>The four probes agree\<close>

text \<open>What a probe says about compiler and host.\<close>

definition identity :: "probe \<Rightarrow> string option list" where
  "identity u = [Some (p_compiler u), p_version u, p_version_internal u, p_simulate u, p_simulate_version u,
     p_qnxnto u, Some (p_platform u), Some (p_arch u)]"

definition identity_318 :: "old_probe \<Rightarrow> string option list" where
  "identity_318 u = [Some (o_compiler u), o_version u, o_version_internal u, o_simulate u, o_simulate_version u,
     o_qnxnto u, Some (o_platform u), Some (o_arch u)]"

lemma declared_identity:
  assumes "declared m d p a v = Some u"
  shows "identity u = [Some (info_compiler d), Option.bind (info_version d) id, Option.bind (info_version_internal d) id,
    info_simulate d, Option.bind (info_simulate_version d) id, qnxnto m, Some (info_platform p), Some (info_arch a)]"
  using assms by (auto simp: declared_def identity_def split: if_splits)

lemma declared_identity_318:
  assumes "declared_318 m d p a v = Some u" and "numbered d"
  shows "identity_318 u = [Some (info_compiler d), Option.bind (info_version d) id, Option.bind (info_version_internal d) id,
    info_simulate d, Option.bind (info_simulate_version d) id, qnxnto m, Some (info_platform p), Some (info_arch a)]"
  using assms by (auto simp: declared_318_def identity_318_def numbered_strings split: if_splits)

text \<open>Where they do not: two compilers on which the releases or the languages differ.\<close>

lemma probes_differ:
  "identify_318 [''__INTEL_COMPILER'' \<mapsto> Number ''2021'' 2021] \<noteq> identify [''__INTEL_COMPILER'' \<mapsto> Number ''2021'' 2021]"
  "identify_cxx [''__GNUG__'' \<mapsto> Number ''11'' 11] \<noteq> identify [''__GNUG__'' \<mapsto> Number ''11'' 11]"
proof -
  show "identify_318 [''__INTEL_COMPILER'' \<mapsto> Number ''2021'' 2021] \<noteq> identify [''__INTEL_COMPILER'' \<mapsto> Number ''2021'' 2021]"
    using intel_2021_misread by force
  have "COMPILER_ID (identify_cxx [''__GNUG__'' \<mapsto> Number ''11'' 11]) = ''GNU''"
    "COMPILER_ID (identify [''__GNUG__'' \<mapsto> Number ''11'' 11]) = []" by code_simp+
  then show "identify_cxx [''__GNUG__'' \<mapsto> Number ''11'' 11] \<noteq> identify [''__GNUG__'' \<mapsto> Number ''11'' 11]" by force
qed

text \<open>
  C36. A compiler that is asked in C and, with \<open>__cplusplus\<close> defined in addition, in C++, with the
  probes of two releases of CMake. The two languages report the same compiler, versions, simulated
  compiler, platform and architecture, Cray wrapper and default of the extensions, if the compiler
  defines none of the 13 macros that only one of the files looks at (\<open>language_macros\<close>) and \<open>__GNUG__\<close>
  only together with \<open>__GNUC__\<close>. The two releases report the same compiler, versions, simulated
  compiler, platform and architecture, in either language, if it defines none of the macros that only
  one release looks at (\<open>release_macros\<close>, those of Fujitsu and NVIDIA among them, and \<open>host_macros\<close>) and
  its \<open>__INTEL_COMPILER\<close>, which both look at, is below 2021. Without these conditions it is false: on
  \<open>__INTEL_COMPILER\<close> 2021 the releases differ, on \<open>__GNUG__\<close> alone the languages.
\<close>

theorem probes_agree:
  assumes "compile_c m = Some u" and "compile_cxx (m(''__cplusplus'' \<mapsto> x)) = Some w"
    and "compile_c_318 m = Some v" and "compile_cxx_318 (m(''__cplusplus'' \<mapsto> x)) = Some y"
  shows "((\<forall>z \<in> set language_macros. \<not> is_defined m z) \<and>
        (is_defined m ''__GNUG__'' \<longrightarrow> is_defined m ''__GNUC__'') \<longrightarrow>
      identity w = identity u \<and> p_cray w = p_cray u \<and> p_extensions w = p_extensions u) \<and>
    ((\<forall>z \<in> set (release_macros @ host_macros). \<not> is_defined m z) \<and> num m ''__INTEL_COMPILER'' < 2021 \<longrightarrow>
      identity_318 v = identity u \<and> identity_318 y = identity w) \<and>
    identify_318 [''__INTEL_COMPILER'' \<mapsto> Number ''2021'' 2021] \<noteq> identify [''__INTEL_COMPILER'' \<mapsto> Number ''2021'' 2021] \<and>
    identify_cxx [''__GNUG__'' \<mapsto> Number ''11'' 11] \<noteq> identify [''__GNUG__'' \<mapsto> Number ''11'' 11]"
proof -
  let ?n = "m(''__cplusplus'' \<mapsto> x)"
  note c = compile_cD(2) [OF assms(1)] and w = compile_cxxD [OF assms(2)]
    and v = compile_c_318D [OF assms(3)] and y = compile_cxx_318D [OF assms(4)]
  have unread: "z \<noteq> ''__cplusplus''" if "z \<in> set (language_macros @ release_macros @ host_macros)" for z
    using that by (auto simp: language_macros_def release_macros_def host_macros_def)
  have "identity w = identity u \<and> p_cray w = p_cray u \<and> p_extensions w = p_extensions u"
    if l: "\<forall>z \<in> set language_macros. \<not> is_defined m z" "is_defined m ''__GNUG__'' \<longrightarrow> is_defined m ''__GNUC__''"
  proof -
    have "identify_cxx ?n = identify m"
      using languages_agree [of ?n] l unread by (simp add: identify_unread)
    then show ?thesis
      unfolding declared_identity [OF c] declared_identity [OF w] declared_fields(4,11) [OF c] declared_fields(4,11) [OF w]
      by (simp add: host_cxx host_unread info_unread)
  qed
  moreover have "identity_318 v = identity u \<and> identity_318 y = identity w"
    if "\<forall>z \<in> set (release_macros @ host_macros). \<not> is_defined m z" "num m ''__INTEL_COMPILER'' < 2021"
  proof -
    have r: "\<forall>z \<in> set release_macros. \<not> is_defined m z" "\<forall>z \<in> set host_macros. \<not> is_defined m z"
      "\<forall>z \<in> set release_macros. \<not> is_defined ?n z" "\<forall>z \<in> set host_macros. \<not> is_defined ?n z"
      "num ?n ''__INTEL_COMPILER'' < 2021"
      using that unread by simp_all
    note a = releases_agree(1) [OF r(1) that(2)] releases_agree(2) [OF r(3,5)] hosts_agree [OF r(2)] hosts_agree [OF r(4)]
    show ?thesis
      unfolding declared_identity_318 [OF v identify_318_numbered(1)] declared_identity_318 [OF y identify_318_numbered(2)]
        declared_identity [OF c] declared_identity [OF w]
      by (simp add: a host_cxx host_cxx_318)
  qed
  ultimately show ?thesis using probes_differ by blast
qed

subsection \<open>What main refers to\<close>

lemma version_declared:
  assumes "declared m d p a v = Some u"
  shows "p_version u \<noteq> None \<longleftrightarrow> COMPILER_VERSION d \<noteq> None \<or> COMPILER_VERSION_MAJOR d \<noteq> None"
    and "p_version_internal u \<noteq> None \<longleftrightarrow>
      COMPILER_VERSION_INTERNAL d \<noteq> None \<or> COMPILER_VERSION_INTERNAL_STR d \<noteq> None"
    and "p_simulate u \<noteq> None \<longleftrightarrow> SIMULATE_ID d \<noteq> None"
    and "p_simulate_version u \<noteq> None \<longleftrightarrow> SIMULATE_VERSION_MAJOR d \<noteq> None"
    and "p_cray u \<noteq> None \<longleftrightarrow> is_defined m ''__CRAYXT_COMPUTE_LINUX_TARGET''"
proof -
  note f = declared_fields [OF assms]
  have mo: "(map_option Some x = y) \<Longrightarrow> (x \<noteq> None \<longleftrightarrow> y \<noteq> None)" for x :: "string option" and y by auto
  show "p_version u \<noteq> None \<longleftrightarrow> COMPILER_VERSION d \<noteq> None \<or> COMPILER_VERSION_MAJOR d \<noteq> None"
    unfolding mo [OF f(5)] by (simp add: info_version_def split: option.split)
  show "p_version_internal u \<noteq> None \<longleftrightarrow>
      COMPILER_VERSION_INTERNAL d \<noteq> None \<or> COMPILER_VERSION_INTERNAL_STR d \<noteq> None"
    unfolding mo [OF f(6)] by (simp add: info_version_internal_def split: option.split)
  show "p_simulate u \<noteq> None \<longleftrightarrow> SIMULATE_ID d \<noteq> None"
    unfolding f(2) by (simp add: info_simulate_def)
  show "p_simulate_version u \<noteq> None \<longleftrightarrow> SIMULATE_VERSION_MAJOR d \<noteq> None"
    unfolding mo [OF f(7)] by (simp add: info_simulate_version_def)
  show "p_cray u \<noteq> None \<longleftrightarrow> is_defined m ''__CRAYXT_COMPUTE_LINUX_TARGET''"
    unfolding f(4) by (simp add: info_cray_def)
qed

text \<open>All strings that the newer files declare, the one for QNX included.\<close>

definition declared_strings :: "probe \<Rightarrow> string set" where
  "declared_strings u =
     {p_compiler u, p_platform u, p_arch u, p_standard u, p_extensions u} \<union> set_option (p_version u) \<union>
     set_option (p_version_internal u) \<union> set_option (p_simulate u) \<union> set_option (p_simulate_version u) \<union>
     set_option (p_cray u) \<union> set_option (p_qnxnto u)"

lemma option_in: "x \<noteq> None \<longleftrightarrow> b \<Longrightarrow> set_option x = set (opt b x)"
  by (cases x) (auto simp: opt_def)

text \<open>The first letter of the key, after \<open>INFO:\<close>.\<close>

lemma string_keys:
  "info_version d = Some (Some s) \<Longrightarrow> s ! 5 = CHR ''c''"
  "info_version_internal d = Some (Some s) \<Longrightarrow> s ! 5 = CHR ''c''"
  "info_simulate_version d = Some (Some s) \<Longrightarrow> s ! 5 = CHR ''s''"
  "info_simulate d = Some s \<Longrightarrow> s ! 5 = CHR ''s''"
  "info_cray m = Some s \<Longrightarrow> s ! 5 = CHR ''c''"
  by (auto simp: info_version_def info_version_internal_def info_simulate_version_def info_simulate_def
      info_cray_def components_def split: option.splits if_splits)

lemma required_keys:
  assumes "declared m d p a v = Some u"
  shows "\<And>s. s \<in> set (required_cxx m d u) \<Longrightarrow> s ! 5 \<in> {CHR ''c'', CHR ''p'', CHR ''s'', CHR ''e''}"
    and "set (required_c m d u) = insert (p_arch u) (set (required_cxx m d u))"
    and "p_arch u ! 5 = CHR ''a''" and "\<And>s. p_qnxnto u = Some s \<Longrightarrow> s ! 5 = CHR ''q''"
proof -
  note f = declared_fields [OF assms]
  show "p_arch u ! 5 = CHR ''a''" by (simp add: f(9) info_arch_def)
  show "s ! 5 = CHR ''q''" if "p_qnxnto u = Some s" for s
    using that by (auto simp: f(3) qnxnto_def split: if_splits)
  show "set (required_c m d u) = insert (p_arch u) (set (required_cxx m d u))"
    by (auto simp: required_c_def required_cxx_def)
  fix s
  assume s: "s \<in> set (required_cxx m d u)"
  have v: "s ! 5 = CHR ''c''" if "p_version u = Some s" for s
    using f(5) that by (intro string_keys(1) [of d]) simp
  have i: "s ! 5 = CHR ''c''" if "p_version_internal u = Some s" for s
    using f(6) that by (intro string_keys(2) [of d]) simp
  have sv: "s ! 5 = CHR ''s''" if "p_simulate_version u = Some s" for s
    using f(7) that by (intro string_keys(3) [of d]) simp
  have si: "s ! 5 = CHR ''s''" if "p_simulate u = Some s" for s
    using f(2) that by (intro string_keys(4) [of d]) simp
  have cr: "s ! 5 = CHR ''c''" if "p_cray u = Some s" for s
    using f(4) that by (intro string_keys(5) [of m]) simp
  show "s ! 5 \<in> {CHR ''c'', CHR ''p'', CHR ''s'', CHR ''e''}"
    using s v i sv si cr f(1,8,10,11)
    by (auto simp: required_cxx_def set_opt info_compiler_def info_platform_def
        info_language_standard_default_def info_language_extensions_default_def)
qed

text \<open>A compiler other than Fujitsu's: all strings but that of QNX are read in C, all but two in C++.\<close>

lemma unread_strings:
  assumes "declared m d p a v = Some u" and "COMPILER_VERSION d = None \<and> COMPILER_VERSION_INTERNAL_STR d = None"
  shows "declared_strings u - set (required_c m d u) = set_option (p_qnxnto u)"
    and "declared_strings u - set (required_cxx m d u) = insert (p_arch u) (set_option (p_qnxnto u))"
proof -
  note k = required_keys [OF assms(1)]
  have "declared_strings u = set (required_c m d u) \<union> set_option (p_qnxnto u)"
    using version_declared [OF assms(1)] assms(2) by (auto simp: declared_strings_def required_c_def option_in)
  then have all: "declared_strings u = insert (p_arch u) (set (required_cxx m d u)) \<union> set_option (p_qnxnto u)"
    unfolding k(2) .
  have a: "p_arch u \<notin> set (required_cxx m d u)" using k(1) [of "p_arch u"] k(3) by auto
  have q: "s \<notin> insert (p_arch u) (set (required_cxx m d u))" if "s \<in> set_option (p_qnxnto u)" for s
    using k(1) [of s] k(3) k(4) [of s] that by auto
  from all q show "declared_strings u - set (required_c m d u) = set_option (p_qnxnto u)" unfolding k(2) by blast
  from all q a show "declared_strings u - set (required_cxx m d u) = insert (p_arch u) (set_option (p_qnxnto u))" by blast
qed

text \<open>The same for the files of CMake 3.18.4.\<close>

lemma fields_318:
  assumes "declared_318 m d p a v = Some u"
  shows "o_compiler u = info_compiler d" and "o_platform u = info_platform p" and "o_arch u = info_arch a"
    and "o_dialect u = info_language_dialect_default v" and "o_cray u = info_cray_318 m"
    and "o_simulate u = info_simulate d" and "o_version u = Option.bind (info_version_318 d) id"
    and "o_version_internal u = Option.bind (info_version_internal_318 d) id"
    and "o_simulate_version u = Option.bind (info_simulate_version d) id"
    and "info_version_318 d \<noteq> Some None" and "info_version_internal_318 d \<noteq> Some None"
    and "info_simulate_version d \<noteq> Some None"
  using assms by (auto simp: declared_318_def split: if_splits)

definition declared_strings_318 :: "old_probe \<Rightarrow> string set" where
  "declared_strings_318 u =
     {o_compiler u, o_platform u, o_arch u, o_dialect u} \<union> set_option (o_version u) \<union>
     set_option (o_version_internal u) \<union> set_option (o_simulate u) \<union> set_option (o_simulate_version u) \<union>
     set_option (o_cray u) \<union> set_option (o_qnxnto u)"

lemma bind_declared: "x \<noteq> Some None \<Longrightarrow> Option.bind x id \<noteq> None \<longleftrightarrow> x \<noteq> None" for x :: "'a option option"
  by (cases x) auto

lemma declared_required_318:
  assumes "declared_318 m d p a v = Some u"
  shows "declared_strings_318 u = set (required_c_318 m d u) \<union> set_option (o_qnxnto u)"
proof -
  note f = fields_318 [OF assms]
  have "o_version u \<noteq> None \<longleftrightarrow> COMPILER_VERSION_MAJOR d \<noteq> None"
    "o_version_internal u \<noteq> None \<longleftrightarrow> COMPILER_VERSION_INTERNAL d \<noteq> None"
    "o_simulate u \<noteq> None \<longleftrightarrow> SIMULATE_ID d \<noteq> None"
    "o_simulate_version u \<noteq> None \<longleftrightarrow> SIMULATE_VERSION_MAJOR d \<noteq> None"
    "o_cray u \<noteq> None \<longleftrightarrow> is_defined m ''__CRAYXE'' \<or> is_defined m ''__CRAYXC''"
    unfolding f(7-9) bind_declared [OF f(10)] bind_declared [OF f(11)] bind_declared [OF f(12)]
    by (simp_all add: f(5,6) info_version_318_def info_version_internal_318_def info_simulate_version_def
        info_simulate_def info_cray_318_def)
  then show ?thesis by (auto simp: declared_strings_318_def required_c_318_def option_in)
qed

lemma string_keys_318:
  "info_version_318 d = Some (Some s) \<Longrightarrow> s ! 5 = CHR ''c''"
  "info_version_internal_318 d = Some (Some s) \<Longrightarrow> s ! 5 = CHR ''c''"
  "info_cray_318 m = Some s \<Longrightarrow> s ! 5 = CHR ''c''"
  by (auto simp: info_version_318_def info_version_internal_318_def info_cray_318_def components_def
      split: option.splits if_splits)

lemma unread_strings_318:
  assumes "declared_318 m d p a v = Some u"
  shows "declared_strings_318 u - set (required_c_318 m d u) = set_option (o_qnxnto u)"
    and "declared_strings_318 u - set (required_cxx_318 m d u) = insert (o_arch u) (set_option (o_qnxnto u))"
proof -
  note f = fields_318 [OF assms]
  have a: "o_arch u ! 5 = CHR ''a''" by (simp add: f(3) info_arch_def)
  have k: "s ! 5 \<in> {CHR ''c'', CHR ''p'', CHR ''s'', CHR ''d''}" if "s \<in> set (required_cxx_318 m d u)" for s
    using that string_keys_318(1,2) [of d s] string_keys_318(3) [of m s] string_keys(3,4) [of d s]
    by (auto simp: required_cxx_318_def set_opt f join_option info_compiler_def info_platform_def
        info_language_dialect_default_def)
  have q: "s ! 5 = CHR ''q''" if "o_qnxnto u = Some s" for s
    using that assms by (auto simp: declared_318_def qnxnto_def split: if_splits)
  have c: "set (required_c_318 m d u) = insert (o_arch u) (set (required_cxx_318 m d u))"
    by (auto simp: required_c_318_def required_cxx_318_def)
  have n: "o_arch u \<notin> set (required_cxx_318 m d u)" using k [of "o_arch u"] a by auto
  have nq: "s \<notin> insert (o_arch u) (set (required_cxx_318 m d u))" if "s \<in> set_option (o_qnxnto u)" for s
    using k [of s] a q [of s] that by auto
  note all = declared_required_318 [OF assms, unfolded c]
  from all nq show "declared_strings_318 u - set (required_c_318 m d u) = set_option (o_qnxnto u)"
    unfolding c by blast
  from all nq n show "declared_strings_318 u - set (required_cxx_318 m d u) = insert (o_arch u) (set_option (o_qnxnto u))"
    by blast
qed

text \<open>
  C38. \<open>main\<close> refers to the strings so that the linker keeps them, but not to all that the file declares.
  In C it leaves out exactly the string \<open>INFO:qnxnto[]\<close>, which is declared on QNX Neutrino; in C++
  exactly that string and, whatever the compiler, the one of the architecture. This holds for both
  releases and, in the newer one, for every compiler but the two of Fujitsu, which give a version as a
  text that \<open>main\<close> does not read either.
\<close>

theorem main_refers_to_strings:
  assumes "compile_c m = Some u" and "p_compiler u \<notin> {''INFO:compiler[Fujitsu]'', ''INFO:compiler[FujitsuClang]''}"
    and "compile_cxx n = Some w" and "p_compiler w \<notin> {''INFO:compiler[Fujitsu]'', ''INFO:compiler[FujitsuClang]''}"
    and "compile_c_318 k = Some v" and "compile_cxx_318 j = Some x"
  shows "declared_strings u - set (required_c m (identify m) u) = set_option (qnxnto m) \<and>
    declared_strings w - set (required_cxx n (identify_cxx n) w) = insert (p_arch w) (set_option (qnxnto n)) \<and>
    declared_strings_318 v - set (required_c_318 k (identify_318 k) v) = set_option (qnxnto k) \<and>
    declared_strings_318 x - set (required_cxx_318 j (identify_cxx_318 j) x) = insert (o_arch x) (set_option (qnxnto j))"
proof (intro conjI)
  note d = compile_cD(2) [OF assms(1)] and e = compile_cxxD [OF assms(3)]
  note d8 = compile_c_318D [OF assms(5)] and e8 = compile_cxx_318D [OF assms(6)]
  have q8: "o_qnxnto y = qnxnto l" if "declared_318 l c p a t = Some y" for l c p a t y
    using that by (auto simp: declared_318_def split: if_splits)
  have "COMPILER_VERSION (identify m) = None \<and> COMPILER_VERSION_INTERNAL_STR (identify m) = None"
    using identify_textless [of m] compiler_text [OF d, of "''Fujitsu''"]
      compiler_text [OF d, of "''FujitsuClang''"] assms(2) by (simp add: textless_def)
  from unread_strings(1) [OF d this]
  show "declared_strings u - set (required_c m (identify m) u) = set_option (qnxnto m)"
    by (simp add: declared_fields(3) [OF d])
  have "COMPILER_VERSION (identify_cxx n) = None \<and> COMPILER_VERSION_INTERNAL_STR (identify_cxx n) = None"
    using identify_cxx_textless [of n] compiler_text [OF e, of "''Fujitsu''"]
      compiler_text [OF e, of "''FujitsuClang''"] assms(4) by (simp add: textless_def)
  from unread_strings(2) [OF e this]
  show "declared_strings w - set (required_cxx n (identify_cxx n) w) = insert (p_arch w) (set_option (qnxnto n))"
    by (simp add: declared_fields(3) [OF e])
  show "declared_strings_318 v - set (required_c_318 k (identify_318 k) v) = set_option (qnxnto k)"
    using unread_strings_318(1) [OF d8] by (simp add: q8 [OF d8])
  show "declared_strings_318 x - set (required_cxx_318 j (identify_cxx_318 j) x) = insert (o_arch x) (set_option (qnxnto j))"
    using unread_strings_318(2) [OF e8] by (simp add: q8 [OF e8])
qed

subsection \<open>GCC\<close>

text \<open>What GCC 11.4.0 predefines on x86-64 Linux, as far as the probes look at it.\<close>

definition gcc_11 :: macros where
  "gcc_11 = map_of
     [(''__GNUC__'', Number ''11'' 11), (''__GNUC_MINOR__'', Number ''4'' 4),
      (''__GNUC_PATCHLEVEL__'', Number ''0'' 0), (''__linux__'', Number ''1'' 1),
      (''__x86_64__'', Number ''1'' 1), (''__STDC__'', Number ''1'' 1),
      (''__STDC_VERSION__'', Number ''201710L'' 201710)]"

definition gxx_11 :: macros where
  "gxx_11 = gcc_11 (''__STDC_VERSION__'' := None, ''__GNUG__'' \<mapsto> Number ''11'' 11,
     ''__cplusplus'' \<mapsto> Number ''201703L'' 201703)"

lemma gcc_compiles: "\<exists>u. compile_c gcc_11 = Some u \<and> p_compiler u = ''INFO:compiler[GNU]''"
proof -
  have "map_option p_compiler (compile_c gcc_11) = Some ''INFO:compiler[GNU]''" by code_simp
  then show ?thesis by (auto simp: map_option_case split: option.splits)
qed

lemma gxx_compiles: "\<exists>w. compile_cxx gxx_11 = Some w \<and> p_compiler w = ''INFO:compiler[GNU]''"
proof -
  have "map_option p_compiler (compile_cxx gxx_11) = Some ''INFO:compiler[GNU]''" by code_simp
  then show ?thesis by (auto simp: map_option_case split: option.splits)
qed

lemma old_compile: "\<exists>v. compile_c_318 gcc_11 = Some v" "\<exists>x. compile_cxx_318 gxx_11 = Some x"
proof -
  have "map_option o_compiler (compile_c_318 gcc_11) = Some ''INFO:compiler[GNU]''"
    "map_option o_compiler (compile_cxx_318 gxx_11) = Some ''INFO:compiler[GNU]''" by code_simp+
  then show "\<exists>v. compile_c_318 gcc_11 = Some v" "\<exists>x. compile_cxx_318 gxx_11 = Some x"
    by (auto simp: map_option_case split: option.splits)
qed

theorem gnu_reported_iff_witness:
  "\<exists>u. compile_c gcc_11 = Some u \<and> is_defined gcc_11 ''__GNUC__'' \<and>
     (\<forall>x \<in> set vendor_macros. \<not> is_defined gcc_11 x)"
proof -
  obtain u where u: "compile_c gcc_11 = Some u" "p_compiler u = ''INFO:compiler[GNU]''"
    using gcc_compiles by blast
  from gnu_reported_iff [OF u(1)] u show ?thesis by blast
qed

theorem gnu_version_reported_witness:
  "\<exists>u s. compile_c gcc_11 = Some u \<and> p_version u = Some s \<and> version_numbers s = [11, 4, 0]"
proof -
  obtain u where u: "compile_c gcc_11 = Some u" "p_compiler u = ''INFO:compiler[GNU]''"
    using gcc_compiles by blast
  have "\<exists>s. p_version u = Some s \<and> version_numbers s = [11, 4, 0]"
    by (rule gnu_version_reported [OF u]) (simp_all add: gcc_11_def)
  with u(1) show ?thesis by blast
qed

theorem probes_agree_witness:
  "\<exists>u w v y. compile_c gcc_11 = Some u \<and> compile_cxx (gcc_11(''__cplusplus'' \<mapsto> Number ''201703L'' 201703)) = Some w \<and>
     compile_c_318 gcc_11 = Some v \<and> compile_cxx_318 (gcc_11(''__cplusplus'' \<mapsto> Number ''201703L'' 201703)) = Some y \<and>
     identity w = identity u \<and> identity_318 v = identity u \<and> identity_318 y = identity w"
proof -
  let ?n = "gcc_11(''__cplusplus'' \<mapsto> Number ''201703L'' 201703)"
  obtain u v where c: "compile_c gcc_11 = Some u" "compile_c_318 gcc_11 = Some v"
    using gcc_compiles old_compile by blast
  have "map_option p_compiler (compile_cxx ?n) = Some ''INFO:compiler[GNU]''"
    "map_option o_compiler (compile_cxx_318 ?n) = Some ''INFO:compiler[GNU]''" by code_simp+
  then obtain w y where x: "compile_cxx ?n = Some w" "compile_cxx_318 ?n = Some y"
    by (auto simp: map_option_case split: option.splits)
  have "\<forall>x \<in> set language_macros. \<not> is_defined gcc_11 x" "\<forall>x \<in> set (release_macros @ host_macros). \<not> is_defined gcc_11 x"
    "is_defined gcc_11 ''__GNUG__'' \<longrightarrow> is_defined gcc_11 ''__GNUC__''" "num gcc_11 ''__INTEL_COMPILER'' < 2021"
    by (simp_all add: host_macros_def language_macros_def release_macros_def gcc_11_def is_defined_def num_def)
  with probes_agree [OF c(1) x(1) c(2) x(2)] c x show ?thesis by blast
qed

theorem main_reads_in_bounds_witness:
  "\<exists>u v r. compile_c gcc_11 = Some u \<and> compile_c_318 gcc_11 = Some v \<and> main_c gcc_11 u 1 = Returns r \<and>
     main_c gcc_11 u 12 = Out_of_bounds \<and> main_c_318 gcc_11 v 12 = Out_of_bounds"
proof -
  obtain u w where u: "compile_c gcc_11 = Some u" "compile_cxx gxx_11 = Some w"
    using gcc_compiles gxx_compiles by blast
  obtain v x where v: "compile_c_318 gcc_11 = Some v" "compile_cxx_318 gxx_11 = Some x"
    using old_compile by blast
  have "\<not> is_defined gcc_11 ''__18CXX''" by (simp add: is_defined_def gcc_11_def)
  note b = main_reads_in_bounds [OF u(1) v(1) this u(2) v(2)]
  have "architecture_id gcc_11 = []" "architecture_id_318 gcc_11 = []" by code_simp+
  with b have "main_c gcc_11 u 12 = Out_of_bounds \<and> main_c_318 gcc_11 v 12 = Out_of_bounds" by blast
  moreover have "\<exists>r. main_c gcc_11 u 1 = Returns r" using bspec [OF conjunct1 [OF b], of 1] by auto
  ultimately show ?thesis using u(1) v(1) by blast
qed

theorem main_refers_to_strings_witness:
  "\<exists>u w v. compile_c gcc_11 = Some u \<and> compile_cxx gxx_11 = Some w \<and> compile_c_318 gcc_11 = Some v \<and>
     declared_strings u - set (required_c gcc_11 (identify gcc_11) u) = {} \<and>
     declared_strings w - set (required_cxx gxx_11 (identify_cxx gxx_11) w) = {p_arch w} \<and>
     declared_strings_318 v - set (required_c_318 gcc_11 (identify_318 gcc_11) v) = {}"
proof -
  obtain u w where u: "compile_c gcc_11 = Some u" "p_compiler u = ''INFO:compiler[GNU]''"
    "compile_cxx gxx_11 = Some w" "p_compiler w = ''INFO:compiler[GNU]''"
    using gcc_compiles gxx_compiles by blast
  obtain v x where v: "compile_c_318 gcc_11 = Some v" "compile_cxx_318 gxx_11 = Some x"
    using old_compile by blast
  have g: "p_compiler u \<notin> {''INFO:compiler[Fujitsu]'', ''INFO:compiler[FujitsuClang]''}"
    "p_compiler w \<notin> {''INFO:compiler[Fujitsu]'', ''INFO:compiler[FujitsuClang]''}" by (simp_all add: u(2,4))
  have "qnxnto gcc_11 = None" "qnxnto gxx_11 = None" by (simp_all add: qnxnto_def is_defined_def gcc_11_def gxx_11_def)
  with main_refers_to_strings [OF u(1) g(1) u(3) g(2) v] u v show ?thesis by auto
qed

end
