(* ===== verification/Spec2Isabelle.thy ===== *)
theory Spec2Isabelle
  imports Calls Numbers Objects Waits Traces Pending StackSpace Tests RandomTests DemoJmp DemoSignals Probes
begin

text \<open>
  A verification development for the user-level thread library \<open>uthreads\<close>
  (\<open>Handle\<close>, \<open>Thread\<close>, \<open>Scheduler\<close>, \<open>uthreads\<close> under \<open>src/\<close>), and for the other programs of the
  repository: the three demos and the programs that identify the compiler for the build.

  \<^bold>\<open>The program.\<close> The client calls the API of \<open>uthreads.h\<close>. Every API function blocks the timer
  signal, calls a member function of the one \<open>Scheduler\<close> object, and unblocks the signal. The
  scheduler owns the thread table, the ready queue, the set of blocked and the map of sleeping
  threads, and counts quantums. It saves the running context with \<open>sigsetjmp\<close>, picks the front of
  the ready queue and continues it with \<open>siglongjmp\<close>. The handler of \<open>SIGVTALRM\<close> does the same when
  a quantum ends. A new thread gets a context made by hand: stack pointer and program counter are
  written into the jump buffer in the encoding of the C library.

  \<^bold>\<open>The model.\<close> A member function is an operation on the process state, with four outcomes: it
  returns a value, it leaves through \<open>siglongjmp\<close> with a saved context, the process exits, or it
  does something C++ leaves undefined (dereferences a missing entry, takes the front of an empty
  queue, uses a deleted object, overflows an \<open>int\<close>, jumps to a dead or null context). So "no fault"
  is a statement of its own, and is proved.

  \<^item> \<open>Prelude\<close>: outcomes, the sequencing of operations, their weakest preconditions, reachability.
  \<^item> \<open>CInt\<close>: the ranges of \<open>int\<close> and \<open>size_t\<close>, the conversions between them, checked addition.
  \<^item> \<open>StdMap\<close>: \<open>std::map\<close> as a sorted list; the locale \<open>ordered_map\<close> is what the scheduler relies on.
  \<^item> \<open>Platform\<close>: signal mask, disposition, timer, standard error. What the system answers is the
    parameter \<open>platform\<close>; \<open>sys_ok\<close> says no call fails, \<open>mangling_ok\<close> (theory \<open>Thread\<close>) says
    \<open>siglongjmp\<close> undoes the encoding of \<open>translate_address\<close>.
  \<^item> \<open>Handle\<close>, \<open>Thread\<close>, \<open>Scheduler\<close>, \<open>Uthreads\<close>: the four source files, one definition per
    function, with the names of the source. Thread objects live in a heap, because the table holds
    pointers and the lifetime of an object matters. A function that calls \<open>sigsetjmp\<close> is split there:
    \<open>f_after r\<close> is the rest of \<open>f\<close> when that call returned \<open>r\<close>, entered first with 0 and again with 1.
    \<open>exec\<close> is one action of the running thread, an API call or a timer signal, together with the
    jump it leads to and the returns on the resumed stack.
  \<^item> \<open>Contract\<close>: the specification, after the comments of \<open>uthreads.h\<close>: threads with a state, a count
    and the point where they go on, a queue, the blocked and the sleeping ones. \<open>ContractInv\<close> proves
    its invariant \<open>a_inv\<close> for every operation.
  \<^item> \<open>Refinement\<close>, \<open>RefineSched\<close>, \<open>RefineApi\<close>, \<open>RefineCalls\<close>, \<open>RefineLeave\<close>, \<open>RefineSwitch\<close>: every
    operation of the code implements its operation of the contract through \<open>view\<close>, on every branch.
  \<^item> \<open>Machine\<close>: the transition systems of the code and of the contract, and the simulation between
    them (locales \<open>transition_system\<close> and \<open>simulation\<close>); the end of the process.
  \<^item> \<open>Run\<close>, \<open>Fairness\<close>, \<open>Sleeping\<close>: runs of many actions: no fault within bounds, waiting times in the
    ready queue (locale \<open>fifo_scheduler\<close>), the life of a sleeper.
  \<^item> \<open>Observe\<close>: quantities that the contract does not mention, followed through every operation by
    three locales, each an extension of the one before: \<open>step_observer\<close> (the elementary steps),
    \<open>printing_observer\<close> (adds messages on standard error), \<open>observer\<close> (adds the creation of objects).
    They carry the armings of the timer, the quantums per object, the objects that exist and the
    events.
  \<^item> \<open>Messages\<close>: what counts as a printed line and as a library error; an action prints exactly when
    its answer is -1. \<open>Objects\<close>: how many objects a run creates and how many of them are still in the
    table. \<open>Numbers\<close>: the ranges of all numbers of a state, and the exact condition of an overflow.
  \<^item> \<open>Demo\<close>, \<open>Compute\<close>, \<open>Behaviour\<close>: concrete runs, symbolic execution, the reading of a process state.
  \<^item> \<open>Safety\<close>, \<open>Scheduling\<close>, \<open>Calls\<close> and this theory: the properties.
  \<^item> \<open>Tails\<close>: every API function split at its last \<open>unblock_signals\<close> into a core, which runs with the
    timer signal blocked, and a tail (\<open>run_api_core\<close>: the function is its core, then its tail).
    \<open>Interrupts\<close>: the machine whose steps are cores, tails, the returns of signal handlers and the
    expiries of the timer, so that a thread can be interrupted while a call returns and inside a
    handler that was resumed; every thread has the stack of its unfinished library code. Its runs
    are runs of the contract (locale \<open>stuttering\<close>). \<open>Nesting\<close>: the calls come back. \<open>StackSpace\<close>:
    the same machine restricted to stacks of \<open>STACK_SIZE\<close> bytes and to expiries of an armed timer, and a
    run of it in which the handlers outgrow a stack. \<open>Waits\<close>: the bounds on waiting and sleeping hold
    in the machine too. \<open>Traces\<close>: it and \<open>exec\<close> have the same runs. \<open>Pending\<close>: a signal delivered while
    \<open>siglongjmp\<close> restores the mask of a new thread.
  \<^item> \<open>Testing\<close>, \<open>Tests\<close>, \<open>Stress\<close>, \<open>RandomTests\<close>: the 16 tests of the repository
    (\<open>tests_to_be_ran_separately.cpp\<close>), which the library is shown to pass under the timing they are
    written for: as scripts of calls with the results and messages they expect and the timer signals
    at fixed places in the busy waits of the main thread, each of which lasts up to 100000 polls;
    or, where the test draws random numbers, as a program that the timer interrupts before any call.
    What happens when a thread is interrupted elsewhere, where the tests can fail, is not followed.
  \<^item> \<open>StackMemory\<close>: bytes, integers and frames in memory, and stacks that do not overlap. \<open>DemoJmp\<close>:
    \<open>demo_jmp.c\<close>, two threads that pass the processor to each other, on the context construction of
    \<open>Thread\<close>; their variables, return addresses and the frames of called functions lie in the two
    arrays. \<open>DemoSignals\<close>: \<open>demo_itimer.c\<close> and \<open>demo_singInt_handler.c\<close> as step
    relations, with a signal possible between any two statements of the loop.

  \<^bold>\<open>The compiler probes.\<close> \<open>src/cmake-build-debug/CMakeFiles\<close> holds four programs, one per language and
  release of CMake. CMake compiles them and searches the object file for strings that name the
  compiler, its version and the platform; nearly all of their logic is in the preprocessor. A probe
  is therefore modelled as a function of the macros that the compiler predefines.

  \<^item> \<open>Preproc\<close>: macros as a finite map to tokens, \<open>defined\<close>, the value of a macro in \<open>#if\<close>, and the
    record of the macros the probe defines itself (\<open>COMPILER_ID\<close>, the version components, ...).
  \<^item> \<open>CompilerId\<close>, \<open>CompilerIdCXX\<close>: a definition per branch of the cascade (\<open>id_GNU\<close>, \<open>id_Clang\<close>, ...)
    and the cascade itself (\<open>identify\<close>, \<open>identify_cxx\<close>). The longer cascades are cut into parts, named
    after their first branch, each with what follows it as a parameter. \<open>HostId\<close>, \<open>HostIdCXX\<close>: the
    platform and the architecture, translated from each of the two files.
  \<^item> \<open>Probe\<close>: the strings, the language level, and \<open>main\<close>, which indexes every string with \<open>argc\<close>.
    \<open>Probe318\<close>: what is different in the files of CMake 3.18.4.
  \<^item> \<open>Probes\<close>: the properties: versions read back, GCC recognised exactly, on which compilers the four
    probes agree, the bounds of \<open>main\<close>, and which of the declared strings \<open>main\<close> does not refer to. What
    CMake does with the strings is not in the repository and not modelled.

  \<^bold>\<open>Bounds.\<close> \<open>add_new_thread_from\<close> has fuel \<open>MAX_THREAD_NUM\<close>, the bound of the loop it stands for, so it
  never runs out before the loop ends. The number of quantums and the wake-up numbers are \<open>int\<close>s in the
  code; theorems about runs say how many actions and which sleeps keep them in range
  (\<open>library_never_stuck\<close>), and what happens outside (\<open>long_sleep_wakes_at_once\<close>,
  \<open>overflow_exactly_at_the_limit\<close>). Witnesses run at most 1000 actions on a platform that never fails.
  \<open>handlers_pile_up\<close> holds for every number of bytes above 0 that a handler may need. The scripts of
  \<open>Tests\<close> allow up to 100000 polls in each quantum. In \<open>Stress\<close> a round of the timer has fuel
  \<open>MAX_THREAD_NUM\<close>, one quantum for every thread there can be.
  The counters of \<open>demo_jmp.c\<close> are \<open>int\<close>s; its property covers two thousand million turns, before they
  overflow, and assumes that the frames of \<open>printf\<close> and \<open>usleep\<close> fit into the arrays. A version
  number is read back when it has at most eight digits, as many as \<open>DEC\<close> writes.

  \<^bold>\<open>Not modelled.\<close> In \<open>exec\<close> a timer signal arrives between two API calls; theory \<open>Interrupts\<close> adds
  the instants after the last \<open>unblock_signals\<close> of a call and inside resumed handlers, and shows
  that they make no difference to the contract. A signal that arrives before \<open>block_signals\<close> has
  taken effect finds the state as it was before the call and is not modelled apart;
  \<open>uthread_get_tid\<close>, which blocks nothing, reads one field at one instant. In both machines
  \<open>siglongjmp\<close> restores registers and mask at once. Where the mask comes first, it makes no
  difference unless the thread is dispatched for the first time and a signal is pending;
  \<open>pending_signal_overwrites_fresh_context\<close> shows both, and what a run does after the context was
  lost is not followed. During \<open>uthread_init\<close> the timer is not yet armed. A signal that is sent
  while it is blocked stays pending; its later delivery is the next timer action. There is no
  clock: a signal can be delivered in every state, also when the interval is 0 and the timer disarmed,
  which makes properties of all runs stronger; \<open>StackSpace\<close>, which claims that a run exists, asks for
  an armed timer. That a stack holds the frames put on it is not checked except there, where a handler
  needs a given number of bytes; the machines count frames, not bytes. A thread whose
  entry function returns has no return address on its stack, and no action stands for that; nor for
  a second \<open>uthread_init\<close>, which the documentation rules out. Allocation does not fail. The default
  constructor of \<open>Thread\<close> is never called. The contents of stacks and registers are represented by
  the call site at which a thread is suspended. In the demos a line printed is one event. In the
  probes a predefined macro stands for a number or another token; function-like predefined macros,
  and a command line that defines the probe's own macros, are left out. The build files
  (\<open>CMakeLists.txt\<close>, \<open>Makefile\<close>, \<open>runall.sh\<close>), the other files under \<open>cmake-build-debug\<close> hold no
  logic of the program.
\<close>

subsection \<open>Initialisation\<close>

lemma call_before_init: "exec K (Call f) (printed msgs) = Fault Null_deref"
  by (cases f) (simp_all add: exec_def run_action_def uthread_spawn_def uthread_terminate_def uthread_block_def
      uthread_resume_def uthread_sleep_def uthread_get_tid_def uthread_get_total_quantums_def
      uthread_get_quantums_def block_signals_def get_running_thread_tid_def this_def comb_defs printed_def boot_def)

lemma init_accepted:
  assumes "sys_ok K" and "mangling_ok K" and "in_int q" and "0 \<le> q"
  shows "\<exists>s. uthread_init K q (printed msgs) = Ret 0 s \<and> view K s = a_init \<and> disposition s = Callback_handler \<and>
      itimer s = quantum_timer q \<and> sched_quantum_usecs (sched s) = q \<and> lib_reachable K q s"
proof -
  obtain s where s: "uthread_init K q (printed msgs) = Ret 0 s" "lib_start K q s"
    using init_returns [OF assms] .
  have rep: "rep_ok s" using lib_start_view(1) [OF s(2)] by (simp add: lib_inv_def)
  have "disposition s = Callback_handler" using rep by (rule rep_okE) (rule rep_withD(4))
  with s lib_start_view [OF s(2)] lib_start_observed(1) [OF s(2)] show ?thesis
    by (auto simp: sched_def ready_scheduler_def Scheduler_ctor_def intro: reachable.first)
qed

text \<open>
  C29. \<open>uthread_init\<close> in a process that has not called it successfully: a negative quantum is reported
  and answered with -1, and nothing else changes. Otherwise it returns 0, and the main thread is
  running in its first quantum, alone, with the handler installed, the timer signal unblocked and the
  timer armed with the quantum. Until then, also after rejected calls, every other API function
  dereferences the null pointer \<open>scheduler\<close>.
\<close>

theorem init_outcome:
  assumes "sys_ok K" and "mangling_ok K" and "in_int q"
  shows "(if q < 0
    then uthread_init K q (printed msgs) =
      Ret (- 1) (printed ((''thread library error: non-positive quantum_usecs'' @ [CHR 0x0A]) # msgs))
    else \<exists>s. uthread_init K q (printed msgs) = Ret 0 s \<and> view K s = a_init \<and> disposition s = Callback_handler \<and>
      itimer s = quantum_timer q \<and> sched_quantum_usecs (sched s) = q \<and> lib_reachable K q s) \<and>
    (\<forall>f. exec K (Call f) (printed msgs) = Fault Null_deref)"
proof (cases "q < 0")
  case True
  then have "uthread_init K q (printed msgs) =
      Ret (- 1) (printed ((''thread library error: non-positive quantum_usecs'' @ [CHR 0x0A]) # msgs))"
    by (simp add: uthread_init_def handleErrorLibrary_def LIBRARY_ERROR_def stderr_put_def comb_defs
        handle_consts printed_def boot_def)
  with True call_before_init show ?thesis by simp
next
  case False
  with init_accepted [OF assms] call_before_init show ?thesis by simp
qed

theorem init_outcome_witness:
  "\<exists>s. uthread_init good_platform 2500000 (printed []) = Ret 0 s \<and> view good_platform s = a_init \<and>
     disposition s = Callback_handler \<and> itimer s = quantum_timer 2500000 \<and>
     sched_quantum_usecs (sched s) = 2500000 \<and> lib_reachable good_platform 2500000 s"
  using init_outcome [OF sys_ok_good_platform mangling_ok_good_platform, of 2500000 "[]"]
  by (simp add: in_int_def int_limits)

subsection \<open>The timer and the quantums\<close>

text \<open>
  C18. The timer is armed anew for every quantum: whenever user code runs, the number of successful
  \<open>setitimer\<close> calls equals the number of started quantums, and the timer holds the interval of
  \<open>uthread_init\<close>. So every thread, however it came to run (after a timer signal, or because
  another thread blocked, slept or terminated), gets a full quantum.
\<close>

theorem timer_armed_once_per_quantum:
  assumes "lib_reachable K q s"
  shows "int (arm_count s) = total_quantums (sched s) \<and> itimer s = quantum_timer q"
  using armings [OF assms] reachable_sched [OF assms] by (auto simp: timer_obs_def)

theorem timer_armed_once_per_quantum_witness:
  "int (arm_count (state_after demo)) = 2 \<and> itimer (state_after demo) = quantum_timer 1000"
  using timer_armed_once_per_quantum [OF demo_reachable] by (simp add: demo_fields)

text \<open>
  With a quantum of 0, which \<open>uthread_init\<close> accepts although its documentation calls it an
  error, the timer is disarmed in every state the program can reach: no thread is ever preempted.
\<close>

lemma zero_quantum_never_preempts:
  assumes "sys_ok K" and "mangling_ok K"
  shows "(\<exists>s. uthread_init K 0 boot = Ret 0 s \<and> lib_reachable K 0 s) \<and>
    {s. lib_reachable K 0 s} \<subseteq> {s. itimer s = zero_timer}"
proof -
  have "quantum_timer 0 = zero_timer" by (simp add: quantum_timer_def zero_timer_def SECOND_def)
  moreover have "itimer s = quantum_timer 0" if "lib_reachable K 0 s" for s
    using armings [OF that] by (auto simp: timer_obs_def)
  moreover obtain s where "uthread_init K 0 boot = Ret 0 s" "lib_start K 0 s"
    using boot_returns [OF assms, of 0] by (auto simp: in_int_def int_limits)
  ultimately show ?thesis by (auto intro: reachable.first)
qed

text \<open>
  C19. The books balance: whenever user code runs, the number of started quantums is the sum of the
  quantums of all thread objects that were ever created, the terminated ones included. No quantum
  is lost, charged twice or charged to two threads, and no counter wraps.
\<close>

theorem quantums_balance:
  assumes "lib_reachable K q s"
  shows "total_quantums (sched s) =
      int (\<Sum>l < next_obj s. case heap s l of None \<Rightarrow> 0 | Some th \<Rightarrow> quantum_t th) \<and>
    (\<forall>th \<in> ran (thr s). int (quantum_t th) \<le> total_quantums (sched s))"
proof -
  have "int (quantum_sum s) = total_quantums (sched s)"
    using charges [OF assms] reachable_sched [OF assms] by (auto simp: charge_obs_def)
  moreover have "int (quantum_t th) \<le> total_quantums (sched s)" if "th \<in> ran (thr s)" for th
    using that quantum_bound(1) [OF assms] by (auto simp: ran_def)
  ultimately show ?thesis unfolding quantum_sum_def by simp
qed

theorem quantums_balance_witness:
  "2 = int (\<Sum>l < next_obj (state_after demo).
     case heap (state_after demo) l of None \<Rightarrow> 0 | Some th \<Rightarrow> quantum_t th)"
  using quantums_balance [OF demo_reachable] by (simp add: demo_fields)

subsection \<open>The tests\<close>

text \<open>
  C33. Under the timing they are written for, the library passes the 16 tests of the repository, on
  every platform whose system calls succeed. For the 14 scripts (scheduling, errors, sleeping; any entry
  points) that timing is: the timer expires only while the main thread polls in \<open>threadQuantumSleep\<close>,
  after at most 100000 polls in each of its quantums, and the other threads get through their parts
  within one quantum each; the tests warn that they can fail or loop under other timings, about which
  this says nothing. The two tests with random numbers pass whatever the generator draws and with up to
  1000 expiries before each call.
\<close>

theorem scheduled_tests_pass:
  assumes "sys_ok K" and "mangling_ok K" and "f \<noteq> 0" and "g \<noteq> 0" and "\<forall>k. polls k \<le> 100000"
    and "\<forall>i. preempt i \<le> 1000" and "distinct shuffled" and "set shuffled = {1..SPAWN_COUNT}" and "in_range draw"
  shows "Test1 K polls f \<and> Test2 K polls f g \<and> Test3 K polls f \<and> Test4 K preempt shuffled f \<and>
    Test5 K preempt draw f \<and> Test6 K polls f \<and> Test7 K polls f \<and> Test8 K polls f \<and> Test9 K polls f \<and>
    Test10 K polls f g \<and> Test11 K polls f g \<and> Test12 K polls f g \<and> Test13 K polls f g \<and>
    Test14 K polls f g \<and> Test15 K polls f g \<and> Test16 K polls f"
  using library_passes_scripted_tests [OF assms(1-5)] library_passes_random_tests [OF assms(1-3,6-9)] by blast

lemma draw_mod: "in_range (\<lambda>i a b. a + int i mod (b - a + 1))"
proof -
  have "a + int i mod (b - a + 1) \<le> b" if "a \<le> b" for i a b
    using that pos_mod_bound [of "b - a + 1" "int i"] by linarith
  then show ?thesis by (simp add: in_range_def)
qed

lemma all_spawned: "distinct (rev [1..99 :: int])" "set (rev [1..99 :: int]) = {1..SPAWN_COUNT}"
  by (simp_all add: SPAWN_COUNT_def MAX_THREAD_NUM_def)

theorem scheduled_tests_pass_witness:
  "Test1 good_platform (\<lambda>k. 7 + nat k mod 5) 0x400 \<and> Test4 good_platform (\<lambda>i. i mod 3) (rev [1..99]) 0x400 \<and>
   Test5 good_platform (\<lambda>i. i mod 3) (\<lambda>i a b. a + int i mod (b - a + 1)) 0x400 \<and>
   Test15 good_platform (\<lambda>k. 7 + nat k mod 5) 0x400 0x500"
proof -
  have "i mod 3 \<le> 1000" for i :: nat
    using mod_less_divisor [of 3 i] by simp
  then have preempt: "\<forall>i :: nat. i mod 3 \<le> 1000" by blast
  have "7 + nat k mod 5 \<le> 100000" for k
    using mod_less_divisor [of 5 "nat k"] by linarith
  then have p: "(0x400 :: addr) \<noteq> 0" "(0x500 :: addr) \<noteq> 0" "\<forall>k. 7 + nat k mod 5 \<le> 100000" by simp_all
  from scheduled_tests_pass [OF sys_ok_good_platform mangling_ok_good_platform p preempt all_spawned draw_mod]
  show ?thesis by blast
qed

end
